theory Spec2Isabelle
  imports Main "HOL-Library.Word"
begin

section \<open>Byte buffers and JavaScript values\<close>

type_synonym byte = "8 word"
type_synonym bytes = "byte list"

text \<open>A JavaScript string is a sequence of UTF-16 code units.\<close>

type_synonym jsstring = "16 word list"

text \<open>The passphrase arrives over IPC untyped; the code tests \<^verbatim>\<open>typeof passphrase\<close>.\<close>

datatype jsval = JsString jsstring | JsOther

text \<open>\<^verbatim>\<open>Buffer.from(s, "ascii")\<close> on a string of ASCII characters.\<close>

definition ascii :: "string \<Rightarrow> bytes" where
  "ascii s = map (\<lambda>c. of_nat (of_char c)) s"

text \<open>\<^verbatim>\<open>buf.subarray(start, end)\<close> for \<open>start \<le> end\<close>; both are clamped to the length.\<close>

definition subarray :: "bytes \<Rightarrow> nat \<Rightarrow> nat \<Rightarrow> bytes" where
  "subarray buf start end = take (end - start) (drop start buf)"

text \<open>\<^verbatim>\<open>Buffer.alloc(n)\<close>: n zero bytes.\<close>

definition alloc :: "nat \<Rightarrow> bytes" where
  "alloc n = replicate n 0"

section \<open>The in-memory database\<close>

text \<open>
  The tables of the sql.js database that the modelled operations read or write; a table
  is the list of its rows in insertion order. The \<^verbatim>\<open>projects\<close>, \<^verbatim>\<open>todos\<close> and
  \<^verbatim>\<open>timeline_tasks\<close> tables are not touched by them and are left out.
\<close>

record noteRow =
  noteId :: string
  noteProjectId :: string
  noteTitle :: string
  noteDate :: string
  contentMarkdown :: string
  noteCreatedAt :: string
  noteUpdatedAt :: string

record attachmentRow =
  attId :: string
  attProjectId :: string
  originalFileName :: string
  storedFileName :: string
  storedRelativePath :: string
  sizeBytes :: nat
  addedAt :: string

record auditRow =
  auditId :: string
  auditTimestamp :: string
  auditAction :: string
  auditEntityType :: string
  auditEntityId :: "string option"
  auditProjectId :: "string option"
  detailsJson :: "string option"

record database =
  notes_table :: "noteRow list"
  attachments_table :: "attachmentRow list"
  audit_log :: "auditRow list"

text \<open>The manifest \<^verbatim>\<open>createLocalSnapshot\<close> writes and returns.\<close>

record manifest =
  snapshotId :: string
  createdAt :: string
  reason :: string
  dbFileName :: string
  encryptedDatabase :: bool
  attachmentFiles :: nat

section \<open>The envelope codec (crypto.cjs)\<close>

definition DB_MAGIC :: bytes where "DB_MAGIC = ascii ''EDNENC01''"
definition DB_VERSION :: nat where "DB_VERSION = 1"
definition FILE_MAGIC :: bytes where "FILE_MAGIC = ascii ''EDNFILE1''"
definition FILE_VERSION :: nat where "FILE_VERSION = 1"
definition SALT_LEN :: nat where "SALT_LEN = 16"
definition IV_LEN :: nat where "IV_LEN = 12"
definition TAG_LEN :: nat where "TAG_LEN = 16"

record kdfParams =
  kdfN :: nat
  kdfR :: nat
  kdfP :: nat

definition DEFAULT_SCRYPT_PARAMS :: kdfParams where
  "DEFAULT_SCRYPT_PARAMS = \<lparr>kdfN = 32768, kdfR = 8, kdfP = 1\<rparr>"

datatype norm_form = NFC | NFD | NFKC | NFKD

text \<open>
  What the code takes from the JavaScript runtime, Node and sql.js. None of it is code of
  this repository, so every function of the model takes it as the parameter \<open>L\<close>:
  \<^item> \<open>normalize f s\<close> is \<^verbatim>\<open>s.normalize(f)\<close>;
  \<^item> \<open>scryptSync pw salt keylen params\<close> is \<^verbatim>\<open>crypto.scryptSync\<close> with
    \<^verbatim>\<open>maxmem\<close> fixed at 128 MiB; \<open>None\<close> when it throws (it validates its cost
    parameters);
  \<^item> \<open>hkdfSync ikm salt info len\<close> is \<^verbatim>\<open>crypto.hkdfSync("sha256", ...)\<close>;
  \<^item> \<open>gcmEncrypt key iv aad plaintext\<close> is an aes-256-gcm cipher run to the end and
    returns the ciphertext and the tag;
  \<^item> \<open>gcmDecrypt key iv aad tag ciphertext\<close> is the decipher; \<open>None\<close> when
    \<^verbatim>\<open>final()\<close> throws "Unsupported state or unable to authenticate data";
  \<^item> \<open>randomBytes k n\<close>, \<open>randomUUID k\<close> and \<open>nowIso k\<close> are the results of the
    \<open>k\<close>-th call that draws randomness or reads the clock;
  \<^item> \<open>sqlOpen bs\<close> is \<^verbatim>\<open>new SQL.Database(bs)\<close> followed by the schema statements of
    \<^verbatim>\<open>initDatabase\<close>, \<open>None\<close> when they throw; \<open>sqlExport d\<close> is \<^verbatim>\<open>d.export()\<close>;
  \<^item> \<open>dateParses s\<close> tells whether \<^verbatim>\<open>new Date(s + "T00:00:00.000Z")\<close> is a valid date;
  \<^item> \<open>jsonManifest m\<close> is \<^verbatim>\<open>JSON.stringify\<close> of a snapshot manifest, and
    \<open>jsonBackupMeta old at dir\<close> that of the backup metadata read from \<open>old\<close> with
    \<^verbatim>\<open>lastRestoreAt\<close> and \<^verbatim>\<open>lastBackupPath\<close> replaced.
\<close>

record platform =
  normalize :: "norm_form \<Rightarrow> jsstring \<Rightarrow> jsstring"
  scryptSync :: "jsstring \<Rightarrow> bytes \<Rightarrow> nat \<Rightarrow> kdfParams \<Rightarrow> bytes option"
  hkdfSync :: "bytes \<Rightarrow> bytes \<Rightarrow> bytes \<Rightarrow> nat \<Rightarrow> bytes"
  gcmEncrypt :: "bytes \<Rightarrow> bytes \<Rightarrow> bytes \<Rightarrow> bytes \<Rightarrow> bytes \<times> bytes"
  gcmDecrypt :: "bytes \<Rightarrow> bytes \<Rightarrow> bytes \<Rightarrow> bytes \<Rightarrow> bytes \<Rightarrow> bytes option"
  randomBytes :: "nat \<Rightarrow> nat \<Rightarrow> bytes"
  randomUUID :: "nat \<Rightarrow> string"
  nowIso :: "nat \<Rightarrow> string"
  sqlOpen :: "bytes option \<Rightarrow> database option"
  sqlExport :: "database \<Rightarrow> bytes"
  dateParses :: "string \<Rightarrow> bool"
  jsonManifest :: "manifest \<Rightarrow> bytes"
  jsonBackupMeta :: "bytes option \<Rightarrow> string \<Rightarrow> string \<Rightarrow> bytes"

text \<open>Every \<^verbatim>\<open>throw\<close> of the modelled code is one constructor.\<close>

datatype vault_error =
    VaultNotInitialized
  | DbTooSmall
  | DbBadMagic
  | DbUnsupportedVersion nat
  | FileTooSmall
  | FileBadMagic
  | FileUnsupportedVersion nat
  | RangeError
  | AuthFailed
  | KdfFailed
  | PassphraseTooShort
  | UnlockFailed
  | UnlockFailedNoCause
  | WriteVerifyFailed
  | DbLoadFailed
  | SqlError
  | IOFailure
  | NoDatabaseFile
  | VaultLocked
  | InvalidId
  | InvalidInput

record vault =
  masterKey :: bytes
  dbKey :: bytes
  fileKey :: bytes
  kdfSalt :: bytes
  kdfParams :: kdfParams

definition normalizePassphrase :: "platform \<Rightarrow> jsval \<Rightarrow> jsstring" where
  "normalizePassphrase L passphrase =
     (case passphrase of JsOther \<Rightarrow> [] | JsString s \<Rightarrow> normalize L NFKC s)"

text \<open>\<^verbatim>\<open>value >>> 0\<close> is the value modulo \<open>2 ^ 32\<close>; the four bytes are big-endian.\<close>

definition u32 :: "nat \<Rightarrow> bytes" where
  "u32 v = (let w = v mod 2 ^ 32 in
     [of_nat (w div 2 ^ 24), of_nat (w div 2 ^ 16 mod 256),
      of_nat (w div 2 ^ 8 mod 256), of_nat (w mod 256)])"

text \<open>\<^verbatim>\<open>buf.readUInt32BE(offset)\<close> throws a RangeError out of range.\<close>

definition readU32 :: "bytes \<Rightarrow> nat \<Rightarrow> nat option" where
  "readU32 buf offset =
     (if offset + 4 \<le> length buf
      then Some (unat (buf ! offset) * 2 ^ 24 + unat (buf ! (offset + 1)) * 2 ^ 16
                 + unat (buf ! (offset + 2)) * 2 ^ 8 + unat (buf ! (offset + 3)))
      else None)"

definition hkdfSubkey :: "platform \<Rightarrow> bytes \<Rightarrow> string \<Rightarrow> bytes" where
  "hkdfSubkey L mk info = hkdfSync L mk (alloc 0) (ascii info) 32"

definition deriveKeysFromPassphrase ::
  "platform \<Rightarrow> jsval \<Rightarrow> bytes \<Rightarrow> kdfParams \<Rightarrow> vault_error + vault" where
  "deriveKeysFromPassphrase L passphrase salt params =
     (let normalized = normalizePassphrase L passphrase in
      case scryptSync L normalized salt 32 params of
        None \<Rightarrow> Inl KdfFailed
      | Some mk \<Rightarrow>
          Inr \<lparr>masterKey = mk,
               dbKey = hkdfSubkey L mk ''edisconotes:db'',
               fileKey = hkdfSubkey L mk ''edisconotes:files'',
               kdfSalt = salt,
               kdfParams = params\<rparr>)"

text \<open>
  \<^verbatim>\<open>aesGcmEncrypt\<close> draws its nonce from \<^verbatim>\<open>crypto.randomBytes(IV_LEN)\<close>; the model
  takes the drawn nonce as the argument \<open>iv\<close>. The result is \<open>(iv, tag, ciphertext)\<close>.
\<close>

definition aesGcmEncrypt ::
  "platform \<Rightarrow> bytes \<Rightarrow> bytes \<Rightarrow> bytes \<Rightarrow> bytes \<Rightarrow> bytes \<times> bytes \<times> bytes" where
  "aesGcmEncrypt L key plaintext aad iv =
     (let (ciphertext, tag) = gcmEncrypt L key iv aad plaintext in (iv, tag, ciphertext))"

definition aesGcmDecrypt ::
  "platform \<Rightarrow> bytes \<Rightarrow> bytes \<Rightarrow> bytes \<Rightarrow> bytes \<Rightarrow> bytes \<Rightarrow> vault_error + bytes" where
  "aesGcmDecrypt L key iv tag ciphertext aad =
     (case gcmDecrypt L key iv aad tag ciphertext of
        None \<Rightarrow> Inl AuthFailed
      | Some plaintext \<Rightarrow> Inr plaintext)"

definition buildDbHeader :: "kdfParams \<Rightarrow> bytes \<Rightarrow> bytes \<Rightarrow> bytes" where
  "buildDbHeader params salt iv =
     DB_MAGIC @ [of_nat DB_VERSION] @ u32 (kdfN params) @ u32 (kdfR params)
       @ u32 (kdfP params) @ salt @ iv"

definition sealDatabaseBytes ::
  "platform \<Rightarrow> bytes \<Rightarrow> vault option \<Rightarrow> bytes \<Rightarrow> vault_error + bytes" where
  "sealDatabaseBytes L plaintext vo iv0 =
     (case vo of
        None \<Rightarrow> Inl VaultNotInitialized
      | Some v \<Rightarrow>
          (let header = buildDbHeader (kdfParams v) (kdfSalt v) (alloc IV_LEN);
               (iv, tag, ciphertext) =
                 aesGcmEncrypt L (dbKey v) plaintext
                   (subarray header 0 (length header - IV_LEN)) iv0;
               fullHeader = buildDbHeader (kdfParams v) (kdfSalt v) iv
           in Inr (fullHeader @ tag @ ciphertext)))"

definition openVaultFromDatabaseEnvelope ::
  "platform \<Rightarrow> bytes \<Rightarrow> jsval \<Rightarrow> vault_error + (bytes \<times> vault)" where
  "openVaultFromDatabaseEnvelope L buf passphrase =
     (let minLen = length DB_MAGIC + 1 + 12 + SALT_LEN + IV_LEN + TAG_LEN in
      if length buf < minLen then Inl DbTooSmall
      else if subarray buf 0 (length DB_MAGIC) \<noteq> DB_MAGIC then Inl DbBadMagic
      else
        let version = unat (buf ! length DB_MAGIC) in
        if version \<noteq> DB_VERSION then Inl (DbUnsupportedVersion version)
        else
          let offset = length DB_MAGIC + 1 in
          case (readU32 buf offset, readU32 buf (offset + 4), readU32 buf (offset + 8)) of
            (Some n, Some r, Some p) \<Rightarrow>
              (let params = \<lparr>kdfN = n, kdfR = r, kdfP = p\<rparr>;
                   offset = offset + 12;
                   salt = subarray buf offset (offset + SALT_LEN);
                   offset = offset + SALT_LEN;
                   iv = subarray buf offset (offset + IV_LEN);
                   offset = offset + IV_LEN;
                   tag = subarray buf offset (offset + TAG_LEN);
                   offset = offset + TAG_LEN;
                   ciphertext = drop offset buf
               in case deriveKeysFromPassphrase L passphrase salt params of
                    Inl e \<Rightarrow> Inl e
                  | Inr v \<Rightarrow>
                      (let aad = subarray (buildDbHeader params salt (alloc IV_LEN)) 0
                                   (length DB_MAGIC + 1 + 12 + SALT_LEN)
                       in case aesGcmDecrypt L (dbKey v) iv tag ciphertext aad of
                            Inl e \<Rightarrow> Inl e
                          | Inr plaintext \<Rightarrow> Inr (plaintext, v)))
          | _ \<Rightarrow> Inl RangeError)"

definition buildFileHeader :: "bytes \<Rightarrow> bytes" where
  "buildFileHeader iv = FILE_MAGIC @ [of_nat FILE_VERSION] @ iv"

definition sealFileBytes :: "platform \<Rightarrow> bytes \<Rightarrow> bytes \<Rightarrow> bytes \<Rightarrow> bytes" where
  "sealFileBytes L plaintext fk iv0 =
     (let aad = buildFileHeader (alloc IV_LEN);
          (iv, tag, ciphertext) =
            aesGcmEncrypt L fk plaintext (subarray aad 0 (length aad - IV_LEN)) iv0;
          header = buildFileHeader iv
      in header @ tag @ ciphertext)"

definition openFileBytes :: "platform \<Rightarrow> bytes \<Rightarrow> bytes \<Rightarrow> vault_error + bytes" where
  "openFileBytes L buf fk =
     (let minLen = length FILE_MAGIC + 1 + IV_LEN + TAG_LEN + 1 in
      if length buf < minLen then Inl FileTooSmall
      else if subarray buf 0 (length FILE_MAGIC) \<noteq> FILE_MAGIC then Inl FileBadMagic
      else
        let version = unat (buf ! length FILE_MAGIC) in
        if version \<noteq> FILE_VERSION then Inl (FileUnsupportedVersion version)
        else
          let offset = length FILE_MAGIC + 1;
              iv = subarray buf offset (offset + IV_LEN);
              offset = offset + IV_LEN;
              tag = subarray buf offset (offset + TAG_LEN);
              offset = offset + TAG_LEN;
              ciphertext = drop offset buf;
              aad = subarray (buildFileHeader (alloc IV_LEN)) 0 (length FILE_MAGIC + 1)
          in aesGcmDecrypt L fk iv tag ciphertext aad)"


subsection \<open>What the codec relies on in the primitives\<close>

text \<open>
  Decrypting what was encrypted, under the same key, nonce and associated data, gives
  the plaintext back.
\<close>

definition gcm_roundtrip :: "platform \<Rightarrow> bool" where
  "gcm_roundtrip L \<longleftrightarrow>
     (\<forall>key iv aad pt. gcmDecrypt L key iv aad (snd (gcmEncrypt L key iv aad pt))
                          (fst (gcmEncrypt L key iv aad pt)) = Some pt)"

text \<open>The tag has the default length of 16 bytes.\<close>

definition gcm_tag_len :: "platform \<Rightarrow> bool" where
  "gcm_tag_len L \<longleftrightarrow>
     (\<forall>key iv aad pt. length (snd (gcmEncrypt L key iv aad pt)) = TAG_LEN)"

text \<open>GCM is a stream mode: the ciphertext is as long as the plaintext.\<close>

definition gcm_ct_len :: "platform \<Rightarrow> bool" where
  "gcm_ct_len L \<longleftrightarrow>
     (\<forall>key iv aad pt. length (fst (gcmEncrypt L key iv aad pt)) = length pt)"

text \<open>
  Key material as \<^verbatim>\<open>unlockVault\<close> makes it: a 16-byte salt and cost parameters that
  fit the header's 32-bit fields.
\<close>

definition valid_key_material :: "vault \<Rightarrow> bool" where
  "valid_key_material v \<longleftrightarrow>
     length (kdfSalt v) = SALT_LEN \<and> kdfN (kdfParams v) < 2 ^ 32
       \<and> kdfR (kdfParams v) < 2 ^ 32 \<and> kdfP (kdfParams v) < 2 ^ 32"

subsection \<open>Executable instances of the primitives\<close>

text \<open>
  Small stand-ins with the interface of the primitives, on which the model can be run.
  \<open>refPlatform\<close> follows the shape of the real ones: a length-preserving cipher with a
  16-byte tag, a key derivation that rejects a cost \<open>N\<close> that is not a power of two
  greater than one (as scrypt does), and the fragment of Unicode normalisation on
  U+00E9 (canonically \<open>e\<close> followed by U+0301) and U+FB01 (the ligature fi, whose
  compatibility decomposition is \<open>f\<close>, \<open>i\<close>).
\<close>

definition jsstr :: "string \<Rightarrow> jsstring" where
  "jsstr s = map (\<lambda>c. of_nat (of_char c)) s"

definition bsum :: "bytes \<Rightarrow> byte" where
  "bsum xs = sum_list xs"

definition keyByte :: "bytes \<Rightarrow> byte" where
  "keyByte key = (case key of [] \<Rightarrow> 0 | k # ks \<Rightarrow> k)"

definition refGcmEncrypt :: "bytes \<Rightarrow> bytes \<Rightarrow> bytes \<Rightarrow> bytes \<Rightarrow> bytes \<times> bytes" where
  "refGcmEncrypt key iv aad pt =
     (let ct = map (\<lambda>b. b + keyByte key) pt
      in (ct, replicate 15 0 @ [keyByte key + bsum (iv @ aad @ ct)]))"

definition refGcmDecrypt :: "bytes \<Rightarrow> bytes \<Rightarrow> bytes \<Rightarrow> bytes \<Rightarrow> bytes \<Rightarrow> bytes option" where
  "refGcmDecrypt key iv aad tag ct =
     (if tag = replicate 15 0 @ [keyByte key + bsum (iv @ aad @ ct)]
      then Some (map (\<lambda>b. b - keyByte key) ct) else None)"

definition refScryptSync :: "jsstring \<Rightarrow> bytes \<Rightarrow> nat \<Rightarrow> kdfParams \<Rightarrow> bytes option" where
  "refScryptSync pw salt keylen params =
     (if list_ex (\<lambda>k. kdfN params = 2 ^ k) [1 ..< 32] \<and> 0 < kdfR params \<and> 0 < kdfP params
      then Some (replicate keylen
             (of_nat (sum_list (map unat pw) + kdfN params + kdfR params + kdfP params)
                + bsum salt))
      else None)"

definition refHkdfSync :: "bytes \<Rightarrow> bytes \<Rightarrow> bytes \<Rightarrow> nat \<Rightarrow> bytes" where
  "refHkdfSync ikm salt info len = replicate len (bsum (ikm @ salt @ info))"

definition decomposeFrag :: "jsstring \<Rightarrow> jsstring" where
  "decomposeFrag s = concat (map (\<lambda>c. if c = 0xE9 then [0x65, 0x301] else [c]) s)"

definition compatFrag :: "jsstring \<Rightarrow> jsstring" where
  "compatFrag s = concat (map (\<lambda>c. if c = 0xFB01 then [0x66, 0x69] else [c]) s)"

fun composeFrag :: "jsstring \<Rightarrow> jsstring" where
  "composeFrag (a # b # cs) =
     (if a = 0x65 \<and> b = 0x301 then 0xE9 # composeFrag cs else a # composeFrag (b # cs))"
| "composeFrag cs = cs"

definition refNormalize :: "norm_form \<Rightarrow> jsstring \<Rightarrow> jsstring" where
  "refNormalize f s =
     (case f of
        NFD \<Rightarrow> decomposeFrag s
      | NFC \<Rightarrow> composeFrag (decomposeFrag s)
      | NFKD \<Rightarrow> decomposeFrag (compatFrag s)
      | NFKC \<Rightarrow> composeFrag (decomposeFrag (compatFrag s)))"

text \<open>
  The rest of \<open>refPlatform\<close>: the \<open>k\<close>-th random draw is \<open>k\<close> repeated, identifiers
  are \<open>k\<close> written in hexadecimal into a version-4 UUID, the clock shows \<open>k\<close>, the
  database is exported as its three row counts, and any non-empty export opens as the
  empty database.
\<close>

definition hexDigit :: "nat \<Rightarrow> char" where
  "hexDigit n = ''0123456789abcdef'' ! (n mod 16)"

definition refRandomUUID :: "nat \<Rightarrow> string" where
  "refRandomUUID k = ''00000000-0000-4000-8000-0000000000'' @ [hexDigit (k div 16), hexDigit k]"

definition emptyDatabase :: database where
  "emptyDatabase = \<lparr>notes_table = [], attachments_table = [], audit_log = []\<rparr>"

definition refSqlOpen :: "bytes option \<Rightarrow> database option" where
  "refSqlOpen bs = (case bs of None \<Rightarrow> Some emptyDatabase
                    | Some b \<Rightarrow> if b = [] then None else Some emptyDatabase)"

definition refSqlExport :: "database \<Rightarrow> bytes" where
  "refSqlExport d = [of_nat (length (notes_table d)), of_nat (length (attachments_table d)),
                     of_nat (length (audit_log d))]"

definition refPlatform :: platform where
  "refPlatform = \<lparr>normalize = refNormalize, scryptSync = refScryptSync,
     hkdfSync = refHkdfSync, gcmEncrypt = refGcmEncrypt, gcmDecrypt = refGcmDecrypt,
     randomBytes = (\<lambda>k n. replicate n (of_nat k)),
     randomUUID = refRandomUUID,
     nowIso = (\<lambda>k. ''2026-01-01T00:00:'' @ [hexDigit (k div 16), hexDigit k]),
     sqlOpen = refSqlOpen, sqlExport = refSqlExport,
     dateParses = (\<lambda>s. True),
     jsonManifest = (\<lambda>m. ascii (reason m)),
     jsonBackupMeta = (\<lambda>old at dir. ascii dir)\<rparr>"

text \<open>The key material and nonce of the examples.\<close>

definition examplePassphrase :: jsval where
  "examplePassphrase = JsString (jsstr ''correct-horse-battery-staple12'')"

definition exampleSalt :: bytes where
  "exampleSalt = [1, 2, 3, 4, 5, 6, 7, 8, 9, 10, 11, 12, 13, 14, 15, 16]"

definition exampleIv :: bytes where
  "exampleIv = [21, 22, 23, 24, 25, 26, 27, 28, 29, 30, 31, 32]"

definition exampleVault :: vault where
  "exampleVault = \<lparr>masterKey = replicate 32 18, dbKey = replicate 32 224,
     fileKey = replicate 32 45, kdfSalt = exampleSalt,
     kdfParams = DEFAULT_SCRYPT_PARAMS\<rparr>"

definition exampleEnvelope :: "platform \<Rightarrow> bytes" where
  "exampleEnvelope L =
     (case sealDatabaseBytes L [1, 2, 3] (Some exampleVault) exampleIv of
        Inr e \<Rightarrow> e
      | Inl _ \<Rightarrow> [])"


section \<open>The file system and the process state (main.cjs)\<close>

text \<open>
  A path is the string the code builds; paths are absolute and normalised, on which
  \<^verbatim>\<open>path.resolve\<close> is the identity. The file system is the association list of its
  regular files; a directory exists when a file lies under it.
\<close>

type_synonym path = string
type_synonym fs = "(path \<times> bytes) list"

definition startsWith :: "string \<Rightarrow> string \<Rightarrow> bool" where
  "startsWith s pre = (take (length pre) s = pre)"

definition endsWith :: "string \<Rightarrow> string \<Rightarrow> bool" where
  "endsWith s suf = (length suf \<le> length s \<and> drop (length s - length suf) s = suf)"

definition pathJoin :: "path \<Rightarrow> string \<Rightarrow> path" where
  "pathJoin dir name = dir @ ''/'' @ name"

definition isUnder :: "path \<Rightarrow> path \<Rightarrow> bool" where
  "isUnder dir p = startsWith p (dir @ ''/'')"

definition fsRemove :: "fs \<Rightarrow> path \<Rightarrow> fs" where
  "fsRemove f p = filter (\<lambda>e. fst e \<noteq> p) f"

definition fsWrite :: "fs \<Rightarrow> path \<Rightarrow> bytes \<Rightarrow> fs" where
  "fsWrite f p d = (p, d) # fsRemove f p"

definition fsTree :: "fs \<Rightarrow> path \<Rightarrow> fs" where
  "fsTree f dir = filter (\<lambda>e. isUnder dir (fst e)) f"

definition fsRemoveTree :: "fs \<Rightarrow> path \<Rightarrow> fs" where
  "fsRemoveTree f dir = filter (\<lambda>e. \<not> isUnder dir (fst e) \<and> fst e \<noteq> dir) f"

text \<open>\<^verbatim>\<open>path.basename\<close> and \<^verbatim>\<open>path.extname\<close>.\<close>

definition basename :: "path \<Rightarrow> string" where
  "basename p = rev (takeWhile (\<lambda>c. c \<noteq> CHR ''/'') (rev p))"

definition extname :: "path \<Rightarrow> string" where
  "extname p =
     (let b = basename p; e = rev (takeWhile (\<lambda>c. c \<noteq> CHR ''.'') (rev b))
      in if CHR ''.'' \<notin> set b \<or> length e + 1 = length b then [] else CHR ''.'' # e)"

text \<open>
  The global state of the main process: the file system, the paths at which the
  operating system refuses a write, an unlink or a rename (permissions, a lock, a full
  disk), the variables \<^verbatim>\<open>db\<close>, \<^verbatim>\<open>vaultState\<close> and \<^verbatim>\<open>tempOpenFiles\<close>, and the
  number of random or clock values drawn so far.
\<close>

record world =
  files :: fs
  denied :: "path \<Rightarrow> bool"
  db :: "database option"
  locked :: bool
  vault :: "vault option"
  tempOpenFiles :: "path list"
  draws :: nat

definition existsSync :: "world \<Rightarrow> path \<Rightarrow> bool" where
  "existsSync w p = (map_of (files w) p \<noteq> None \<or> fsTree (files w) p \<noteq> [])"

definition readFileSync :: "world \<Rightarrow> path \<Rightarrow> vault_error + bytes" where
  "readFileSync w p = (case map_of (files w) p of None \<Rightarrow> Inl IOFailure | Some d \<Rightarrow> Inr d)"

definition writeFileSync :: "world \<Rightarrow> path \<Rightarrow> bytes \<Rightarrow> vault_error + world" where
  "writeFileSync w p d =
     (if denied w p then Inl IOFailure else Inr (w\<lparr>files := fsWrite (files w) p d\<rparr>))"

definition unlinkSync :: "world \<Rightarrow> path \<Rightarrow> vault_error + world" where
  "unlinkSync w p =
     (if map_of (files w) p = None \<or> denied w p then Inl IOFailure
      else Inr (w\<lparr>files := fsRemove (files w) p\<rparr>))"

definition renameSync :: "world \<Rightarrow> path \<Rightarrow> path \<Rightarrow> vault_error + world" where
  "renameSync w src dst =
     (case map_of (files w) src of
        None \<Rightarrow> Inl IOFailure
      | Some d \<Rightarrow>
          if denied w src \<or> denied w dst then Inl IOFailure
          else Inr (w\<lparr>files := fsWrite (fsRemove (files w) src) dst d\<rparr>))"

definition copyFileSync :: "world \<Rightarrow> path \<Rightarrow> path \<Rightarrow> vault_error + world" where
  "copyFileSync w src dst =
     (case readFileSync w src of Inl e \<Rightarrow> Inl e | Inr d \<Rightarrow> writeFileSync w dst d)"

text \<open>\<^verbatim>\<open>try { if (fs.existsSync(p)) fs.unlinkSync(p); } catch { }\<close>\<close>

definition tryUnlink :: "world \<Rightarrow> path \<Rightarrow> world" where
  "tryUnlink w p =
     (if existsSync w p then (case unlinkSync w p of Inl _ \<Rightarrow> w | Inr w' \<Rightarrow> w') else w)"

text \<open>
  \<^verbatim>\<open>copyDirRecursive\<close> copies the files under \<open>src\<close> to the same relative paths under
  \<open>dst\<close> and counts them; a failing copy throws and leaves what was copied so far.
\<close>

fun copyEntries ::
  "world \<Rightarrow> path \<Rightarrow> path \<Rightarrow> (path \<times> bytes) list \<Rightarrow> (vault_error + nat) \<times> world" where
  "copyEntries w src dst [] = (Inr 0, w)"
| "copyEntries w src dst (e # es) =
     (case writeFileSync w (dst @ drop (length src) (fst e)) (snd e) of
        Inl err \<Rightarrow> (Inl err, w)
      | Inr w1 \<Rightarrow>
          (case copyEntries w1 src dst es of
             (Inl err, w2) \<Rightarrow> (Inl err, w2)
           | (Inr n, w2) \<Rightarrow> (Inr (Suc n), w2)))"

definition copyDirRecursive :: "world \<Rightarrow> path \<Rightarrow> path \<Rightarrow> (vault_error + nat) \<times> world" where
  "copyDirRecursive w src dst =
     (if \<not> existsSync w src then (Inr 0, w)
      else copyEntries w src dst (fsTree (files w) src))"

subsection \<open>Paths and constants\<close>

definition MIN_PASSPHRASE_LEN :: nat where "MIN_PASSPHRASE_LEN = 12"

text \<open>\<^verbatim>\<open>app.getPath("userData")\<close> and \<^verbatim>\<open>app.getPath("temp")\<close>.\<close>

definition userData :: path where "userData = ''/userData''"
definition tempDir :: path where "tempDir = ''/tmp''"

definition attachmentsRoot :: path where "attachmentsRoot = pathJoin userData ''attachments''"
definition tempRoot :: path where "tempRoot = pathJoin tempDir ''edisconotes-decrypted''"
definition backupMetaPath :: path where "backupMetaPath = pathJoin userData ''backup-meta.json''"
definition snapshotsRoot :: path where "snapshotsRoot = pathJoin userData ''snapshots''"
definition dbPlainPath :: path where "dbPlainPath = pathJoin userData ''edisconotes.sqlite''"
definition dbEncPath :: path where "dbEncPath = pathJoin userData ''edisconotes.sqlite.enc''"

record candidate =
  dbPath :: path
  isBackup :: bool

text \<open>
  The only root \<^verbatim>\<open>listUserDataRootsForUnlock\<close> returns is the current one, so every
  candidate has the source "current", and the branch of \<^verbatim>\<open>unlockVault\<close> for a legacy
  source is never taken.
\<close>

definition listEncryptedDbCandidates :: "world \<Rightarrow> candidate list" where
  "listEncryptedDbCandidates w =
     (let encryptedPath = pathJoin userData ''edisconotes.sqlite.enc'';
          backupPath = encryptedPath @ ''.bak''
      in (if existsSync w encryptedPath then [\<lparr>dbPath = encryptedPath, isBackup = False\<rparr>] else [])
       @ (if existsSync w backupPath then [\<lparr>dbPath = backupPath, isBackup = True\<rparr>] else []))"

text \<open>
  The message of the decipher's error is the only one of the model's errors that
  matches \<^verbatim>\<open>/unable to authenticate data/i\<close>.
\<close>

definition isDecryptAuthError :: "vault_error option \<Rightarrow> bool" where
  "isDecryptAuthError e = (e = Some AuthFailed)"

definition describeUnlockSource :: "candidate option \<Rightarrow> string" where
  "describeUnlockSource source =
     (case source of
        None \<Rightarrow> ''new''
      | Some c \<Rightarrow> if isBackup c then ''current:backup'' else ''current'')"

definition isContainedPath :: "path \<Rightarrow> path \<Rightarrow> bool" where
  "isContainedPath candidatePath basePath =
     (candidatePath = basePath \<or> startsWith candidatePath (basePath @ ''/''))"

text \<open>\<^verbatim>\<open>UUID_V4_REGEX\<close>, character by character.\<close>

definition isHex :: "char \<Rightarrow> bool" where
  "isHex c = (c \<in> set ''0123456789abcdefABCDEF'')"

definition isValidProjectId :: "string \<Rightarrow> bool" where
  "isValidProjectId s =
     (length s = 36 \<and>
      list_all (\<lambda>i. if i \<in> set [8, 13, 18, 23] then s ! i = CHR ''-''
                     else if i = 14 then s ! i = CHR ''4''
                     else if i = 19 then s ! i \<in> set ''89abAB''
                     else isHex (s ! i)) [0 ..< 36])"

definition assertUuid :: "string \<Rightarrow> vault_error + string" where
  "assertUuid v = (if isValidProjectId v then Inr v else Inl InvalidId)"

definition getSafeProjectAttachmentDir :: "string \<Rightarrow> path option" where
  "getSafeProjectAttachmentDir projectId =
     (if \<not> isValidProjectId projectId then None
      else let baseDir = attachmentsRoot; targetDir = pathJoin baseDir projectId
           in if targetDir \<noteq> baseDir \<and> startsWith targetDir (baseDir @ ''/'')
              then Some targetDir else None)"

subsection \<open>Attachment envelopes written by the store\<close>

text \<open>
  \<^verbatim>\<open>encryptAttachmentFile\<close> streams the source through the cipher into a temporary
  file, header first and tag last, and renames it into place. The chunks the cipher
  emits, concatenated, are the ciphertext of the whole file.
\<close>

definition encryptAttachmentFile ::
  "platform \<Rightarrow> path \<Rightarrow> path \<Rightarrow> bytes \<Rightarrow> world \<Rightarrow> (vault_error + unit) \<times> world" where
  "encryptAttachmentFile L sourcePath destPath fk w =
     (let iv = randomBytes L (draws w) IV_LEN;
          w0 = w\<lparr>draws := draws w + 1\<rparr>;
          header = FILE_MAGIC @ [of_nat FILE_VERSION] @ iv;
          aad = FILE_MAGIC @ [of_nat FILE_VERSION];
          tmpPath = destPath @ ''.tmp''
      in case writeFileSync w0 tmpPath header of
           Inl e \<Rightarrow> (Inl e, w0)
         | Inr w1 \<Rightarrow>
             (case readFileSync w1 sourcePath of
                Inl e \<Rightarrow> (Inl e, w1)
              | Inr plaintext \<Rightarrow>
                  (let (ciphertext, tag) = gcmEncrypt L fk iv aad plaintext in
                   case writeFileSync w1 tmpPath (header @ ciphertext @ tag) of
                     Inl e \<Rightarrow> (Inl e, w1)
                   | Inr w2 \<Rightarrow>
                       (case renameSync w2 tmpPath destPath of
                          Inl e \<Rightarrow> (Inl e, w2)
                        | Inr w3 \<Rightarrow> (Inr (), w3)))))"

subsection \<open>Persisting the database\<close>

text \<open>
  \<^verbatim>\<open>ENCRYPTION_ENABLED\<close> is the constant \<^verbatim>\<open>true\<close>; the branches for the other value
  are left out. The steps of \<^verbatim>\<open>persistDbInternal\<close> after the envelope is sealed, each
  of which changes the file system at most once:
\<close>

definition bakPath :: path where "bakPath = dbEncPath @ ''.bak''"
definition tmpEncPath :: path where "tmpEncPath = dbEncPath @ ''.tmp''"

text \<open>
  \<^verbatim>\<open>if (fs.existsSync(targetPath)) { try { rename(targetPath, backupPath) }
  catch { try { unlink(targetPath) } catch { } } }\<close>
\<close>

definition moveAside :: "world \<Rightarrow> world" where
  "moveAside w =
     (if existsSync w dbEncPath
      then (case renameSync w dbEncPath bakPath of
              Inr w' \<Rightarrow> w'
            | Inl _ \<Rightarrow> (case unlinkSync w dbEncPath of Inr w' \<Rightarrow> w' | Inl _ \<Rightarrow> w))
      else w)"

definition persistDbInternal :: "platform \<Rightarrow> world \<Rightarrow> (vault_error + unit) \<times> world" where
  "persistDbInternal L w =
     (case db w of
        None \<Rightarrow> (Inr (), w)
      | Some d \<Rightarrow>
          if locked w \<or> vault w = None then (Inr (), w)
          else
            let plaintext = sqlExport L d in
            case sealDatabaseBytes L plaintext (vault w) (randomBytes L (draws w) IV_LEN) of
              Inl e \<Rightarrow> (Inl e, w)
            | Inr envelope \<Rightarrow>
                (let w0 = w\<lparr>draws := draws w + 1\<rparr> in
                 case writeFileSync w0 tmpEncPath envelope of
                   Inl e \<Rightarrow> (Inl e, w0)
                 | Inr w1 \<Rightarrow>
                     (let w2 = tryUnlink w1 bakPath;
                          w3 = moveAside w2
                      in case renameSync w3 tmpEncPath dbEncPath of
                           Inl e \<Rightarrow> (Inl e, w3)
                         | Inr w4 \<Rightarrow> (Inr (), tryUnlink w4 bakPath))))"

text \<open>
  The states of the file system in which the process can halt during a persist that
  got as far as sealing: before the first step and after each of the five.
\<close>

definition persistCrashStates :: "platform \<Rightarrow> world \<Rightarrow> world list" where
  "persistCrashStates L w =
     (case db w of
        None \<Rightarrow> [w]
      | Some d \<Rightarrow>
          if locked w \<or> vault w = None then [w]
          else
            case sealDatabaseBytes L (sqlExport L d) (vault w) (randomBytes L (draws w) IV_LEN) of
              Inl e \<Rightarrow> [w]
            | Inr envelope \<Rightarrow>
                (let w0 = w\<lparr>draws := draws w + 1\<rparr> in
                 case writeFileSync w0 tmpEncPath envelope of
                   Inl e \<Rightarrow> [w0]
                 | Inr w1 \<Rightarrow>
                     (let w2 = tryUnlink w1 bakPath;
                          w3 = moveAside w2
                      in case renameSync w3 tmpEncPath dbEncPath of
                           Inl e \<Rightarrow> [w0, w1, w2, w3]
                         | Inr w4 \<Rightarrow> [w0, w1, w2, w3, w4, tryUnlink w4 bakPath])))"

definition persistDb :: "platform \<Rightarrow> world \<Rightarrow> world" where
  "persistDb L w = snd (persistDbInternal L w)"

definition persistDbOrThrow :: "platform \<Rightarrow> world \<Rightarrow> (vault_error + unit) \<times> world" where
  "persistDbOrThrow L w = persistDbInternal L w"

definition initDatabase ::
  "platform \<Rightarrow> bytes option \<Rightarrow> world \<Rightarrow> (vault_error + unit) \<times> world" where
  "initDatabase L initialDbBytes w =
     (case sqlOpen L initialDbBytes of
        None \<Rightarrow> (Inl DbLoadFailed, w)
      | Some d \<Rightarrow> (Inr (), w\<lparr>db := Some d\<rparr>))"

definition assertUnlocked :: "world \<Rightarrow> vault_error + unit" where
  "assertUnlocked w =
     (if locked w \<or> vault w = None \<or> db w = None then Inl VaultLocked else Inr ())"

text \<open>
  \<^verbatim>\<open>recordAudit\<close>; \<open>details\<close> is the stringified details object. The insert throws
  when the primary key is taken.
\<close>

definition recordAudit ::
  "platform \<Rightarrow> string \<Rightarrow> string \<Rightarrow> string option \<Rightarrow> string option \<Rightarrow> string option \<Rightarrow> bool
     \<Rightarrow> world \<Rightarrow> (vault_error + string option) \<times> world" where
  "recordAudit L action entityType entityId projectId details persist w =
     (case db w of
        None \<Rightarrow> (Inr None, w)
      | Some d \<Rightarrow>
          if locked w then (Inr None, w)
          else
            let id = randomUUID L (draws w);
                ts = nowIso L (draws w + 1);
                w1 = w\<lparr>draws := draws w + 2\<rparr>
            in if id \<in> set (map auditId (audit_log d)) then (Inl SqlError, w1)
               else
                 let row = \<lparr>auditId = id, auditTimestamp = ts, auditAction = action,
                            auditEntityType = entityType, auditEntityId = entityId,
                            auditProjectId = projectId, detailsJson = details\<rparr>;
                     w2 = w1\<lparr>db := Some (d\<lparr>audit_log := audit_log d @ [row]\<rparr>)\<rparr>
                 in (Inr (Some id), if persist then persistDb L w2 else w2))"


subsection \<open>Unlocking and locking\<close>

text \<open>
  The loop of \<^verbatim>\<open>unlockVault\<close> over the candidates: the first envelope that opens is
  taken; when none opens, the error of the last attempt is what is left.
\<close>

fun openCandidates ::
  "platform \<Rightarrow> world \<Rightarrow> jsval \<Rightarrow> candidate list \<Rightarrow> vault_error option
     \<Rightarrow> vault_error option + ((bytes \<times> vault) \<times> candidate)" where
  "openCandidates L w passphrase [] lastError = Inl lastError"
| "openCandidates L w passphrase (c # cs) lastError =
     (case readFileSync w (dbPath c) of
        Inl e \<Rightarrow> openCandidates L w passphrase cs (Some e)
      | Inr envelope \<Rightarrow>
          (case openVaultFromDatabaseEnvelope L envelope passphrase of
             Inl e \<Rightarrow> openCandidates L w passphrase cs (Some e)
           | Inr opened \<Rightarrow> Inr (opened, c)))"

text \<open>
  The part of \<^verbatim>\<open>unlockVault\<close> that chooses the payload: an existing envelope, opened,
  or else fresh key material and the legacy plaintext database, if there is one. It
  returns the payload, \<^verbatim>\<open>migratedDb\<close> and \<^verbatim>\<open>unlockSource\<close>, and sets
  \<^verbatim>\<open>vaultState.vault\<close>.
\<close>

definition unlockSelectSource ::
  "platform \<Rightarrow> jsval \<Rightarrow> world
     \<Rightarrow> (vault_error + (bytes option \<times> bool \<times> candidate option)) \<times> world" where
  "unlockSelectSource L passphrase w =
     (let encryptedCandidates = listEncryptedDbCandidates w in
      if encryptedCandidates \<noteq> [] then
        (case openCandidates L w passphrase encryptedCandidates None of
           Inl lastError \<Rightarrow>
             if isDecryptAuthError lastError then (Inl UnlockFailed, w)
             else (case lastError of
                     Some e \<Rightarrow> (Inl e, w)
                   | None \<Rightarrow> (Inl UnlockFailedNoCause, w))
         | Inr ((plaintext, v), c) \<Rightarrow>
             (Inr (Some plaintext, False, Some c), w\<lparr>vault := Some v\<rparr>))
      else
        let salt = randomBytes L (draws w) 16;
            w0 = w\<lparr>draws := draws w + 1\<rparr>
        in case deriveKeysFromPassphrase L passphrase salt DEFAULT_SCRYPT_PARAMS of
             Inl e \<Rightarrow> (Inl e, w0)
           | Inr v \<Rightarrow>
               (let w1 = w0\<lparr>vault := Some v\<rparr> in
                if existsSync w1 dbPlainPath then
                  (case readFileSync w1 dbPlainPath of
                     Inl e \<Rightarrow> (Inl e, w1)
                   | Inr bs \<Rightarrow> (Inr (Some bs, True, None), w1))
                else (Inr (None, False, None), w1)))"

text \<open>The write-verify step: the envelope just written is read back and opened.\<close>

definition verifyWritten :: "platform \<Rightarrow> jsval \<Rightarrow> world \<Rightarrow> bool" where
  "verifyWritten L passphrase w =
     (case readFileSync w dbEncPath of
        Inl e \<Rightarrow> False
      | Inr written \<Rightarrow>
          (case openVaultFromDatabaseEnvelope L written passphrase of
             Inl e \<Rightarrow> False
           | Inr r \<Rightarrow> True))"

definition deletePlaintextDbAfterVerifiedMigration :: "world \<Rightarrow> bool \<times> world" where
  "deletePlaintextDbAfterVerifiedMigration w =
     (if \<not> existsSync w dbPlainPath then (False, w)
      else case unlinkSync w dbPlainPath of
             Inl e \<Rightarrow> (False, w)
           | Inr w' \<Rightarrow> (True, w'))"

definition updateStored :: "string \<Rightarrow> string \<Rightarrow> string \<Rightarrow> database \<Rightarrow> database" where
  "updateStored aid fileName rel d =
     d\<lparr>attachments_table :=
          map (\<lambda>a. if attId a = aid
                    then a\<lparr>storedFileName := fileName, storedRelativePath := rel\<rparr> else a)
            (attachments_table d)\<rparr>"

definition runUpdateStored :: "string \<Rightarrow> string \<Rightarrow> string \<Rightarrow> world \<Rightarrow> world" where
  "runUpdateStored aid fileName rel w =
     w\<lparr>db := map_option (updateStored aid fileName rel) (db w)\<rparr>"

text \<open>One round of the loop of \<^verbatim>\<open>migrateAttachmentsToEncryptedIfNeeded\<close>.\<close>

definition migrateOne :: "platform \<Rightarrow> attachmentRow \<Rightarrow> world \<Rightarrow> bool \<times> world" where
  "migrateOne L attachment w =
     (let baseDir = attachmentsRoot;
          rel = storedRelativePath attachment in
      if rel = [] \<or> endsWith rel ''.enc'' then (False, w)
      else
        let fullPath = pathJoin baseDir rel in
        if \<not> isContainedPath fullPath baseDir \<or> \<not> existsSync w fullPath then (False, w)
        else
          let oldStoredFileName = storedFileName attachment;
              oldRel = rel;
              ext = (if extname (originalFileName attachment) \<noteq> []
                     then extname (originalFileName attachment) else extname rel);
              newStoredFileName = randomUUID L (draws w) @ ext @ ''.enc'';
              w0 = w\<lparr>draws := draws w + 1\<rparr>;
              newRel = pathJoin (attProjectId attachment) newStoredFileName;
              targetPath = pathJoin baseDir newRel
          in case getSafeProjectAttachmentDir (attProjectId attachment) of
               None \<Rightarrow> (False, w0)
             | Some attachmentsDir \<Rightarrow>
                 if \<not> isContainedPath targetPath attachmentsDir then (False, w0)
                 else
                   case vault w0 of
                     None \<Rightarrow> (False, w0)
                   | Some v \<Rightarrow>
                       (case encryptAttachmentFile L fullPath targetPath (fileKey v) w0 of
                          (Inl e, w1) \<Rightarrow> (False, w1)
                        | (Inr u, w1) \<Rightarrow>
                            (let w2 = runUpdateStored (attId attachment) newStoredFileName
                                        newRel w1
                             in case persistDbOrThrow L w2 of
                                  (Inr u, w3) \<Rightarrow>
                                    (case unlinkSync w3 fullPath of
                                       Inr w4 \<Rightarrow> (True, w4)
                                     | Inl e \<Rightarrow>
                                         (False,
                                          tryUnlink
                                            (persistDb L
                                               (runUpdateStored (attId attachment)
                                                  oldStoredFileName oldRel w3))
                                            targetPath))
                                | (Inl e, w3) \<Rightarrow>
                                    (False,
                                     tryUnlink
                                       (persistDb L
                                          (runUpdateStored (attId attachment)
                                             oldStoredFileName oldRel w3))
                                       targetPath))))"

fun migrateRows :: "platform \<Rightarrow> attachmentRow list \<Rightarrow> nat \<Rightarrow> world \<Rightarrow> nat \<times> world" where
  "migrateRows L [] migrated w = (migrated, w)"
| "migrateRows L (a # rows) migrated w =
     (case migrateOne L a w of
        (True, w') \<Rightarrow> migrateRows L rows (migrated + 1) w'
      | (False, w') \<Rightarrow> migrateRows L rows migrated w')"

definition migrateAttachmentsToEncryptedIfNeeded ::
  "platform \<Rightarrow> world \<Rightarrow> (vault_error + nat) \<times> world" where
  "migrateAttachmentsToEncryptedIfNeeded L w =
     (case assertUnlocked w of
        Inl e \<Rightarrow> (Inl e, w)
      | Inr u \<Rightarrow>
          if \<not> existsSync w attachmentsRoot then (Inr 0, w)
          else case db w of
                 None \<Rightarrow> (Inl VaultLocked, w)
               | Some d \<Rightarrow>
                   (case migrateRows L (attachments_table d) 0 w of
                      (n, w') \<Rightarrow> (Inr n, w')))"

record unlockResult =
  unlockOk :: bool
  migratedDb :: bool
  migratedAttachments :: nat
  unlockSource :: string

definition unlockVault ::
  "platform \<Rightarrow> jsval \<Rightarrow> world \<Rightarrow> (vault_error + unlockResult) \<times> world" where
  "unlockVault L passphrase w =
     (if (case passphrase of JsOther \<Rightarrow> True | JsString s \<Rightarrow> length s < MIN_PASSPHRASE_LEN)
      then (Inl PassphraseTooShort, w)
      else
        case unlockSelectSource L passphrase w of
          (Inl e, w1) \<Rightarrow> (Inl e, w1)
        | (Inr (dbBytes, migrated, source), w1) \<Rightarrow>
            (case initDatabase L dbBytes w1 of
               (Inl e, w2) \<Rightarrow> (Inl e, w2)
             | (Inr u, w2) \<Rightarrow>
                 (case persistDbOrThrow L (w2\<lparr>locked := False\<rparr>) of
                    (Inl e, w3) \<Rightarrow> (Inl e, w3)
                  | (Inr u, w3) \<Rightarrow>
                      if \<not> verifyWritten L passphrase w3 then (Inl WriteVerifyFailed, w3)
                      else
                        let w4 = (if migrated
                                  then snd (deletePlaintextDbAfterVerifiedMigration w3)
                                  else w3)
                        in case migrateAttachmentsToEncryptedIfNeeded L w4 of
                             (Inl e, w5) \<Rightarrow> (Inl e, w5)
                           | (Inr n, w5) \<Rightarrow>
                               (case recordAudit L ''vault.unlock'' ''vault'' None None
                                       (Some (describeUnlockSource source)) True w5 of
                                  (Inl e, w6) \<Rightarrow> (Inl e, w6)
                                | (Inr i, w6) \<Rightarrow>
                                    (Inr \<lparr>unlockOk = True, migratedDb = migrated,
                                          migratedAttachments = n,
                                          unlockSource = describeUnlockSource source\<rparr>,
                                     w6)))))"

text \<open>\<^verbatim>\<open>tryCleanupTempFiles\<close>: the tracked files, then what lies directly in the
  temporary directory.\<close>

definition tryCleanupTempFiles :: "world \<Rightarrow> world" where
  "tryCleanupTempFiles w =
     (let w1 = (fold (\<lambda>p s. tryUnlink s p) (tempOpenFiles w) w)\<lparr>tempOpenFiles := []\<rparr>;
          direct = filter (\<lambda>p. CHR ''/'' \<notin> set (drop (length tempRoot + 1) p))
                     (map fst (fsTree (files w1) tempRoot))
      in fold (\<lambda>p s. case unlinkSync s p of Inl e \<Rightarrow> s | Inr s' \<Rightarrow> s') direct w1)"

definition lockVault :: "platform \<Rightarrow> world \<Rightarrow> (vault_error + bool) \<times> world" where
  "lockVault L w =
     (case (if db w \<noteq> None \<and> \<not> locked w
            then (case recordAudit L ''vault.lock'' ''vault'' None None None False w of
                    (Inl e, w1) \<Rightarrow> (Inl e, w1)
                  | (Inr i, w1) \<Rightarrow> (Inr (), persistDb L w1))
            else (Inr (), w)) of
        (Inl e, w1) \<Rightarrow> (Inl e, w1)
      | (Inr u, w1) \<Rightarrow>
          (Inr True, tryCleanupTempFiles (w1\<lparr>db := None, vault := None, locked := True\<rparr>)))"

subsection \<open>Snapshots and restore\<close>

record dbFileStatus =
  statusEncrypted :: bool
  statusDbPath :: "path option"

definition getDatabaseFileStatus :: "world \<Rightarrow> dbFileStatus" where
  "getDatabaseFileStatus w =
     (case listEncryptedDbCandidates w of
        c # cs \<Rightarrow> \<lparr>statusEncrypted = True, statusDbPath = Some (dbPath c)\<rparr>
      | [] \<Rightarrow>
          if existsSync w dbPlainPath
          then \<lparr>statusEncrypted = False, statusDbPath = Some dbPlainPath\<rparr>
          else \<lparr>statusEncrypted = False, statusDbPath = None\<rparr>)"

text \<open>\<^verbatim>\<open>toISOString().replace(/[:.]/g, "-")\<close>\<close>

definition stampOf :: "string \<Rightarrow> string" where
  "stampOf ts = map (\<lambda>c. if c = CHR '':'' \<or> c = CHR ''.'' then CHR ''-'' else c) ts"

definition createLocalSnapshot ::
  "platform \<Rightarrow> string \<Rightarrow> world \<Rightarrow> (vault_error + manifest) \<times> world" where
  "createLocalSnapshot L why w =
     (case (if db w \<noteq> None \<and> \<not> locked w then persistDbOrThrow L w else (Inr (), w)) of
        (Inl e, w1) \<Rightarrow> (Inl e, w1)
      | (Inr u, w1) \<Rightarrow>
          (let dbStatus = getDatabaseFileStatus w1 in
           case statusDbPath dbStatus of
             None \<Rightarrow> (Inl NoDatabaseFile, w1)
           | Some dbp \<Rightarrow>
               if \<not> existsSync w1 dbp then (Inl NoDatabaseFile, w1)
               else
                 let sid = stampOf (nowIso L (draws w1)) @ ''-''
                             @ take 8 (randomUUID L (draws w1 + 1));
                     w2 = w1\<lparr>draws := draws w1 + 2\<rparr>;
                     snapshotDir = pathJoin snapshotsRoot sid;
                     fileName = basename dbp
                 in case copyFileSync w2 dbp (pathJoin snapshotDir fileName) of
                      Inl e \<Rightarrow> (Inl e, w2)
                    | Inr w3 \<Rightarrow>
                        (case copyDirRecursive w3 attachmentsRoot
                                (pathJoin snapshotDir ''attachments'') of
                           (Inl e, w4) \<Rightarrow> (Inl e, w4)
                         | (Inr n, w4) \<Rightarrow>
                             (let m = \<lparr>snapshotId = sid, createdAt = nowIso L (draws w4),
                                       reason = (if why = [] then ''manual'' else why),
                                       dbFileName = fileName,
                                       encryptedDatabase = statusEncrypted dbStatus,
                                       attachmentFiles = n\<rparr>;
                                  w5 = w4\<lparr>draws := draws w4 + 1\<rparr>
                              in case writeFileSync w5 (pathJoin snapshotDir ''manifest.json'')
                                        (jsonManifest L m) of
                                   Inl e \<Rightarrow> (Inl e, w5)
                                 | Inr w6 \<Rightarrow> (Inr m, w6)))))"

record backupSource =
  dbSourcePath :: path
  restoreToEncrypted :: bool

definition resolveBackupDatabaseSource :: "world \<Rightarrow> path \<Rightarrow> backupSource option" where
  "resolveBackupDatabaseSource w backupDir =
     (let encryptedCandidate = pathJoin backupDir ''edisconotes.sqlite.enc'';
          plaintextCandidate = pathJoin backupDir ''edisconotes.sqlite''
      in if existsSync w encryptedCandidate
         then Some \<lparr>dbSourcePath = encryptedCandidate,
                    restoreToEncrypted = (basename encryptedCandidate = ''edisconotes.sqlite.enc'')\<rparr>
         else if existsSync w plaintextCandidate
         then Some \<lparr>dbSourcePath = plaintextCandidate,
                    restoreToEncrypted = (basename plaintextCandidate = ''edisconotes.sqlite.enc'')\<rparr>
         else None)"

record restoreResult =
  ok :: bool
  restoredAttachments :: nat
  preRestoreSnapshotId :: "string option"

text \<open>\<^verbatim>\<open>fs.rmSync(dir, { recursive: true, force: true })\<close>\<close>

definition rmSyncRecursive :: "world \<Rightarrow> path \<Rightarrow> vault_error + world" where
  "rmSyncRecursive w dir =
     (if list_ex (\<lambda>e. denied w (fst e)) (fsTree (files w) dir) then Inl IOFailure
      else Inr (w\<lparr>files := fsRemoveTree (files w) dir\<rparr>))"

definition restoreFromBackupFolder ::
  "platform \<Rightarrow> path \<Rightarrow> string \<Rightarrow> world \<Rightarrow> (vault_error + restoreResult) \<times> world" where
  "restoreFromBackupFolder L backupDir why w =
     (case resolveBackupDatabaseSource w backupDir of
        None \<Rightarrow> (Inr \<lparr>ok = False, restoredAttachments = 0, preRestoreSnapshotId = None\<rparr>, w)
      | Some source \<Rightarrow>
          (let (snap, w1) = createLocalSnapshot L (''pre-restore:'' @ why) w;
               preId = (case snap of Inl e \<Rightarrow> None | Inr m \<Rightarrow> Some (snapshotId m));
               w2 = snd (lockVault L w1);
               w3 = tryUnlink w2 dbEncPath;
               w4 = tryUnlink w3 dbPlainPath;
               dbTargetPath = (if restoreToEncrypted source then dbEncPath else dbPlainPath)
           in case copyFileSync w4 (dbSourcePath source) dbTargetPath of
                Inl e \<Rightarrow> (Inl e, w4)
              | Inr w5 \<Rightarrow>
                  (case (if existsSync w5 attachmentsRoot
                         then rmSyncRecursive w5 attachmentsRoot else Inr w5) of
                     Inl e \<Rightarrow> (Inl e, w5)
                   | Inr w6 \<Rightarrow>
                       (case copyDirRecursive w6 (pathJoin backupDir ''attachments'')
                               attachmentsRoot of
                          (Inl e, w7) \<Rightarrow> (Inl e, w7)
                        | (Inr n, w7) \<Rightarrow>
                            (let existingMeta = (case readFileSync w7 backupMetaPath of
                                                   Inl e \<Rightarrow> None | Inr bs \<Rightarrow> Some bs);
                                 w8 = w7\<lparr>draws := draws w7 + 1\<rparr>
                             in case writeFileSync w8 backupMetaPath
                                       (jsonBackupMeta L existingMeta (nowIso L (draws w7))
                                          backupDir) of
                                  Inl e \<Rightarrow> (Inl e, w8)
                                | Inr w9 \<Rightarrow>
                                    (Inr \<lparr>ok = True, restoredAttachments = n,
                                          preRestoreSnapshotId = preId\<rparr>, w9))))))"


subsection \<open>Two collaborator-facing handlers\<close>










text \<open>
  One round of the loop of the \<^verbatim>\<open>attachments:add\<close> handler; \<open>None\<close> is an element
  of \<^verbatim>\<open>filePaths\<close> that is not a string. The result is what the round pushes on
  \<^verbatim>\<open>inserted\<close>.
\<close>

definition addOne ::
  "platform \<Rightarrow> string \<Rightarrow> path \<Rightarrow> string option \<Rightarrow> world
     \<Rightarrow> attachmentRow option list \<times> world" where
  "addOne L safeProjectId attachmentsDir sp w =
     (case sp of
        None \<Rightarrow> ([], w)
      | Some sourcePath \<Rightarrow>
          if sourcePath = [] then ([], w)
          else if \<not> existsSync w sourcePath then ([], w)
          else
            case map_of (files w) sourcePath of
              None \<Rightarrow> ([], w)
            | Some content \<Rightarrow>
                if length content > 1024 * 1024 * 1024 then ([], w)
                else
                  let origName = basename sourcePath;
                      ext = extname origName;
                      storedName = randomUUID L (draws w) @ ext @ ''.enc'';
                      w0 = w\<lparr>draws := draws w + 1\<rparr>;
                      storedRel = pathJoin safeProjectId storedName;
                      destPath = pathJoin attachmentsDir storedName
                  in if \<not> isContainedPath destPath attachmentsDir then ([], w0)
                     else
                       case vault w0 of
                         None \<Rightarrow> ([], w0)
                       | Some v \<Rightarrow>
                           (case encryptAttachmentFile L sourcePath destPath (fileKey v) w0 of
                              (Inl e, w1) \<Rightarrow> ([], w1)
                            | (Inr u, w1) \<Rightarrow>
                                (case db w1 of
                                   None \<Rightarrow> ([], w1)
                                 | Some d \<Rightarrow>
                                     (let id = randomUUID L (draws w1);
                                          added = nowIso L (draws w1 + 1);
                                          w2 = w1\<lparr>draws := draws w1 + 2\<rparr>
                                      in if id \<in> set (map attId (attachments_table d))
                                         then ([], w2)
                                         else
                                           let row = \<lparr>attId = id, attProjectId = safeProjectId,
                                                      originalFileName = origName,
                                                      storedFileName = storedName,
                                                      storedRelativePath = storedRel,
                                                      sizeBytes = length content,
                                                      addedAt = added\<rparr>;
                                               w3 = w2\<lparr>db := Some (d\<lparr>attachments_table :=
                                                            attachments_table d @ [row]\<rparr>)\<rparr>
                                           in case recordAudit L ''attachment.add'' ''attachment''
                                                     (Some id) (Some safeProjectId)
                                                     (Some origName) False w3 of
                                                (Inl e, w4) \<Rightarrow> ([], w4)
                                              | (Inr i, w4) \<Rightarrow>
                                                  ([case db w4 of
                                                      None \<Rightarrow> None
                                                    | Some d4 \<Rightarrow>
                                                        find (\<lambda>r. attId r = id)
                                                          (attachments_table d4)],
                                                   w4)))))"

fun addLoop ::
  "platform \<Rightarrow> string \<Rightarrow> path \<Rightarrow> string option list \<Rightarrow> world
     \<Rightarrow> attachmentRow option list \<times> world" where
  "addLoop L safeProjectId attachmentsDir [] w = ([], w)"
| "addLoop L safeProjectId attachmentsDir (sp # sps) w =
     (case addOne L safeProjectId attachmentsDir sp w of
        (pushed, w1) \<Rightarrow>
          (case addLoop L safeProjectId attachmentsDir sps w1 of
             (inserted, w2) \<Rightarrow> (pushed @ inserted, w2)))"

text \<open>
  The handler of \<^verbatim>\<open>attachments:add\<close>; \<open>filePaths\<close> is \<open>None\<close> when the argument is
  not an array.
\<close>

definition attachmentsAdd ::
  "platform \<Rightarrow> string \<Rightarrow> string option list option \<Rightarrow> world
     \<Rightarrow> (vault_error + attachmentRow option list) \<times> world" where
  "attachmentsAdd L projectId filePaths w =
     (case assertUnlocked w of
        Inl e \<Rightarrow> (Inl e, w)
      | Inr u \<Rightarrow>
          (case assertUuid projectId of
             Inl e \<Rightarrow> (Inl e, w)
           | Inr safeProjectId \<Rightarrow>
               (case (getSafeProjectAttachmentDir safeProjectId, filePaths) of
                  (Some attachmentsDir, Some ps) \<Rightarrow>
                    if ps = [] \<or> length ps > 100 then (Inr [], w)
                    else
                      (case addLoop L safeProjectId attachmentsDir ps w of
                         (inserted, w1) \<Rightarrow> (Inr inserted, persistDb L w1))
                | _ \<Rightarrow> (Inr [], w))))"


subsection \<open>Example states\<close>

text \<open>A vault that has just been unlocked for the first time, nothing on disk yet.\<close>

definition unlockedWorld :: world where
  "unlockedWorld = \<lparr>files = [], denied = (\<lambda>p. False), db = Some emptyDatabase,
     locked = False, vault = Some exampleVault, tempOpenFiles = [], draws = 0\<rparr>"

definition exampleProjectId :: string where
  "exampleProjectId = ''00000000-0000-4000-8000-000000000000''"


text \<open>A file one byte over the limit of the attachment handler.\<close>

definition bigFile :: bytes where
  "bigFile = replicate (1024 * 1024 * 1024 + 1) 0"

text \<open>
  What claim C10 calls a source that is skipped, for the comparison with the handler: an
  element that is not a string or is empty, or a path that is no regular file (missing,
  or a directory) or holds more than 1 GiB.
\<close>

definition skippedSource :: "world \<Rightarrow> string option \<Rightarrow> bool" where
  "skippedSource w sp =
     (case sp of
        None \<Rightarrow> True
      | Some p \<Rightarrow>
          p = [] \<or>
          (case map_of (files w) p of
             None \<Rightarrow> True
           | Some content \<Rightarrow> 1024 * 1024 * 1024 < length content))"

text \<open>An unlocked vault and some candidate sources for the attachment handler.\<close>

definition sourceWorld :: world where
  "sourceWorld = unlockedWorld\<lparr>files :=
     [(''/src/dir/x'', [1]), (''/src/big'', bigFile), (''/src/a.txt'', [5, 6])]\<rparr>"

definition samplePaths :: "string option list" where
  "samplePaths = [None, Some [], Some ''/src/missing'', Some ''/src/dir'', Some ''/src/big'',
                  Some ''/src/a.txt'']"


text \<open>
  Three states of an unlocked vault around a persist: the envelope in its place; the
  envelope at the backup path only, as a halt between the move aside and the final
  rename leaves it; and the envelope in its place with the backup path unwritable.
\<close>

definition encWorld :: world where
  "encWorld = unlockedWorld\<lparr>files := [(dbEncPath, exampleEnvelope refPlatform)]\<rparr>"

definition bakOnlyWorld :: world where
  "bakOnlyWorld = unlockedWorld\<lparr>files := [(bakPath, exampleEnvelope refPlatform)]\<rparr>"

definition moveAsideDeniedWorld :: world where
  "moveAsideDeniedWorld = encWorld\<lparr>denied := (\<lambda>p. p = bakPath)\<rparr>"




text \<open>
  A passphrase one character off, the key material it derives, and the vault whose
  envelope has one ciphertext byte overwritten.
\<close>

definition wrongPassphrase :: jsstring where
  "wrongPassphrase = jsstr ''correct-horse-battery-staple13''"

definition wrongVault :: vault where
  "wrongVault = \<lparr>masterKey = replicate 32 19, dbKey = replicate 32 0,
     fileKey = replicate 32 77, kdfSalt = exampleSalt, kdfParams = DEFAULT_SCRYPT_PARAMS\<rparr>"

definition corruptWorld :: world where
  "corruptWorld = unlockedWorld\<lparr>files := [(dbEncPath, (exampleEnvelope refPlatform)[66 := 0])]\<rparr>"

text \<open>
  A locked installation with an envelope and one attachment, and a backup folder to
  restore from; and the same with the snapshot directory unwritable.
\<close>

definition restoreWorld :: world where
  "restoreWorld = \<lparr>files = [(dbEncPath, exampleEnvelope refPlatform),
       (''/userData/attachments/p/a.txt'', [5]), (''/backup/edisconotes.sqlite.enc'', [9])],
     denied = (\<lambda>p. False), db = None, locked = True, vault = None, tempOpenFiles = [],
     draws = 0\<rparr>"

definition noSnapshotWorld :: world where
  "noSnapshotWorld = restoreWorld\<lparr>denied := isUnder snapshotsRoot\<rparr>"

text \<open>Where \<^verbatim>\<open>createLocalSnapshot\<close> writes the manifest of a snapshot.\<close>

definition manifestPath :: "manifest \<Rightarrow> path" where
  "manifestPath m = pathJoin (pathJoin snapshotsRoot (snapshotId m)) ''manifest.json''"

text \<open>The snapshot taken before the restore of \<open>restoreWorld\<close>, and the state after it.\<close>

definition exampleManifest :: manifest where
  "exampleManifest = \<lparr>snapshotId = ''2026-01-01T00-00-00-00000000'',
     createdAt = ''2026-01-01T00:00:02'', reason = ''pre-restore:backup'',
     dbFileName = ''edisconotes.sqlite.enc'', encryptedDatabase = True,
     attachmentFiles = 1\<rparr>"

definition snapWorld :: world where
  "snapWorld = \<lparr>files =
      [(''/userData/snapshots/2026-01-01T00-00-00-00000000/manifest.json'',
          ascii ''pre-restore:backup''),
       (''/userData/snapshots/2026-01-01T00-00-00-00000000/attachments/p/a.txt'', [5]),
       (''/userData/snapshots/2026-01-01T00-00-00-00000000/edisconotes.sqlite.enc'',
          exampleEnvelope refPlatform),
       (dbEncPath, exampleEnvelope refPlatform),
       (''/userData/attachments/p/a.txt'', [5]), (''/backup/edisconotes.sqlite.enc'', [9])],
     denied = (\<lambda>p. False), db = None, locked = True, vault = None, tempOpenFiles = [],
     draws = 3\<rparr>"


section \<open>Properties of the codec\<close>

lemmas codec_consts = DB_VERSION_def FILE_VERSION_def SALT_LEN_def IV_LEN_def TAG_LEN_def

lemma length_DB_MAGIC: "length DB_MAGIC = 8"
  by (simp add: DB_MAGIC_def ascii_def)

lemma length_FILE_MAGIC: "length FILE_MAGIC = 8"
  by (simp add: FILE_MAGIC_def ascii_def)

lemma length_u32: "length (u32 v) = 4"
  by (simp add: u32_def Let_def)

lemma unat_of_nat_byte: "unat (of_nat x :: byte) = x mod 256"
  by (simp add: unat_of_nat)

lemma unat_byte_less: "unat (b :: byte) < 256"
  using unsigned_less[of b, where 'a = nat] by simp

subsection \<open>Big-endian 32-bit fields\<close>

lemma be32_split:
  fixes w :: nat
  shows "w div 16777216 * 16777216 + w div 65536 mod 256 * 65536
           + w div 256 mod 256 * 256 + w mod 256 = w"
proof -
  define x1 where "x1 = w div 256"
  define x2 where "x2 = x1 div 256"
  define x3 where "x3 = x2 div 256"
  define a where "a = w mod 256"
  define b where "b = x1 mod 256"
  define c where "c = x2 mod 256"
  have e1: "w = x1 * 256 + a" by (simp add: x1_def a_def)
  have e2: "x1 = x2 * 256 + b" by (simp add: x2_def b_def)
  have e3: "x2 = x3 * 256 + c" by (simp add: x3_def c_def)
  have d2: "w div 65536 = x2" by (simp add: x2_def x1_def div_mult2_eq[symmetric])
  have d3: "w div 16777216 = x3" by (simp add: x3_def x2_def x1_def div_mult2_eq[symmetric])
  have "x3 * 16777216 + c * 65536 + b * 256 + a = w"
    using e1 e2 e3 by linarith
  then show ?thesis
    unfolding d2 d3 by (simp add: c_def b_def a_def x1_def)
qed

lemma readU32_u32:
  "readU32 (pre @ u32 v @ rest) (length pre) = Some (v mod 2 ^ 32)"
proof -
  define w where "w = v mod 4294967296"
  have w: "w < 4294967296" by (simp add: w_def)
  then have "w div 16777216 < 256" by simp
  then have a: "w div 16777216 mod 256 = w div 16777216" by simp
  show ?thesis
    using be32_split[of w]
    by (simp add: readU32_def u32_def Let_def nth_append unat_of_nat_byte a flip: w_def)
qed

lemma readU32_at:
  "length pre = k \<Longrightarrow> readU32 (pre @ u32 v @ rest) k = Some (v mod 2 ^ 32)"
  using readU32_u32 by blast

lemma be32_parts:
  fixes a b c d :: nat
  assumes "a < 256" "b < 256" "c < 256" "d < 256"
    and n: "n = a * 16777216 + b * 65536 + c * 256 + d"
  shows "n < 4294967296" "n div 16777216 = a" "n div 65536 mod 256 = b"
    "n div 256 mod 256 = c" "n mod 256 = d"
proof -
  show "n < 4294967296" using assms by linarith
  have x1: "n div 256 = a * 65536 + b * 256 + c" using assms by (simp add: n)
  have x2: "n div 65536 = a * 256 + b"
  proof -
    have "n div 65536 = n div 256 div 256" by (simp add: div_mult2_eq[symmetric])
    then show ?thesis using assms by (simp add: x1)
  qed
  have x3: "n div 16777216 = a"
  proof -
    have "n div 16777216 = n div 65536 div 256" by (simp add: div_mult2_eq[symmetric])
    then show ?thesis using assms by (simp add: x2)
  qed
  show "n div 16777216 = a" by (rule x3)
  show "n div 65536 mod 256 = b" using assms(1-4) by (simp add: x2)
  show "n div 256 mod 256 = c"
  proof -
    have "n div 256 = c + 256 * (a * 256 + b)" by (simp add: x1)
    then show ?thesis using assms(3) by (simp only: mod_mult_self2 mod_less)
  qed
  show "n mod 256 = d"
  proof -
    have "n = d + 256 * (a * 65536 + b * 256 + c)" by (simp add: n)
    then show ?thesis using assms(4) by (simp only: mod_mult_self2 mod_less)
  qed
qed

lemma u32_readU32:
  assumes "readU32 buf k = Some n"
  shows "u32 n = take 4 (drop k buf)"
proof -
  from assms have len: "k + 4 \<le> length buf"
    and n: "n = unat (buf ! k) * 16777216 + unat (buf ! (k + 1)) * 65536
                 + unat (buf ! (k + 2)) * 256 + unat (buf ! (k + 3))"
    by (auto simp: readU32_def split: if_splits)
  note p = be32_parts[OF unat_byte_less unat_byte_less unat_byte_less unat_byte_less n]
  have t: "take 4 (drop k buf) = [buf ! k, buf ! (k + 1), buf ! (k + 2), buf ! (k + 3)]"
    using len by (auto simp: list_eq_iff_nth_eq nth_Cons' numeral_eq_Suc less_Suc_eq)
  show ?thesis
    using p by (simp add: u32_def Let_def t)
qed

subsection \<open>Sealing, then opening\<close>

lemma length_buildDbHeader:
  "length (buildDbHeader params salt iv) = 21 + length salt + length iv"
  by (simp add: buildDbHeader_def length_DB_MAGIC length_u32)

lemma db_aad:
  "length salt = 16 \<Longrightarrow> length iv = 12 \<Longrightarrow>
   subarray (buildDbHeader params salt iv) 0 (length (buildDbHeader params salt iv) - IV_LEN)
     = DB_MAGIC @ [of_nat DB_VERSION] @ u32 (kdfN params) @ u32 (kdfR params)
         @ u32 (kdfP params) @ salt"
  by (simp add: subarray_def buildDbHeader_def length_DB_MAGIC length_u32 codec_consts)

text \<open>The bytes \<^verbatim>\<open>sealDatabaseBytes\<close> returns, field by field.\<close>

lemma sealDatabaseBytes_layout:
  assumes ls: "length (kdfSalt v) = 16" and liv: "length iv = 12"
  shows "sealDatabaseBytes L b (Some v) iv =
     Inr (buildDbHeader (kdfParams v) (kdfSalt v) iv
          @ snd (gcmEncrypt L (dbKey v) iv (take 37 (buildDbHeader (kdfParams v) (kdfSalt v) iv)) b)
          @ fst (gcmEncrypt L (dbKey v) iv (take 37 (buildDbHeader (kdfParams v) (kdfSalt v) iv)) b))"
proof -
  have a: "take 37 (buildDbHeader (kdfParams v) (kdfSalt v) iv)
        = DB_MAGIC @ [of_nat DB_VERSION] @ u32 (kdfN (kdfParams v)) @ u32 (kdfR (kdfParams v))
            @ u32 (kdfP (kdfParams v)) @ kdfSalt v"
    by (simp add: buildDbHeader_def length_DB_MAGIC length_u32 ls)
  show ?thesis
    using db_aad[OF ls, of "alloc IV_LEN" "kdfParams v"]
    by (simp add: sealDatabaseBytes_def Let_def aesGcmEncrypt_def split_beta a alloc_def)
       (simp add: codec_consts)
qed

text \<open>
  What \<^verbatim>\<open>openVaultFromDatabaseEnvelope\<close> does with a buffer that passes its three
  structural checks: the salt and the cost parameters go to the key derivation, and the
  first 37 bytes of the buffer, as they are, go to the decipher as associated data.
\<close>

lemma take37_split:
  assumes "37 \<le> length buf"
  shows "take 37 buf = take 8 buf @ [buf ! 8] @ take 4 (drop 9 buf) @ take 4 (drop 13 buf)
                         @ take 4 (drop 17 buf) @ take 16 (drop 21 buf)"
proof -
  have "take 37 buf = take (8 + (1 + (4 + (4 + (4 + 16))))) buf" by simp
  also have "\<dots> = take 8 buf @ take 1 (drop 8 buf) @ take 4 (drop 9 buf) @ take 4 (drop 13 buf)
                         @ take 4 (drop 17 buf) @ take 16 (drop 21 buf)"
    by (simp only: take_add drop_drop) simp
  also have "take 1 (drop 8 buf) = [buf ! 8]"
    using assms by (simp add: take_Suc_conv_app_nth)
  finally show ?thesis .
qed

lemma openVault_decode:
  assumes len: "65 \<le> length buf" and magic: "take 8 buf = DB_MAGIC" and ver: "buf ! 8 = 1"
  shows "\<exists>n r p. readU32 buf 9 = Some n \<and> readU32 buf 13 = Some r \<and> readU32 buf 17 = Some p \<and>
     openVaultFromDatabaseEnvelope L buf passphrase =
       (case deriveKeysFromPassphrase L passphrase (take 16 (drop 21 buf))
               \<lparr>kdfN = n, kdfR = r, kdfP = p\<rparr> of
          Inl e \<Rightarrow> Inl e
        | Inr v \<Rightarrow>
            (case gcmDecrypt L (dbKey v) (take 12 (drop 37 buf)) (take 37 buf)
                    (take 16 (drop 49 buf)) (drop 65 buf) of
               None \<Rightarrow> Inl AuthFailed
             | Some pt \<Rightarrow> Inr (pt, v)))"
proof -
  obtain n where n: "readU32 buf 9 = Some n" using len by (simp add: readU32_def)
  obtain r where r: "readU32 buf 13 = Some r" using len by (simp add: readU32_def)
  obtain p where p: "readU32 buf 17 = Some p" using len by (simp add: readU32_def)
  define salt where "salt = take 16 (drop 21 buf)"
  have ls: "length salt = 16" using len by (simp add: salt_def)
  have aad: "subarray (buildDbHeader \<lparr>kdfN = n, kdfR = r, kdfP = p\<rparr> salt (alloc 12)) 0 37
               = take 37 buf"
    using take37_split[of buf] len magic ver
      u32_readU32[OF n] u32_readU32[OF r] u32_readU32[OF p]
    by (simp add: subarray_def buildDbHeader_def length_DB_MAGIC length_u32 ls codec_consts
        flip: salt_def)
  have "openVaultFromDatabaseEnvelope L buf passphrase =
       (case deriveKeysFromPassphrase L passphrase salt \<lparr>kdfN = n, kdfR = r, kdfP = p\<rparr> of
          Inl e \<Rightarrow> Inl e
        | Inr v \<Rightarrow>
            (case gcmDecrypt L (dbKey v) (take 12 (drop 37 buf)) (take 37 buf)
                    (take 16 (drop 49 buf)) (drop 65 buf) of
               None \<Rightarrow> Inl AuthFailed
             | Some pt \<Rightarrow> Inr (pt, v)))"
    using len magic ver
    by (simp add: openVaultFromDatabaseEnvelope_def Let_def length_DB_MAGIC codec_consts
        subarray_def n r p aad[unfolded subarray_def, simplified] aesGcmDecrypt_def
        flip: salt_def split: sum.splits option.splits)
  then show ?thesis using n r p by (simp add: salt_def)
qed

lemma open_sealed_database:
  assumes rt: "gcm_roundtrip L" and tl: "gcm_tag_len L"
    and vk: "valid_key_material v"
    and dk: "deriveKeysFromPassphrase L passphrase (kdfSalt v) (kdfParams v) = Inr v"
    and iv: "length iv = IV_LEN"
  shows "\<exists>e. sealDatabaseBytes L b (Some v) iv = Inr e
           \<and> openVaultFromDatabaseEnvelope L e passphrase = Inr (b, v)"
proof -
  define salt where "salt = kdfSalt v"
  define ps where "ps = kdfParams v"
  define aad where "aad = take 37 (buildDbHeader ps salt iv)"
  define ct where "ct = fst (gcmEncrypt L (dbKey v) iv aad b)"
  define tag where "tag = snd (gcmEncrypt L (dbKey v) iv aad b)"
  define e where "e = buildDbHeader ps salt iv @ tag @ ct"
  have ls: "length salt = 16" and n: "kdfN ps < 2 ^ 32" and r: "kdfR ps < 2 ^ 32"
    and p: "kdfP ps < 2 ^ 32"
    using vk by (simp_all add: valid_key_material_def salt_def ps_def codec_consts)
  have liv: "length iv = 12" using iv by (simp add: codec_consts)
  have lt: "length tag = 16" using tl by (simp add: gcm_tag_len_def tag_def codec_consts)
  have dec: "gcmDecrypt L (dbKey v) iv aad tag ct = Some b"
    using rt by (simp add: gcm_roundtrip_def tag_def ct_def)
  have seal: "sealDatabaseBytes L b (Some v) iv = Inr e"
    using sealDatabaseBytes_layout[of v iv L b] ls liv
    by (simp add: e_def tag_def ct_def aad_def salt_def ps_def)
  have e_eq: "e = DB_MAGIC @ [of_nat DB_VERSION] @ u32 (kdfN ps) @ u32 (kdfR ps) @ u32 (kdfP ps)
                    @ salt @ iv @ tag @ ct"
    by (simp add: e_def buildDbHeader_def)
  have len: "65 \<le> length e"
    by (simp add: e_eq length_DB_MAGIC length_u32 ls liv lt)
  have magic: "take 8 e = DB_MAGIC"
    using length_DB_MAGIC by (simp add: e_eq)
  have ver: "e ! 8 = 1"
    by (simp add: e_eq nth_append codec_consts length_DB_MAGIC)
  have rn: "readU32 e 9 = Some (kdfN ps)"
    using readU32_at[of "DB_MAGIC @ [of_nat DB_VERSION]" 9 "kdfN ps"] n
    by (simp add: e_eq length_DB_MAGIC)
  have rr: "readU32 e 13 = Some (kdfR ps)"
    using readU32_at[of "DB_MAGIC @ [of_nat DB_VERSION] @ u32 (kdfN ps)" 13 "kdfR ps"] r
    by (simp add: e_eq length_DB_MAGIC length_u32)
  have rp: "readU32 e 17 = Some (kdfP ps)"
    using readU32_at[of "DB_MAGIC @ [of_nat DB_VERSION] @ u32 (kdfN ps) @ u32 (kdfR ps)" 17
        "kdfP ps"] p
    by (simp add: e_eq length_DB_MAGIC length_u32)
  have s_salt: "take 16 (drop 21 e) = salt"
    by (simp add: e_eq length_DB_MAGIC length_u32 ls)
  have s_iv: "take 12 (drop 37 e) = iv"
    by (simp add: e_eq length_DB_MAGIC length_u32 ls liv)
  have s_tag: "take 16 (drop 49 e) = tag"
    by (simp add: e_eq length_DB_MAGIC length_u32 ls liv lt)
  have s_ct: "drop 65 e = ct"
    by (simp add: e_eq length_DB_MAGIC length_u32 ls liv lt)
  have s_aad: "take 37 e = aad"
    by (simp add: e_def aad_def length_buildDbHeader ls liv)
  have psr: "\<lparr>kdfN = kdfN ps, kdfR = kdfR ps, kdfP = kdfP ps\<rparr> = ps" by simp
  have "openVaultFromDatabaseEnvelope L e passphrase = Inr (b, v)"
    using openVault_decode[OF len magic ver, of L passphrase] dk dec
    by (simp add: rn rr rp s_salt s_iv s_tag s_ct s_aad psr flip: salt_def ps_def)
  with seal show ?thesis by blast
qed

text \<open>The bytes \<^verbatim>\<open>sealFileBytes\<close> returns: header, then tag, then ciphertext.\<close>

lemma sealFileBytes_layout:
  "sealFileBytes L b fk iv =
     FILE_MAGIC @ [of_nat FILE_VERSION] @ iv
       @ snd (gcmEncrypt L fk iv (FILE_MAGIC @ [of_nat FILE_VERSION]) b)
       @ fst (gcmEncrypt L fk iv (FILE_MAGIC @ [of_nat FILE_VERSION]) b)"
proof -
  have a1: "subarray (buildFileHeader (alloc IV_LEN)) 0
              (length (buildFileHeader (alloc IV_LEN)) - IV_LEN)
            = FILE_MAGIC @ [of_nat FILE_VERSION]"
    by (simp add: subarray_def buildFileHeader_def alloc_def codec_consts)
  show ?thesis
    by (simp add: sealFileBytes_def Let_def a1 aesGcmEncrypt_def split_beta)
       (simp add: buildFileHeader_def)
qed

lemma openFileBytes_decode:
  assumes len: "38 \<le> length buf" and magic: "take 8 buf = FILE_MAGIC" and ver: "buf ! 8 = 1"
  shows "openFileBytes L buf fk =
     (case gcmDecrypt L fk (take 12 (drop 9 buf)) (FILE_MAGIC @ [of_nat FILE_VERSION])
             (take 16 (drop 21 buf)) (drop 37 buf) of
        None \<Rightarrow> Inl AuthFailed
      | Some pt \<Rightarrow> Inr pt)"
  using assms
  by (simp add: openFileBytes_def Let_def length_FILE_MAGIC codec_consts subarray_def
      buildFileHeader_def alloc_def aesGcmDecrypt_def)

lemma open_sealed_file:
  assumes rt: "gcm_roundtrip L" and tl: "gcm_tag_len L" and cl: "gcm_ct_len L"
    and iv: "length iv = IV_LEN" and ne: "b \<noteq> []"
  shows "openFileBytes L (sealFileBytes L b fk iv) fk = Inr b"
proof -
  define aad where "aad = FILE_MAGIC @ [of_nat FILE_VERSION :: byte]"
  define ct where "ct = fst (gcmEncrypt L fk iv aad b)"
  define tag where "tag = snd (gcmEncrypt L fk iv aad b)"
  define e where "e = FILE_MAGIC @ [of_nat FILE_VERSION] @ iv @ tag @ ct"
  have liv: "length iv = 12" using iv by (simp add: codec_consts)
  have lt: "length tag = 16" using tl by (simp add: gcm_tag_len_def tag_def codec_consts)
  have lc: "length ct = length b" using cl by (simp add: gcm_ct_len_def ct_def)
  have dec: "gcmDecrypt L fk iv aad tag ct = Some b"
    using rt by (simp add: gcm_roundtrip_def tag_def ct_def)
  have seal: "sealFileBytes L b fk iv = e"
    by (simp add: sealFileBytes_layout e_def tag_def ct_def aad_def)
  have len: "38 \<le> length e"
    using ne by (cases b) (simp_all add: e_def length_FILE_MAGIC liv lt lc)
  have magic: "take 8 e = FILE_MAGIC" using length_FILE_MAGIC by (simp add: e_def)
  have ver: "e ! 8 = 1" by (simp add: e_def nth_append length_FILE_MAGIC codec_consts)
  have "openFileBytes L e fk = Inr b"
    using dec
    by (simp add: openFileBytes_decode[OF len magic ver])
       (simp add: e_def length_FILE_MAGIC liv lt aad_def)
  then show ?thesis by (simp add: seal)
qed

lemma open_sealed_empty_file:
  assumes tl: "gcm_tag_len L" and cl: "gcm_ct_len L" and iv: "length iv = IV_LEN"
  shows "openFileBytes L (sealFileBytes L [] fk iv) fk = Inl FileTooSmall"
proof -
  have "length (sealFileBytes L [] fk iv) = 37"
    using tl cl iv
    by (simp add: sealFileBytes_layout length_FILE_MAGIC gcm_tag_len_def gcm_ct_len_def
        codec_consts)
  then show ?thesis
    by (simp add: openFileBytes_def Let_def length_FILE_MAGIC codec_consts)
qed

subsection \<open>The executable instances have the properties asked of the primitives\<close>

lemma keyByte_replicate: "0 < n \<Longrightarrow> keyByte (replicate n x) = x"
  by (cases n) (simp_all add: keyByte_def)

lemma ref_roundtrip: "gcm_roundtrip refPlatform"
  by (simp add: gcm_roundtrip_def refPlatform_def refGcmEncrypt_def refGcmDecrypt_def
      Let_def o_def)

lemma ref_tag_len: "gcm_tag_len refPlatform"
  by (simp add: gcm_tag_len_def refPlatform_def refGcmEncrypt_def Let_def TAG_LEN_def)

lemma ref_ct_len: "gcm_ct_len refPlatform"
  by (simp add: gcm_ct_len_def refPlatform_def refGcmEncrypt_def Let_def)

lemma example_iv_len: "length exampleIv = IV_LEN"
  by (simp add: exampleIv_def IV_LEN_def)

lemma example_valid: "valid_key_material exampleVault"
  by (simp add: valid_key_material_def exampleVault_def exampleSalt_def SALT_LEN_def
      DEFAULT_SCRYPT_PARAMS_def)

lemma example_pow2: "list_ex (\<lambda>k. (32768::nat) = 2 ^ k) [1 ..< 32]"
proof -
  have "(15::nat) \<in> set [1 ..< 32]" by simp
  moreover have "(32768::nat) = 2 ^ 15" by simp
  ultimately show ?thesis unfolding list_ex_iff by blast
qed

lemma example_normalized:
  "refNormalize NFKC (jsstr ''correct-horse-battery-staple12'')
     = jsstr ''correct-horse-battery-staple12''"
  by (simp add: refNormalize_def jsstr_def compatFrag_def decomposeFrag_def)

lemma example_derive_ref:
  "deriveKeysFromPassphrase refPlatform examplePassphrase exampleSalt DEFAULT_SCRYPT_PARAMS
     = Inr exampleVault"
  using example_pow2
  by (simp add: deriveKeysFromPassphrase_def normalizePassphrase_def examplePassphrase_def
      refPlatform_def example_normalized refScryptSync_def DEFAULT_SCRYPT_PARAMS_def
      hkdfSubkey_def refHkdfSync_def exampleVault_def Let_def)
     (simp add: jsstr_def exampleSalt_def bsum_def alloc_def ascii_def sum_list_replicate)

subsection \<open>The normalisation fragment\<close>

lemma decomposeFrag_Cons:
  "decomposeFrag (c # s) = (if c = 0xE9 then [0x65, 0x301] else [c]) @ decomposeFrag s"
  by (simp add: decomposeFrag_def)

lemma compatFrag_Cons:
  "compatFrag (c # s) = (if c = 0xFB01 then [0x66, 0x69] else [c]) @ compatFrag s"
  by (simp add: compatFrag_def)

lemma ref_decompose_compat:
  "decomposeFrag (compatFrag (decomposeFrag s)) = decomposeFrag (compatFrag s)"
proof (induction s)
  case Nil
  show ?case by (simp add: decomposeFrag_def compatFrag_def)
next
  case (Cons c s)
  then show ?case by (simp add: decomposeFrag_Cons compatFrag_Cons)
qed

lemma ref_nfkc_of_nfd:
  "normalize refPlatform NFKC (normalize refPlatform NFD s) = normalize refPlatform NFKC s"
  by (simp add: refPlatform_def refNormalize_def ref_decompose_compat)


section \<open>Properties of the file system and of the store\<close>

lemma map_of_fsRemove: "map_of (fsRemove f p) q = (if q = p then None else map_of f q)"
  by (induction f) (auto simp: fsRemove_def)

lemma map_of_fsWrite: "map_of (fsWrite f p d) q = (if q = p then Some d else map_of f q)"
  by (simp add: fsWrite_def map_of_fsRemove)

lemma map_of_fsRemoveTree:
  "map_of (fsRemoveTree f dir) q = (if isUnder dir q \<or> q = dir then None else map_of f q)"
  by (induction f) (auto simp: fsRemoveTree_def)

lemma enc_paths_distinct:
  "tmpEncPath \<noteq> dbEncPath" "bakPath \<noteq> dbEncPath" "tmpEncPath \<noteq> bakPath"
  "dbPlainPath \<noteq> dbEncPath" "dbPlainPath \<noteq> tmpEncPath" "dbPlainPath \<noteq> bakPath"
  by (simp_all add: tmpEncPath_def bakPath_def dbEncPath_def dbPlainPath_def pathJoin_def)

lemma isUnder_dest: "isUnder dir (pathJoin dir name)"
  by (simp add: isUnder_def pathJoin_def startsWith_def)

lemma isUnder_dest_tmp: "isUnder dir (pathJoin dir name @ suffix)"
  by (simp add: isUnder_def pathJoin_def startsWith_def)

text \<open>The persist step leaves the in-memory database, the vault and the lock alone.\<close>

lemma tryUnlink_state:
  "db (tryUnlink w p) = db w" "vault (tryUnlink w p) = vault w"
  "locked (tryUnlink w p) = locked w" "draws (tryUnlink w p) = draws w"
  "denied (tryUnlink w p) = denied w" "tempOpenFiles (tryUnlink w p) = tempOpenFiles w"
  by (auto simp: tryUnlink_def unlinkSync_def split: sum.splits)

lemma moveAside_state:
  "db (moveAside w) = db w" "vault (moveAside w) = vault w"
  "locked (moveAside w) = locked w" "draws (moveAside w) = draws w"
  "denied (moveAside w) = denied w" "tempOpenFiles (moveAside w) = tempOpenFiles w"
  by (auto simp: moveAside_def renameSync_def unlinkSync_def split: sum.splits option.splits)



lemma ref_sel:
  "randomUUID refPlatform = refRandomUUID"
  "randomBytes refPlatform = (\<lambda>k n. replicate n (of_nat k))"
  "nowIso refPlatform = (\<lambda>k. ''2026-01-01T00:00:'' @ [hexDigit (k div 16), hexDigit k])"
  "sqlExport refPlatform = refSqlExport" "sqlOpen refPlatform = refSqlOpen"
  "gcmEncrypt refPlatform = refGcmEncrypt" "gcmDecrypt refPlatform = refGcmDecrypt"
  "jsonManifest refPlatform = (\<lambda>m. ascii (reason m))"
  "jsonBackupMeta refPlatform = (\<lambda>old at dir. ascii dir)"
  by (simp_all add: refPlatform_def)

subsection \<open>The attachment handler\<close>

lemma recordAudit_nopersist_files:
  "recordAudit L a et ei pi de False w = (r, w') \<Longrightarrow> files w' = files w"
  by (auto simp: recordAudit_def Let_def split: option.splits if_splits)

text \<open>\<^verbatim>\<open>encryptAttachmentFile\<close> writes its destination and the temporary file beside it,
  and nothing else.\<close>

lemma encryptAttachmentFile_frame:
  "encryptAttachmentFile L src dest fk w = (r, w') \<Longrightarrow> q \<noteq> dest \<Longrightarrow> q \<noteq> dest @ ''.tmp''
   \<Longrightarrow> map_of (files w') q = map_of (files w) q"
  by (auto simp: encryptAttachmentFile_def Let_def writeFileSync_def readFileSync_def
      renameSync_def map_of_fsWrite map_of_fsRemove split_beta
      split: sum.splits option.splits if_splits)

lemma addOne_frame:
  assumes "\<not> isUnder dir q"
  shows "map_of (files (snd (addOne L pid dir sp w))) q = map_of (files w) q"
proof -
  have n1: "q \<noteq> pathJoin dir name" for name using assms isUnder_dest by metis
  have n2: "q \<noteq> pathJoin dir name @ ''.tmp''" for name using assms isUnder_dest_tmp by metis
  show ?thesis
    by (auto simp: addOne_def Let_def
        dest!: recordAudit_nopersist_files encryptAttachmentFile_frame[OF _ n1 n2]
        split: option.splits sum.splits prod.splits if_splits)
qed

lemma addOne_skipped:
  "skippedSource w sp \<Longrightarrow> addOne L pid dir sp w = ([], w)"
  by (auto simp: addOne_def skippedSource_def split: option.splits)

lemma skipped_invariant:
  assumes "\<And>q. \<not> isUnder dir q \<Longrightarrow> map_of (files w1) q = map_of (files w) q"
    and "\<And>p. sp = Some p \<Longrightarrow> \<not> isUnder dir p"
  shows "skippedSource w1 sp = skippedSource w sp"
  using assms by (auto simp: skippedSource_def split: option.splits)

text \<open>Skipped sources can be struck from the list: the loop returns the same rows and
  ends in the same state.\<close>

lemma addLoop_filter:
  assumes "\<And>p. Some p \<in> set ps \<Longrightarrow> \<not> isUnder dir p"
  shows "addLoop L pid dir ps w = addLoop L pid dir (filter (\<lambda>sp. \<not> skippedSource w sp) ps) w"
  using assms
proof (induction ps arbitrary: w)
  case Nil
  show ?case by simp
next
  case (Cons sp ps)
  have out: "\<And>p. Some p \<in> set ps \<Longrightarrow> \<not> isUnder dir p" using Cons.prems by simp
  show ?case
  proof (cases "skippedSource w sp")
    case True
    then show ?thesis using Cons.IH[of w, OF out] by (simp add: addOne_skipped)
  next
    case False
    obtain pushed w1 where a: "addOne L pid dir sp w = (pushed, w1)"
      by (cases "addOne L pid dir sp w")
    have fr: "\<And>q. \<not> isUnder dir q \<Longrightarrow> map_of (files w1) q = map_of (files w) q"
      using addOne_frame[of dir _ L pid sp w] a by simp
    have inv: "skippedSource w1 s = skippedSource w s" if "s \<in> set ps" for s
    proof (rule skipped_invariant[of dir])
      show "\<And>q. \<not> isUnder dir q \<Longrightarrow> map_of (files w1) q = map_of (files w) q" by (rule fr)
      show "\<And>p. s = Some p \<Longrightarrow> \<not> isUnder dir p" using out that by blast
    qed
    have "filter (\<lambda>s. \<not> skippedSource w1 s) ps = filter (\<lambda>s. \<not> skippedSource w s) ps"
      using inv by (simp cong: filter_cong)
    then show ?thesis using False Cons.IH[of w1, OF out] by (simp add: a)
  qed
qed

lemma safeDir_valid:
  "isValidProjectId pid \<Longrightarrow>
   getSafeProjectAttachmentDir pid = Some (pathJoin attachmentsRoot pid)"
  by (simp add: getSafeProjectAttachmentDir_def Let_def pathJoin_def startsWith_def)

lemma valid_example_pid: "isValidProjectId exampleProjectId"
  by code_simp

lemma length_bigFile: "length bigFile = 1073741825"
  by (simp only: bigFile_def length_replicate)

lemma sample_filter:
  "filter (\<lambda>sp. \<not> skippedSource sourceWorld sp) samplePaths = [Some ''/src/a.txt'']"
  by (simp add: samplePaths_def skippedSource_def sourceWorld_def unlockedWorld_def
      length_bigFile)

lemma sample_outside:
  "Some p \<in> set samplePaths \<Longrightarrow> \<not> isUnder (pathJoin attachmentsRoot exampleProjectId) p"
  by (auto simp: samplePaths_def isUnder_def startsWith_def pathJoin_def attachmentsRoot_def
      userData_def exampleProjectId_def)

lemma basename_sample: "basename ''/src/a.txt'' = ''a.txt''" "extname ''a.txt'' = ''.txt''"
  by code_simp+

lemma sample_loop:
  "fst (addLoop refPlatform exampleProjectId (pathJoin attachmentsRoot exampleProjectId)
         [Some ''/src/a.txt''] sourceWorld)
   = [Some \<lparr>attId = ''00000000-0000-4000-8000-000000000002'', attProjectId = exampleProjectId,
             originalFileName = ''a.txt'',
             storedFileName = ''00000000-0000-4000-8000-000000000000.txt.enc'',
             storedRelativePath =
               pathJoin exampleProjectId ''00000000-0000-4000-8000-000000000000.txt.enc'',
             sizeBytes = 2, addedAt = ''2026-01-01T00:00:03''\<rparr>]"
  by (simp add: addOne_def sourceWorld_def unlockedWorld_def existsSync_def basename_sample
      Let_def isContainedPath_def startsWith_def pathJoin_def encryptAttachmentFile_def
      writeFileSync_def readFileSync_def renameSync_def map_of_fsWrite map_of_fsRemove
      ref_sel refRandomUUID_def hexDigit_def split_beta emptyDatabase_def recordAudit_def)

subsection \<open>The note handler\<close>




subsection \<open>Persisting and unlocking\<close>

lemma candidates_eq:
  "listEncryptedDbCandidates w =
     (if existsSync w dbEncPath then [\<lparr>dbPath = dbEncPath, isBackup = False\<rparr>] else [])
     @ (if existsSync w bakPath then [\<lparr>dbPath = bakPath, isBackup = True\<rparr>] else [])"
  by (simp add: listEncryptedDbCandidates_def Let_def dbEncPath_def bakPath_def)

lemma existsSync_file: "map_of (files w) p = Some d \<Longrightarrow> existsSync w p"
  by (simp add: existsSync_def)

lemma unlock_from_enc:
  assumes "map_of (files w) dbEncPath = Some e"
    and "openVaultFromDatabaseEnvelope L e pass = Inr (b, v)"
  shows "unlockSelectSource L pass w =
           (Inr (Some b, False, Some \<lparr>dbPath = dbEncPath, isBackup = False\<rparr>),
            w\<lparr>vault := Some v\<rparr>)"
  using assms existsSync_file[OF assms(1)]
  by (simp add: unlockSelectSource_def candidates_eq Let_def readFileSync_def)

lemma unlock_from_bak:
  assumes "map_of (files w) dbEncPath = None" and "map_of (files w) bakPath = Some e"
    and "openVaultFromDatabaseEnvelope L e pass = Inr (b, v)"
  shows "unlockSelectSource L pass w =
           (Inr (Some b, False, Some \<lparr>dbPath = bakPath, isBackup = True\<rparr>),
            w\<lparr>vault := Some v\<rparr>)"
  using assms existsSync_file[OF assms(2)]
  by (simp add: unlockSelectSource_def candidates_eq Let_def readFileSync_def)

lemma tryUnlink_map_of:
  "\<not> denied w p \<Longrightarrow>
   map_of (files (tryUnlink w p)) q = (if q = p then None else map_of (files w) q)"
  by (auto simp: tryUnlink_def unlinkSync_def existsSync_def map_of_fsRemove split: sum.splits)

text \<open>
  A persist that starts with an envelope in its place, on a file system that refuses
  nothing: the six states it goes through, and where the old and the new envelope are
  in each.
\<close>

lemma persist_crash_states:
  assumes rt: "gcm_roundtrip L" and tl: "gcm_tag_len L"
    and rb: "\<forall>k n. length (randomBytes L k n) = n"
    and d: "db w = Some d" and ul: "\<not> locked w" and v: "vault w = Some v"
    and vk: "valid_key_material v"
    and dk: "deriveKeysFromPassphrase L pass (kdfSalt v) (kdfParams v) = Inr v"
    and nd: "\<forall>p. \<not> denied w p"
    and old: "map_of (files w) dbEncPath = Some e"
  shows "\<exists>env w0 w1 w2 w3 w4 w5.
      persistCrashStates L w = [w0, w1, w2, w3, w4, w5]
    \<and> persistDbInternal L w = (Inr (), w5)
    \<and> openVaultFromDatabaseEnvelope L env pass = Inr (sqlExport L d, v)
    \<and> map_of (files w0) dbEncPath = Some e
    \<and> map_of (files w1) dbEncPath = Some e
    \<and> map_of (files w2) dbEncPath = Some e
    \<and> map_of (files w3) dbEncPath = None \<and> map_of (files w3) bakPath = Some e
    \<and> map_of (files w4) dbEncPath = Some env \<and> map_of (files w4) bakPath = Some e
    \<and> map_of (files w5) dbEncPath = Some env \<and> map_of (files w5) bakPath = None"
proof -
  have ivl: "length (randomBytes L (draws w) IV_LEN) = IV_LEN" using rb by simp
  obtain env where
    seal: "sealDatabaseBytes L (sqlExport L d) (Some v) (randomBytes L (draws w) IV_LEN) = Inr env"
    and op: "openVaultFromDatabaseEnvelope L env pass = Inr (sqlExport L d, v)"
    using open_sealed_database[OF rt tl vk dk ivl] by blast
  define w0 where "w0 = w\<lparr>draws := Suc (draws w)\<rparr>"
  define w1 where "w1 = w0\<lparr>files := fsWrite (files w0) tmpEncPath env\<rparr>"
  define w2 where "w2 = tryUnlink w1 bakPath"
  define w3 where "w3 = w2\<lparr>files := fsWrite (fsRemove (files w2) dbEncPath) bakPath e\<rparr>"
  define w4 where "w4 = w3\<lparr>files := fsWrite (fsRemove (files w3) tmpEncPath) dbEncPath env\<rparr>"
  define w5 where "w5 = tryUnlink w4 bakPath"
  have nd0: "\<not> denied w0 p" for p using nd by (simp add: w0_def)
  have nd1: "\<not> denied w1 p" for p using nd0 by (simp add: w1_def)
  have nd2: "\<not> denied w2 p" for p using nd1 by (simp add: w2_def tryUnlink_state)
  have nd3: "\<not> denied w3 p" for p using nd2 by (simp add: w3_def)
  have nd4: "\<not> denied w4 p" for p using nd3 by (simp add: w4_def)
  have wr: "writeFileSync w0 tmpEncPath env = Inr w1"
    using nd0 by (simp add: writeFileSync_def w1_def)
  have m0: "map_of (files w0) dbEncPath = Some e" using old by (simp add: w0_def)
  have m1: "map_of (files w1) dbEncPath = Some e" "map_of (files w1) tmpEncPath = Some env"
    using m0 enc_paths_distinct by (auto simp: w1_def map_of_fsWrite)
  have m2: "map_of (files w2) dbEncPath = Some e" "map_of (files w2) tmpEncPath = Some env"
    "map_of (files w2) bakPath = None"
    using m1 nd1 enc_paths_distinct by (auto simp: w2_def tryUnlink_map_of)
  have mv: "moveAside w2 = w3"
    using m2 nd2 existsSync_file[OF m2(1)]
    by (simp add: moveAside_def renameSync_def w3_def)
  have m3: "map_of (files w3) dbEncPath = None" "map_of (files w3) bakPath = Some e"
    "map_of (files w3) tmpEncPath = Some env"
    using m2 enc_paths_distinct by (auto simp: w3_def map_of_fsWrite map_of_fsRemove)
  have rn: "renameSync w3 tmpEncPath dbEncPath = Inr w4"
    using m3 nd3 by (simp add: renameSync_def w4_def)
  have m4: "map_of (files w4) dbEncPath = Some env" "map_of (files w4) bakPath = Some e"
    using m3 enc_paths_distinct by (auto simp: w4_def map_of_fsWrite map_of_fsRemove)
  have m5: "map_of (files w5) dbEncPath = Some env" "map_of (files w5) bakPath = None"
    using m4 nd4 enc_paths_distinct by (auto simp: w5_def tryUnlink_map_of)
  have st: "persistCrashStates L w = [w0, w1, w2, w3, w4, w5]"
    using d ul v seal wr mv rn
    by (simp add: persistCrashStates_def Let_def w0_def[symmetric] w2_def[symmetric]
        w5_def[symmetric])
  have pi: "persistDbInternal L w = (Inr (), w5)"
    using d ul v seal wr mv rn
    by (simp add: persistDbInternal_def Let_def w0_def[symmetric] w2_def[symmetric]
        w5_def[symmetric])
  show ?thesis
    using st pi op m0 m1(1) m2(1) m3(1,2) m4 m5 by blast
qed

lemma ref_random_len: "\<forall>k n. length (randomBytes refPlatform k n) = n"
  by (simp add: ref_sel)

lemma example_derive_ref':
  "deriveKeysFromPassphrase refPlatform examplePassphrase (kdfSalt exampleVault)
     (kdfParams exampleVault) = Inr exampleVault"
  using example_derive_ref by (simp add: exampleVault_def)

lemma example_envelope_opens:
  "sealDatabaseBytes refPlatform [1, 2, 3] (Some exampleVault) exampleIv
     = Inr (exampleEnvelope refPlatform)"
  "openVaultFromDatabaseEnvelope refPlatform (exampleEnvelope refPlatform) examplePassphrase
     = Inr ([1, 2, 3], exampleVault)"
  using open_sealed_database[OF ref_roundtrip ref_tag_len example_valid example_derive_ref'
      example_iv_len, of "[1, 2, 3]"]
  by (auto simp: exampleEnvelope_def)

lemma tryUnlink_frame: "q \<noteq> p \<Longrightarrow> map_of (files (tryUnlink w p)) q = map_of (files w) q"
  by (auto simp: tryUnlink_def unlinkSync_def map_of_fsRemove split: sum.splits)

lemma moveAside_frame:
  "q \<noteq> dbEncPath \<Longrightarrow> q \<noteq> bakPath \<Longrightarrow> map_of (files (moveAside w)) q = map_of (files w) q"
  by (auto simp: moveAside_def renameSync_def unlinkSync_def map_of_fsRemove map_of_fsWrite
      split: sum.splits option.splits)

lemma persistDbInternal_frame:
  assumes "q \<noteq> dbEncPath" "q \<noteq> bakPath" "q \<noteq> tmpEncPath"
  shows "map_of (files (snd (persistDbInternal L w))) q = map_of (files w) q"
  using assms
  by (auto simp: persistDbInternal_def Let_def writeFileSync_def renameSync_def
      tryUnlink_frame moveAside_frame map_of_fsRemove map_of_fsWrite
      split: option.splits sum.splits if_splits)




lemma ref_seal_some:
  "\<exists>env. sealDatabaseBytes refPlatform pt (Some exampleVault) (randomBytes refPlatform k IV_LEN) = Inr env"
  using sealDatabaseBytes_layout[of exampleVault "randomBytes refPlatform k IV_LEN" refPlatform pt]
  by (simp add: exampleVault_def exampleSalt_def ref_sel IV_LEN_def)

lemma path_strings:
  "dbEncPath = ''/userData/edisconotes.sqlite.enc''"
  "bakPath = ''/userData/edisconotes.sqlite.enc.bak''"
  "tmpEncPath = ''/userData/edisconotes.sqlite.enc.tmp''"
  "dbPlainPath = ''/userData/edisconotes.sqlite''"
  by (simp_all add: dbEncPath_def bakPath_def tmpEncPath_def dbPlainPath_def pathJoin_def userData_def)

lemma persist_succeeds:
  assumes nd: "\<forall>p. \<not> denied w p" and d: "db w = Some d" and ul: "\<not> locked w"
    and v: "vault w = Some v" and ls: "length (kdfSalt v) = 16"
    and rb: "\<forall>k n. length (randomBytes L k n) = n"
  shows "\<exists>env w'. sealDatabaseBytes L (sqlExport L d) (Some v) (randomBytes L (draws w) IV_LEN) = Inr env
           \<and> persistDbInternal L w = (Inr (), w')
           \<and> map_of (files w') dbEncPath = Some env"
proof -
  have ivl: "length (randomBytes L (draws w) IV_LEN) = 12" using rb by (simp add: IV_LEN_def)
  obtain env where seal: "sealDatabaseBytes L (sqlExport L d) (Some v) (randomBytes L (draws w) IV_LEN) = Inr env"
    using sealDatabaseBytes_layout[OF ls ivl] by blast
  define w0 where "w0 = w\<lparr>draws := Suc (draws w)\<rparr>"
  define w1 where "w1 = w0\<lparr>files := fsWrite (files w0) tmpEncPath env\<rparr>"
  define w2 where "w2 = tryUnlink w1 bakPath"
  define w3 where "w3 = moveAside w2"
  define w4 where "w4 = w3\<lparr>files := fsWrite (fsRemove (files w3) tmpEncPath) dbEncPath env\<rparr>"
  define w5 where "w5 = tryUnlink w4 bakPath"
  have nd0: "\<not> denied w0 p" for p using nd by (simp add: w0_def)
  have nd3: "\<not> denied w3 p" for p
    using nd0 by (simp add: w3_def w2_def w1_def moveAside_state tryUnlink_state)
  have wr: "writeFileSync w0 tmpEncPath env = Inr w1"
    using nd0 by (simp add: writeFileSync_def w1_def)
  have m3: "map_of (files w3) tmpEncPath = Some env"
    using enc_paths_distinct
    by (simp add: w3_def w2_def moveAside_frame tryUnlink_frame w1_def map_of_fsWrite)
  have rn: "renameSync w3 tmpEncPath dbEncPath = Inr w4"
    using m3 nd3 by (simp add: renameSync_def w4_def)
  have m5: "map_of (files w5) dbEncPath = Some env"
    using enc_paths_distinct by (simp add: w5_def tryUnlink_frame w4_def map_of_fsWrite)
  have "persistDbInternal L w = (Inr (), w5)"
    using d ul v seal wr rn
    by (simp add: persistDbInternal_def Let_def w0_def[symmetric] w2_def[symmetric]
        w3_def[symmetric] w5_def[symmetric])
  then show ?thesis using seal m5 by blast
qed





lemma pass_len: "MIN_PASSPHRASE_LEN \<le> length (jsstr ''correct-horse-battery-staple12'')"
  by (simp add: MIN_PASSPHRASE_LEN_def jsstr_def)







lemma take_drop_take: "k + m \<le> n \<Longrightarrow> take m (drop k (take n xs)) = take m (drop k xs)"
  by (simp add: drop_take)

lemma readU32_take: "k + 4 \<le> n \<Longrightarrow> n \<le> length buf \<Longrightarrow> readU32 (take n buf) k = readU32 buf k"
  by (simp add: readU32_def)

lemma open_same_header:
  assumes tl: "gcm_tag_len L" and vk: "valid_key_material v" and liv: "length iv = IV_LEN"
    and seal: "sealDatabaseBytes L b (Some v) iv = Inr e"
    and hd: "take 49 e' = take 49 e" and len: "length e' = length e"
  shows "openVaultFromDatabaseEnvelope L e' pass =
     (case deriveKeysFromPassphrase L pass (kdfSalt v) (kdfParams v) of
        Inl err \<Rightarrow> Inl err
      | Inr v' \<Rightarrow>
          (case gcmDecrypt L (dbKey v') iv (take 37 e) (take 16 (drop 49 e')) (drop 65 e') of
             None \<Rightarrow> Inl AuthFailed
           | Some pt \<Rightarrow> Inr (pt, v')))"
proof -
  define ps where "ps = kdfParams v"
  define salt where "salt = kdfSalt v"
  define tag where "tag = snd (gcmEncrypt L (dbKey v) iv (take 37 (buildDbHeader ps salt iv)) b)"
  define ct where "ct = fst (gcmEncrypt L (dbKey v) iv (take 37 (buildDbHeader ps salt iv)) b)"
  have ls: "length salt = 16" and n: "kdfN ps < 2 ^ 32" and r: "kdfR ps < 2 ^ 32"
    and p: "kdfP ps < 2 ^ 32"
    using vk by (simp_all add: valid_key_material_def salt_def ps_def codec_consts)
  have l12: "length iv = 12" using liv by (simp add: codec_consts)
  have lt: "length tag = 16" using tl by (simp add: gcm_tag_len_def tag_def codec_consts)
  have e: "e = buildDbHeader ps salt iv @ tag @ ct"
    using seal sealDatabaseBytes_layout[of v iv L b] ls l12
    by (simp add: tag_def ct_def salt_def ps_def)
  have e_eq: "e = DB_MAGIC @ [of_nat DB_VERSION] @ u32 (kdfN ps) @ u32 (kdfR ps) @ u32 (kdfP ps)
                    @ salt @ iv @ tag @ ct"
    by (simp add: e buildDbHeader_def)
  have le: "65 \<le> length e" by (simp add: e_eq length_DB_MAGIC length_u32 ls l12 lt)
  then have le': "65 \<le> length e'" using len by simp
  have t49: "take 49 e = DB_MAGIC @ [of_nat DB_VERSION] @ u32 (kdfN ps) @ u32 (kdfR ps)
                           @ u32 (kdfP ps) @ salt @ iv"
    by (simp add: e_eq length_DB_MAGIC length_u32 ls l12)
  have sub: "take m (drop k e') = take m (drop k (take 49 e))" if "k + m \<le> 49" for k m
    using take_drop_take[OF that, of e'] hd by simp
  have magic: "take 8 e' = DB_MAGIC"
    using sub[of 0 8] length_DB_MAGIC by (simp add: t49)
  have ver: "e' ! 8 = 1"
  proof -
    have "e' ! 8 = take 49 e' ! 8" by simp
    also have "\<dots> = take 49 e ! 8" by (simp only: hd)
    also have "\<dots> = 1" by (simp add: t49 nth_append length_DB_MAGIC codec_consts)
    finally show ?thesis .
  qed
  have rd: "readU32 e' k = readU32 (take 49 e) k" if "k + 4 \<le> 49" for k
    using readU32_take[OF that, of e'] le' hd by simp
  have rn: "readU32 e' 9 = Some (kdfN ps)"
    using readU32_at[of "DB_MAGIC @ [of_nat DB_VERSION]" 9 "kdfN ps"] n
    by (simp add: rd t49 length_DB_MAGIC)
  have rr: "readU32 e' 13 = Some (kdfR ps)"
    using readU32_at[of "DB_MAGIC @ [of_nat DB_VERSION] @ u32 (kdfN ps)" 13 "kdfR ps"] r
    by (simp add: rd t49 length_DB_MAGIC length_u32)
  have rp: "readU32 e' 17 = Some (kdfP ps)"
    using readU32_at[of "DB_MAGIC @ [of_nat DB_VERSION] @ u32 (kdfN ps) @ u32 (kdfR ps)" 17
        "kdfP ps"] p
    by (simp add: rd t49 length_DB_MAGIC length_u32)
  have s_salt: "take 16 (drop 21 e') = salt"
    using sub[of 21 16] by (simp add: t49 length_DB_MAGIC length_u32 ls)
  have s_iv: "take 12 (drop 37 e') = iv"
    using sub[of 37 12] by (simp add: t49 length_DB_MAGIC length_u32 ls l12)
  have s_aad: "take 37 e' = take 37 e"
    using sub[of 0 37] by simp
  have psr: "\<lparr>kdfN = kdfN ps, kdfR = kdfR ps, kdfP = kdfP ps\<rparr> = ps" by simp
  show ?thesis
    using openVault_decode[OF le' magic ver, of L pass]
    by (auto simp: rn rr rp s_salt s_iv s_aad psr simp flip: salt_def ps_def split: sum.splits)
qed

lemma unlock_auth_failed:
  assumes "map_of (files w) dbEncPath = Some e" and "\<not> existsSync w bakPath"
    and "openVaultFromDatabaseEnvelope L e (JsString s) = Inl AuthFailed"
    and "MIN_PASSPHRASE_LEN \<le> length s"
  shows "unlockVault L (JsString s) w = (Inl UnlockFailed, w)"
  using assms existsSync_file[OF assms(1)]
  by (simp add: unlockVault_def unlockSelectSource_def candidates_eq Let_def readFileSync_def
      isDecryptAuthError_def)

lemma example_envelope_bytes:
  "exampleEnvelope refPlatform =
     [69, 68, 78, 69, 78, 67, 48, 49, 1, 0, 0, 128, 0, 0, 0, 0, 8, 0, 0, 0, 1,
      1, 2, 3, 4, 5, 6, 7, 8, 9, 10, 11, 12, 13, 14, 15, 16, 21, 22, 23, 24, 25,
      26, 27, 28, 29, 30, 31, 32, 0, 0, 0, 0, 0, 0, 0, 0, 0, 0, 0, 0, 0, 0, 0,
      228, 225, 226, 227]"
  by (simp add: exampleEnvelope_def sealDatabaseBytes_def Let_def split_beta
      aesGcmEncrypt_def ref_sel refGcmEncrypt_def buildDbHeader_def u32_def
      exampleVault_def DEFAULT_SCRYPT_PARAMS_def subarray_def alloc_def codec_consts
      DB_MAGIC_def ascii_def exampleSalt_def exampleIv_def keyByte_replicate bsum_def)
     (simp add: numeral_eq_Suc)

lemma wrong_derive:
  "deriveKeysFromPassphrase refPlatform (JsString wrongPassphrase) (kdfSalt exampleVault)
     (kdfParams exampleVault) = Inr wrongVault"
proof -
  have nz: "refNormalize NFKC wrongPassphrase = wrongPassphrase"
    by (simp add: refNormalize_def wrongPassphrase_def jsstr_def compatFrag_def decomposeFrag_def)
  show ?thesis
    using example_pow2
    by (simp add: deriveKeysFromPassphrase_def normalizePassphrase_def
      refPlatform_def nz refScryptSync_def DEFAULT_SCRYPT_PARAMS_def
      hkdfSubkey_def refHkdfSync_def exampleVault_def wrongVault_def Let_def)
     (simp add: wrongPassphrase_def jsstr_def exampleSalt_def bsum_def alloc_def ascii_def sum_list_replicate)
qed

lemma wrong_len: "MIN_PASSPHRASE_LEN \<le> length wrongPassphrase"
  by (simp add: MIN_PASSPHRASE_LEN_def wrongPassphrase_def jsstr_def)

lemma wrong_rejected:
  "gcmDecrypt refPlatform (dbKey wrongVault) exampleIv (take 37 (exampleEnvelope refPlatform))
     (take 16 (drop 49 (exampleEnvelope refPlatform))) (drop 65 (exampleEnvelope refPlatform)) = None"
  by (simp add: example_envelope_bytes ref_sel refGcmDecrypt_def wrongVault_def keyByte_replicate
      exampleIv_def bsum_def)

lemma corrupt_rejected:
  "gcmDecrypt refPlatform (dbKey exampleVault) exampleIv (take 37 (exampleEnvelope refPlatform))
     (take 16 (drop 49 ((exampleEnvelope refPlatform)[66 := 0])))
     (drop 65 ((exampleEnvelope refPlatform)[66 := 0])) = None"
  by (simp add: example_envelope_bytes ref_sel refGcmDecrypt_def exampleVault_def keyByte_replicate
      exampleIv_def bsum_def)

lemma no_bak: "\<not> existsSync encWorld bakPath" "\<not> existsSync corruptWorld bakPath"
  by (simp_all add: existsSync_def encWorld_def corruptWorld_def unlockedWorld_def fsTree_def
      isUnder_def startsWith_def path_strings)

subsection \<open>An envelope with a changed salt\<close>

lemma tampered_salt_derive:
  "deriveKeysFromPassphrase refPlatform examplePassphrase
     [99, 2, 3, 4, 5, 6, 7, 8, 9, 10, 11, 12, 13, 14, 15, 16] DEFAULT_SCRYPT_PARAMS
   = Inr \<lparr>masterKey = replicate 32 116, dbKey = replicate 32 32, fileKey = replicate 32 109,
          kdfSalt = [99, 2, 3, 4, 5, 6, 7, 8, 9, 10, 11, 12, 13, 14, 15, 16],
          kdfParams = DEFAULT_SCRYPT_PARAMS\<rparr>"
  using example_pow2 example_normalized
  by (simp add: deriveKeysFromPassphrase_def normalizePassphrase_def
      refPlatform_def refScryptSync_def DEFAULT_SCRYPT_PARAMS_def
      hkdfSubkey_def refHkdfSync_def Let_def)
     (simp add: examplePassphrase_def jsstr_def bsum_def alloc_def ascii_def sum_list_replicate)


lemma tampered_salt_rejected:
  "gcmDecrypt refPlatform (replicate 32 32) exampleIv
     (take 37 ((exampleEnvelope refPlatform)[21 := 99]))
     (snd (gcmEncrypt refPlatform (dbKey exampleVault) exampleIv
             (take 37 (exampleEnvelope refPlatform)) [1, 2, 3]))
     (fst (gcmEncrypt refPlatform (dbKey exampleVault) exampleIv
             (take 37 (exampleEnvelope refPlatform)) [1, 2, 3])) = None"
  by (simp add: example_envelope_bytes ref_sel refGcmDecrypt_def refGcmEncrypt_def Let_def
      exampleVault_def keyByte_replicate exampleIv_def bsum_def)

subsection \<open>What unlock has written when it verifies\<close>





section \<open>Snapshots and restore\<close>

subsection \<open>What the steps of a restore leave alone\<close>

lemma fold_tryUnlink_frame:
  "q \<notin> set ps \<Longrightarrow> map_of (files (fold (\<lambda>p s. tryUnlink s p) ps w)) q = map_of (files w) q"
  by (induction ps arbitrary: w) (auto simp: tryUnlink_frame)

lemma fold_tryUnlink_state:
  "tempOpenFiles (fold (\<lambda>p s. tryUnlink s p) ps w) = tempOpenFiles w"
  by (induction ps arbitrary: w) (auto simp: tryUnlink_state)

lemma fold_unlink_frame:
  "q \<notin> set ps \<Longrightarrow>
   map_of (files (fold (\<lambda>p s. case unlinkSync s p of Inl e \<Rightarrow> s | Inr s' \<Rightarrow> s') ps w)) q
     = map_of (files w) q"
proof (induction ps arbitrary: w)
  case Nil
  show ?case by simp
next
  case (Cons p ps)
  have "map_of (files (case unlinkSync w p of Inl e \<Rightarrow> w | Inr s' \<Rightarrow> s')) q = map_of (files w) q"
    using Cons.prems by (auto simp: unlinkSync_def map_of_fsRemove split: sum.splits)
  then show ?case using Cons by simp
qed

lemma tryCleanupTempFiles_frame:
  assumes "q \<notin> set (tempOpenFiles w)" and "\<not> isUnder tempRoot q"
  shows "map_of (files (tryCleanupTempFiles w)) q = map_of (files w) q"
proof -
  define w1 where "w1 = (fold (\<lambda>p s. tryUnlink s p) (tempOpenFiles w) w)\<lparr>tempOpenFiles := []\<rparr>"
  define direct where "direct = filter (\<lambda>p. CHR ''/'' \<notin> set (drop (length tempRoot + 1) p))
                     (map fst (fsTree (files w1) tempRoot))"
  have "q \<notin> set direct" using assms(2) by (auto simp: direct_def fsTree_def)
  then have "map_of (files (fold (\<lambda>p s. case unlinkSync s p of Inl e \<Rightarrow> s | Inr s' \<Rightarrow> s')
                              direct w1)) q = map_of (files w1) q"
    by (rule fold_unlink_frame)
  moreover have "map_of (files w1) q = map_of (files w) q"
    using assms(1) by (simp add: w1_def fold_tryUnlink_frame)
  ultimately show ?thesis
    by (simp add: tryCleanupTempFiles_def Let_def w1_def direct_def)
qed

lemma persistDb_frame:
  "q \<noteq> dbEncPath \<Longrightarrow> q \<noteq> bakPath \<Longrightarrow> q \<noteq> tmpEncPath \<Longrightarrow>
   map_of (files (persistDb L w)) q = map_of (files w) q"
  by (simp add: persistDb_def persistDbInternal_frame)

lemma persistDbInternal_tof: "tempOpenFiles (snd (persistDbInternal L w)) = tempOpenFiles w"
  by (auto simp: persistDbInternal_def Let_def writeFileSync_def renameSync_def
      tryUnlink_state moveAside_state split: option.splits sum.splits if_splits)

lemma recordAudit_tof:
  "tempOpenFiles (snd (recordAudit L a et ei pi de ps w)) = tempOpenFiles w"
  by (auto simp: recordAudit_def Let_def persistDb_def persistDbInternal_tof split: option.splits)

lemma recordAudit_frame:
  "q \<noteq> dbEncPath \<Longrightarrow> q \<noteq> bakPath \<Longrightarrow> q \<noteq> tmpEncPath \<Longrightarrow>
   map_of (files (snd (recordAudit L a et ei pi de ps w))) q = map_of (files w) q"
  by (auto simp: recordAudit_def Let_def persistDb_frame split: option.splits)

lemma lockVault_frame:
  assumes "q \<noteq> dbEncPath" "q \<noteq> bakPath" "q \<noteq> tmpEncPath"
    and "q \<notin> set (tempOpenFiles w)" and "\<not> isUnder tempRoot q"
  shows "map_of (files (snd (lockVault L w))) q = map_of (files w) q"
proof -
  obtain r w1 where ra: "recordAudit L ''vault.lock'' ''vault'' None None None False w = (r, w1)"
    by (cases "recordAudit L ''vault.lock'' ''vault'' None None None False w")
  have f1: "map_of (files w1) q = map_of (files w) q"
    using recordAudit_frame[OF assms(1-3), of L "''vault.lock''" "''vault''" None None None False w] ra
    by simp
  have t1: "tempOpenFiles w1 = tempOpenFiles w"
    using recordAudit_tof[of L "''vault.lock''" "''vault''" None None None False w] ra by simp
  have t2: "tempOpenFiles (persistDb L w1) = tempOpenFiles w"
    using t1 by (simp add: persistDb_def persistDbInternal_tof)
  show ?thesis
    using assms f1 t1 t2
    by (auto simp: lockVault_def ra tryCleanupTempFiles_frame persistDb_frame split: sum.splits)
qed

lemma isUnder_split: "isUnder dir p \<Longrightarrow> \<exists>r. p = dir @ CHR ''/'' # r"
proof -
  assume "isUnder dir p"
  then have "take (Suc (length dir)) p = dir @ ''/''" by (simp add: isUnder_def startsWith_def)
  then have "p = (dir @ ''/'') @ drop (Suc (length dir)) p" by (metis append_take_drop_id)
  then show ?thesis by auto
qed

lemma copy_dest_under: "isUnder src p \<Longrightarrow> isUnder dst (dst @ drop (length src) p)"
  using isUnder_split[of src p] by (auto simp: isUnder_def startsWith_def)

lemma copyEntries_frame:
  "\<forall>e \<in> set es. dst @ drop (length src) (fst e) \<noteq> q \<Longrightarrow>
   map_of (files (snd (copyEntries w src dst es))) q = map_of (files w) q"
proof (induction es arbitrary: w)
  case Nil
  show ?case by simp
next
  case (Cons e es)
  show ?case
  proof (cases "writeFileSync w (dst @ drop (length src) (fst e)) (snd e)")
    case (Inl err)
    then show ?thesis by simp
  next
    case (Inr w1)
    then have "map_of (files w1) q = map_of (files w) q"
      using Cons.prems by (auto simp: writeFileSync_def map_of_fsWrite split: if_splits)
    moreover have "map_of (files (snd (copyEntries w1 src dst es))) q = map_of (files w1) q"
      using Cons.IH[of w1] Cons.prems by simp
    ultimately show ?thesis
      using Inr by (cases "copyEntries w1 src dst es") (auto split: sum.splits)
  qed
qed

lemma copyDirRecursive_frame:
  assumes "\<not> isUnder dst q"
  shows "map_of (files (snd (copyDirRecursive w src dst))) q = map_of (files w) q"
proof -
  have "\<forall>e \<in> set (fsTree (files w) src). dst @ drop (length src) (fst e) \<noteq> q"
    using assms copy_dest_under[of src _ dst] by (auto simp: fsTree_def)
  then show ?thesis by (simp add: copyDirRecursive_def copyEntries_frame)
qed

lemma root_strings:
  "snapshotsRoot = ''/userData/snapshots''" "attachmentsRoot = ''/userData/attachments''"
  "tempRoot = ''/tmp/edisconotes-decrypted''" "backupMetaPath = ''/userData/backup-meta.json''"
  by (simp_all add: snapshotsRoot_def attachmentsRoot_def tempRoot_def backupMetaPath_def
      pathJoin_def userData_def tempDir_def)

lemma startsWith_shorter:
  assumes "startsWith q a" and "startsWith q b" and "length a \<le> length b"
  shows "take (length a) b = a"
proof -
  have "take (length a) b = take (length a) (take (length b) q)"
    using assms(2) by (simp add: startsWith_def)
  also have "\<dots> = take (length a) q" using assms(3) by (simp add: min_def)
  also have "\<dots> = a" using assms(1) by (simp add: startsWith_def)
  finally show ?thesis .
qed

lemma snapshot_path_facts:
  assumes "isUnder snapshotsRoot q"
  shows "q \<noteq> dbEncPath" "q \<noteq> bakPath" "q \<noteq> tmpEncPath" "q \<noteq> dbPlainPath"
    "q \<noteq> backupMetaPath" "q \<noteq> attachmentsRoot" "\<not> isUnder attachmentsRoot q"
    "\<not> isUnder tempRoot q"
proof -
  have s: "startsWith q ''/userData/snapshots/''"
    using assms by (simp add: isUnder_def root_strings)
  have "q = take (length ''/userData/snapshots/'') q @ drop (length ''/userData/snapshots/'') q"
    by (simp only: append_take_drop_id)
  then have t: "q = ''/userData/snapshots/'' @ drop (length ''/userData/snapshots/'') q"
    using s unfolding startsWith_def by metis
  show "q \<noteq> dbEncPath" "q \<noteq> bakPath" "q \<noteq> tmpEncPath" "q \<noteq> dbPlainPath"
    "q \<noteq> backupMetaPath" "q \<noteq> attachmentsRoot"
    using t by (auto simp: path_strings root_strings simp del: length_Cons list.size)
  show "\<not> isUnder attachmentsRoot q"
    using startsWith_shorter[OF s, of "''/userData/attachments/''"]
    by (auto simp: isUnder_def root_strings)
  show "\<not> isUnder tempRoot q"
    using startsWith_shorter[OF s, of "''/tmp/edisconotes-decrypted/''"]
    by (auto simp: isUnder_def root_strings)
qed

lemma copyEntries_tof: "tempOpenFiles (snd (copyEntries w src dst es)) = tempOpenFiles w"
proof (induction es arbitrary: w)
  case Nil
  show ?case by simp
next
  case (Cons e es)
  show ?case
  proof (cases "writeFileSync w (dst @ drop (length src) (fst e)) (snd e)")
    case (Inl err)
    then show ?thesis by simp
  next
    case (Inr w1)
    then have t: "tempOpenFiles w1 = tempOpenFiles w"
      by (auto simp: writeFileSync_def split: if_splits)
    show ?thesis
      using Inr Cons.IH[of w1] t
      by (cases "copyEntries w1 src dst es") (auto split: sum.splits)
  qed
qed

lemma copyDirRecursive_tof: "tempOpenFiles (snd (copyDirRecursive w src dst)) = tempOpenFiles w"
  by (simp add: copyDirRecursive_def copyEntries_tof)

lemma copyDirRecursive_tof':
  "copyDirRecursive w src dst = (r, w') \<Longrightarrow> tempOpenFiles w' = tempOpenFiles w"
  using copyDirRecursive_tof[of w src dst] by simp

lemma writeFileSync_tof: "writeFileSync w p d = Inr w' \<Longrightarrow> tempOpenFiles w' = tempOpenFiles w"
  by (auto simp: writeFileSync_def split: if_splits)

lemma copyFileSync_tof: "copyFileSync w s d = Inr w' \<Longrightarrow> tempOpenFiles w' = tempOpenFiles w"
  by (auto simp: copyFileSync_def writeFileSync_def split: if_splits sum.splits)

lemma writeFileSync_frame:
  "writeFileSync w p d = Inr w' \<Longrightarrow> q \<noteq> p \<Longrightarrow> map_of (files w') q = map_of (files w) q"
  by (auto simp: writeFileSync_def map_of_fsWrite split: if_splits)

lemma writeFileSync_written:
  "writeFileSync w p d = Inr w' \<Longrightarrow> map_of (files w') p = Some d"
  by (auto simp: writeFileSync_def map_of_fsWrite split: if_splits)

lemma copyFileSync_frame:
  "copyFileSync w s d = Inr w' \<Longrightarrow> q \<noteq> d \<Longrightarrow> map_of (files w') q = map_of (files w) q"
  by (auto simp: copyFileSync_def writeFileSync_frame split: sum.splits)

lemma rmSyncRecursive_frame:
  "rmSyncRecursive w dir = Inr w' \<Longrightarrow> q \<noteq> dir \<Longrightarrow> \<not> isUnder dir q \<Longrightarrow>
   map_of (files w') q = map_of (files w) q"
  by (auto simp: rmSyncRecursive_def map_of_fsRemoveTree split: if_splits)

lemma persistDbInternal_tof':
  "persistDbInternal L w = (r, w') \<Longrightarrow> tempOpenFiles w' = tempOpenFiles w"
  using persistDbInternal_tof[of L w] by simp

lemma createLocalSnapshot_result:
  assumes cs: "createLocalSnapshot L why w = (sn, w')"
  shows "tempOpenFiles w' = tempOpenFiles w"
    and "\<And>m. sn = Inr m \<Longrightarrow> reason m = (if why = [] then ''manual'' else why)
                 \<and> map_of (files w') (manifestPath m) = Some (jsonManifest L m)"
proof -
  obtain r w1 where p: "(if db w \<noteq> None \<and> \<not> locked w then persistDbOrThrow L w else (Inr (), w))
      = (r, w1)"
    by (meson surj_pair)
  have t1: "tempOpenFiles w1 = tempOpenFiles w"
    using p persistDbInternal_tof[of L w] by (auto simp: persistDbOrThrow_def split: if_splits)
  note d = cs[unfolded createLocalSnapshot_def Let_def p prod.case]
  have "tempOpenFiles w' = tempOpenFiles w \<and>
     (\<forall>m. sn = Inr m \<longrightarrow> reason m = (if why = [] then ''manual'' else why)
                 \<and> map_of (files w') (manifestPath m) = Some (jsonManifest L m))"
  proof (cases r)
    case (Inl e)
    show ?thesis using d[unfolded Inl sum.case] t1 by auto
  next
    case (Inr u)
    note d2 = d[unfolded Inr sum.case]
    show ?thesis
    proof (cases "statusDbPath (getDatabaseFileStatus w1)")
      case None
      show ?thesis using d2[unfolded None option.case] t1 by auto
    next
      case (Some dbp)
      note d3 = d2[unfolded Some option.case]
      show ?thesis
      proof (cases "existsSync w1 dbp")
        case False
        then have ex: "existsSync w1 dbp = False" by simp
        show ?thesis using d3[unfolded ex not_False_eq_True if_True] t1 by auto
      next
        case True
        define sid where "sid = stampOf (nowIso L (draws w1)) @ ''-''
                             @ take 8 (randomUUID L (draws w1 + 1))"
        define w2 where "w2 = w1\<lparr>draws := draws w1 + 2\<rparr>"
        have t2: "tempOpenFiles w2 = tempOpenFiles w" by (simp add: w2_def t1)
        have ex: "existsSync w1 dbp = True" using True by simp
        note d4 = d3[unfolded ex not_True_eq_False if_False sid_def[symmetric]
            w2_def[symmetric]]
        show ?thesis
        proof (cases "copyFileSync w2 dbp (pathJoin (pathJoin snapshotsRoot sid) (basename dbp))")
          case (Inl e)
          show ?thesis using d4[unfolded Inl sum.case] t2 by auto
        next
          case c: (Inr w3)
          have t3: "tempOpenFiles w3 = tempOpenFiles w" using copyFileSync_tof[OF c] t2 by simp
          note d5 = d4[unfolded c sum.case]
          obtain r4 w4 where cd: "copyDirRecursive w3 attachmentsRoot
              (pathJoin (pathJoin snapshotsRoot sid) ''attachments'') = (r4, w4)"
            by (meson surj_pair)
          have t4: "tempOpenFiles w4 = tempOpenFiles w"
            using copyDirRecursive_tof'[OF cd] t3 by simp
          note d6 = d5[unfolded cd prod.case]
          show ?thesis
          proof (cases r4)
            case (Inl e)
            show ?thesis using d6[unfolded Inl sum.case] t4 by auto
          next
            case (Inr n)
            define M where "M = \<lparr>snapshotId = sid, createdAt = nowIso L (draws w4),
                                       reason = (if why = [] then ''manual'' else why),
                                       dbFileName = basename dbp,
                                       encryptedDatabase = statusEncrypted (getDatabaseFileStatus w1),
                                       attachmentFiles = n\<rparr>"
            define w5 where "w5 = w4\<lparr>draws := draws w4 + 1\<rparr>"
            have t5: "tempOpenFiles w5 = tempOpenFiles w" by (simp add: w5_def t4)
            have mp: "manifestPath M = pathJoin (pathJoin snapshotsRoot sid) ''manifest.json''"
              by (simp add: manifestPath_def M_def)
            have rm: "reason M = (if why = [] then ''manual'' else why)" by (simp add: M_def)
            note d7 = d6[unfolded Inr sum.case M_def[symmetric] w5_def[symmetric]]
            show ?thesis
            proof (cases "writeFileSync w5 (pathJoin (pathJoin snapshotsRoot sid) ''manifest.json'')
                             (jsonManifest L M)")
              case (Inl e)
              show ?thesis using d7[unfolded Inl sum.case] t5 by auto
            next
              case wr: (Inr w6)
              have "sn = Inr M" "w' = w6" using d7[unfolded wr sum.case] by auto
              then show ?thesis
                using writeFileSync_tof[OF wr] writeFileSync_written[OF wr] t5 mp rm by auto
            qed
          qed
        qed
      qed
    qed
  qed
  then show "tempOpenFiles w' = tempOpenFiles w"
    and "\<And>m. sn = Inr m \<Longrightarrow> reason m = (if why = [] then ''manual'' else why)
                 \<and> map_of (files w') (manifestPath m) = Some (jsonManifest L m)"
    by auto
qed


lemma manifestPath_under: "isUnder snapshotsRoot (manifestPath m)"
  by (simp add: manifestPath_def isUnder_def startsWith_def pathJoin_def)

lemma restore_snapshot_props:
  assumes src: "resolveBackupDatabaseSource w backupDir = Some source"
    and snap: "createLocalSnapshot L (''pre-restore:'' @ why) w = (sn, w1)"
    and q: "isUnder snapshotsRoot q"
  shows "(q \<notin> set (tempOpenFiles w) \<longrightarrow>
          map_of (files (snd (restoreFromBackupFolder L backupDir why w))) q = map_of (files w1) q)
       \<and> (\<forall>r w'. restoreFromBackupFolder L backupDir why w = (Inr r, w') \<longrightarrow>
            ok r \<and> preRestoreSnapshotId r
                    = (case sn of Inl e \<Rightarrow> None | Inr m \<Rightarrow> Some (snapshotId m)))"
proof -
  note pf = snapshot_path_facts[OF q]
  define G where "G = (q \<notin> set (tempOpenFiles w))"
  have t1: "G \<longrightarrow> q \<notin> set (tempOpenFiles w1)"
    using createLocalSnapshot_result(1)[OF snap] by (simp add: G_def)
  define w2 where "w2 = snd (lockVault L w1)"
  define w3 where "w3 = tryUnlink w2 dbEncPath"
  define w4 where "w4 = tryUnlink w3 dbPlainPath"
  define tgt where "tgt = (if restoreToEncrypted source then dbEncPath else dbPlainPath)"
  have f2: "G \<longrightarrow> map_of (files w2) q = map_of (files w1) q"
    unfolding w2_def using pf t1 by (simp add: lockVault_frame)
  have f4: "G \<longrightarrow> map_of (files w4) q = map_of (files w1) q"
    unfolding w4_def w3_def using pf f2 by (simp add: tryUnlink_frame)
  have qt: "q \<noteq> tgt" using pf by (simp add: tgt_def)
  have r: "restoreFromBackupFolder L backupDir why w =
     (case copyFileSync w4 (dbSourcePath source) tgt of
                Inl e \<Rightarrow> (Inl e, w4)
              | Inr w5 \<Rightarrow>
                  (case (if existsSync w5 attachmentsRoot
                         then rmSyncRecursive w5 attachmentsRoot else Inr w5) of
                     Inl e \<Rightarrow> (Inl e, w5)
                   | Inr w6 \<Rightarrow>
                       (case copyDirRecursive w6 (pathJoin backupDir ''attachments'')
                               attachmentsRoot of
                          (Inl e, w7) \<Rightarrow> (Inl e, w7)
                        | (Inr n, w7) \<Rightarrow>
                            (let existingMeta = (case readFileSync w7 backupMetaPath of
                                                   Inl e \<Rightarrow> None | Inr bs \<Rightarrow> Some bs);
                                 w8 = w7\<lparr>draws := draws w7 + 1\<rparr>
                             in case writeFileSync w8 backupMetaPath
                                       (jsonBackupMeta L existingMeta (nowIso L (draws w7))
                                          backupDir) of
                                  Inl e \<Rightarrow> (Inl e, w8)
                                | Inr w9 \<Rightarrow>
                                    (Inr \<lparr>ok = True, restoredAttachments = n,
                                          preRestoreSnapshotId =
                                            (case sn of Inl e \<Rightarrow> None
                                             | Inr m \<Rightarrow> Some (snapshotId m))\<rparr>, w9)))))"
    by (simp only: restoreFromBackupFolder_def src option.case Let_def snap prod.case
        w2_def w3_def w4_def tgt_def)
  have "(G \<longrightarrow>
          map_of (files (snd (restoreFromBackupFolder L backupDir why w))) q = map_of (files w1) q)
       \<and> (\<forall>r w'. restoreFromBackupFolder L backupDir why w = (Inr r, w') \<longrightarrow>
            ok r \<and> preRestoreSnapshotId r
                    = (case sn of Inl e \<Rightarrow> None | Inr m \<Rightarrow> Some (snapshotId m)))"
  proof (cases "copyFileSync w4 (dbSourcePath source) tgt")
    case (Inl e)
    then show ?thesis using r f4 by simp
  next
    case c5: (Inr w5)
    have f5: "G \<longrightarrow> map_of (files w5) q = map_of (files w1) q"
      using copyFileSync_frame[OF c5 qt] f4 by simp
    show ?thesis
    proof (cases "if existsSync w5 attachmentsRoot
                         then rmSyncRecursive w5 attachmentsRoot else Inr w5")
      case (Inl e)
      then show ?thesis using r c5 f5 by simp
    next
      case c6: (Inr w6)
      have f6: "G \<longrightarrow> map_of (files w6) q = map_of (files w1) q"
        using c6 f5 pf by (auto dest: rmSyncRecursive_frame split: if_splits)
      obtain r7 w7 where c7: "copyDirRecursive w6 (pathJoin backupDir ''attachments'')
          attachmentsRoot = (r7, w7)"
        by (cases "copyDirRecursive w6 (pathJoin backupDir ''attachments'') attachmentsRoot")
      have f7: "G \<longrightarrow> map_of (files w7) q = map_of (files w1) q"
        using copyDirRecursive_frame[of attachmentsRoot q w6 "pathJoin backupDir ''attachments''"]
          c7 pf f6 by simp
      show ?thesis
      proof (cases r7)
        case (Inl e)
        then show ?thesis using r c5 c6 c7 f7 by simp
      next
        case (Inr n)
        show ?thesis
          using r c5 c6 c7 f7 Inr pf(5)
          by (auto simp: Let_def dest!: writeFileSync_frame[where q = q] split: sum.splits)
      qed
    qed
  qed
  then show ?thesis by (simp only: G_def)
qed

subsection \<open>Two restores, evaluated\<close>

lemmas fs_eval = existsSync_def fsTree_def isUnder_def startsWith_def copyFileSync_def
  readFileSync_def writeFileSync_def fsWrite_def fsRemove_def copyDirRecursive_def pathJoin_def
  path_strings root_strings Let_def

lemma restore_example_source: "resolveBackupDatabaseSource restoreWorld ''/backup'' \<noteq> None"
  by (simp add: resolveBackupDatabaseSource_def restoreWorld_def fs_eval)

lemma elsewhere_example: "resolveBackupDatabaseSource restoreWorld ''/elsewhere'' = None"
  by (simp add: resolveBackupDatabaseSource_def restoreWorld_def fs_eval)

lemma restore_example_snapshot:
  "fst (createLocalSnapshot refPlatform ''pre-restore:backup'' restoreWorld) = Inr exampleManifest"
  by (simp add: createLocalSnapshot_def restoreWorld_def getDatabaseFileStatus_def candidates_eq
      fs_eval basename_def stampOf_def ref_sel refRandomUUID_def hexDigit_def exampleManifest_def)



lemma restore_example_src:
  "resolveBackupDatabaseSource restoreWorld ''/backup''
     = Some \<lparr>dbSourcePath = ''/backup/edisconotes.sqlite.enc'', restoreToEncrypted = True\<rparr>"
  by (simp add: resolveBackupDatabaseSource_def restoreWorld_def fs_eval basename_def)

lemma restore_example_snap:
  "createLocalSnapshot refPlatform ''pre-restore:backup'' restoreWorld
     = (Inr exampleManifest, snapWorld)"
  by (simp add: createLocalSnapshot_def restoreWorld_def getDatabaseFileStatus_def candidates_eq
      fs_eval basename_def stampOf_def ref_sel refRandomUUID_def hexDigit_def exampleManifest_def
      snapWorld_def)

lemma lock_locked:
  "db w = None \<Longrightarrow> locked w \<Longrightarrow> vault w = None \<Longrightarrow> tempOpenFiles w = [] \<Longrightarrow>
   fsTree (files w) tempRoot = [] \<Longrightarrow> snd (lockVault L w) = w"
  by (simp add: lockVault_def tryCleanupTempFiles_def)

lemma snap_lock: "snd (lockVault refPlatform snapWorld) = snapWorld"
  by (rule lock_locked) (simp_all add: snapWorld_def fs_eval)

lemma snap_unlink:
  "tryUnlink (tryUnlink snapWorld dbEncPath) dbPlainPath
     = snapWorld\<lparr>files :=
      [(''/userData/snapshots/2026-01-01T00-00-00-00000000/manifest.json'',
          ascii ''pre-restore:backup''),
       (''/userData/snapshots/2026-01-01T00-00-00-00000000/attachments/p/a.txt'', [5]),
       (''/userData/snapshots/2026-01-01T00-00-00-00000000/edisconotes.sqlite.enc'',
          exampleEnvelope refPlatform),
       (''/userData/attachments/p/a.txt'', [5]), (''/backup/edisconotes.sqlite.enc'', [9])]\<rparr>"
  by (simp add: snapWorld_def tryUnlink_def unlinkSync_def fs_eval)


lemma restore_example_run:
  "restoreFromBackupFolder refPlatform ''/backup'' ''backup'' restoreWorld
     = (Inr \<lparr>ok = True, restoredAttachments = 0,
             preRestoreSnapshotId = Some ''2026-01-01T00-00-00-00000000''\<rparr>,
        snapWorld\<lparr>files :=
      [(''/userData/backup-meta.json'', ascii ''/backup''),
       (''/userData/edisconotes.sqlite.enc'', [9]),
       (''/userData/snapshots/2026-01-01T00-00-00-00000000/manifest.json'',
          ascii ''pre-restore:backup''),
       (''/userData/snapshots/2026-01-01T00-00-00-00000000/attachments/p/a.txt'', [5]),
       (''/userData/snapshots/2026-01-01T00-00-00-00000000/edisconotes.sqlite.enc'',
          exampleEnvelope refPlatform),
       (''/backup/edisconotes.sqlite.enc'', [9])], draws := 4\<rparr>)"
  apply (simp only: restoreFromBackupFolder_def restore_example_src option.case append.simps
      restore_example_snap Let_def prod.case snap_lock snap_unlink sum.case)
  apply (simp add: snapWorld_def fs_eval rmSyncRecursive_def fsRemoveTree_def ref_sel
      exampleManifest_def)
  done

lemma no_snapshot_src:
  "resolveBackupDatabaseSource noSnapshotWorld ''/backup''
     = Some \<lparr>dbSourcePath = ''/backup/edisconotes.sqlite.enc'', restoreToEncrypted = True\<rparr>"
  by (simp add: resolveBackupDatabaseSource_def noSnapshotWorld_def restoreWorld_def fs_eval
      basename_def)

lemma no_snapshot_snap:
  "createLocalSnapshot refPlatform ''pre-restore:backup'' noSnapshotWorld
     = (Inl IOFailure, noSnapshotWorld\<lparr>draws := 2\<rparr>)"
  by (simp add: createLocalSnapshot_def noSnapshotWorld_def restoreWorld_def
      getDatabaseFileStatus_def candidates_eq fs_eval basename_def stampOf_def ref_sel
      refRandomUUID_def hexDigit_def)

lemma no_snapshot_lock:
  "snd (lockVault refPlatform (noSnapshotWorld\<lparr>draws := 2\<rparr>)) = noSnapshotWorld\<lparr>draws := 2\<rparr>"
  by (rule lock_locked) (simp_all add: noSnapshotWorld_def restoreWorld_def fs_eval)

lemma no_snapshot_unlink:
  "tryUnlink (tryUnlink (noSnapshotWorld\<lparr>draws := 2\<rparr>) dbEncPath) dbPlainPath
     = noSnapshotWorld\<lparr>draws := 2, files :=
        [(''/userData/attachments/p/a.txt'', [5]), (''/backup/edisconotes.sqlite.enc'', [9])]\<rparr>"
  by (simp add: noSnapshotWorld_def restoreWorld_def tryUnlink_def unlinkSync_def fs_eval)

lemma no_snapshot_run:
  "restoreFromBackupFolder refPlatform ''/backup'' ''backup'' noSnapshotWorld
     = (Inr \<lparr>ok = True, restoredAttachments = 0, preRestoreSnapshotId = None\<rparr>,
        noSnapshotWorld\<lparr>draws := 3, files :=
          [(''/userData/backup-meta.json'', ascii ''/backup''),
           (''/userData/edisconotes.sqlite.enc'', [9]),
           (''/backup/edisconotes.sqlite.enc'', [9])]\<rparr>)"
  apply (simp only: restoreFromBackupFolder_def no_snapshot_src option.case append.simps
      no_snapshot_snap Let_def prod.case no_snapshot_lock no_snapshot_unlink sum.case)
  apply (simp add: noSnapshotWorld_def restoreWorld_def fs_eval rmSyncRecursive_def
      fsRemoveTree_def ref_sel)
  done


section \<open>The handlers and the refusals of the file system\<close>






lemma existsSync_denied [simp]: "existsSync (w\<lparr>denied := dn\<rparr>) p = existsSync w p"
  by (simp add: existsSync_def)












section \<open>The claims about the codec\<close>

text \<open>
  Claim C1 (seal/open round trip). With a cipher that gives back what it encrypted, a
  16-byte tag and a ciphertext as long as the plaintext, and key material \<open>v\<close> derived
  from the passphrase: opening the database envelope sealed from any buffer \<open>b\<close>, the
  empty one included, returns \<open>b\<close> and the same key material, and opening the
  attachment envelope sealed from a non-empty \<open>b\<close> returns \<open>b\<close>. On the empty buffer
  the attachment codec does not do what the claim asks: \<^verbatim>\<open>sealFileBytes\<close> accepts it
  and returns an envelope of 37 bytes, and \<^verbatim>\<open>openFileBytes\<close>, which asks for at least
  38, refuses that envelope as too small. The writer and the reader of one format
  disagree; the database codec, which has no such extra byte in its minimum, does not.
\<close>

theorem seal_open_roundtrip:
  assumes "gcm_roundtrip L" and "gcm_tag_len L" and "gcm_ct_len L"
    and "valid_key_material v"
    and "deriveKeysFromPassphrase L passphrase (kdfSalt v) (kdfParams v) = Inr v"
    and "length iv = IV_LEN"
  shows "(\<exists>e. sealDatabaseBytes L b (Some v) iv = Inr e
              \<and> openVaultFromDatabaseEnvelope L e passphrase = Inr (b, v))
       \<and> (b \<noteq> [] \<longrightarrow> openFileBytes L (sealFileBytes L b (fileKey v) iv) (fileKey v) = Inr b)
       \<and> (b = [] \<longrightarrow>
            openFileBytes L (sealFileBytes L b (fileKey v) iv) (fileKey v) = Inl FileTooSmall)"
  using assms open_sealed_database[of L v passphrase iv b]
    open_sealed_file[of L iv b "fileKey v"] open_sealed_empty_file[of L iv "fileKey v"]
  by blast

theorem seal_open_roundtrip_witness:
  "gcm_roundtrip refPlatform \<and> gcm_tag_len refPlatform \<and> gcm_ct_len refPlatform
   \<and> valid_key_material exampleVault
   \<and> deriveKeysFromPassphrase refPlatform examplePassphrase (kdfSalt exampleVault)
        (kdfParams exampleVault) = Inr exampleVault
   \<and> length exampleIv = IV_LEN
   \<and> (\<exists>e. sealDatabaseBytes refPlatform [] (Some exampleVault) exampleIv = Inr e
          \<and> openVaultFromDatabaseEnvelope refPlatform e examplePassphrase
              = Inr ([], exampleVault))
   \<and> openFileBytes refPlatform
        (sealFileBytes refPlatform [104, 105] (fileKey exampleVault) exampleIv)
        (fileKey exampleVault) = Inr [104, 105]"
proof -
  have d: "deriveKeysFromPassphrase refPlatform examplePassphrase (kdfSalt exampleVault)
             (kdfParams exampleVault) = Inr exampleVault"
    using example_derive_ref by (simp add: exampleVault_def)
  have ne: "[104, 105] \<noteq> ([] :: bytes)" by simp
  show ?thesis
    using seal_open_roundtrip[OF ref_roundtrip ref_tag_len ref_ct_len example_valid d
        example_iv_len, of "[]"]
      seal_open_roundtrip[OF ref_roundtrip ref_tag_len ref_ct_len example_valid d
        example_iv_len, of "[104, 105]"]
      ref_roundtrip ref_tag_len ref_ct_len example_valid d example_iv_len ne
    by blast
qed

text \<open>
  The failing input of claim C1: the empty attachment, sealed and opened again with the
  same file key, is an error and not the empty buffer.
\<close>

theorem seal_open_empty_file_counterexample:
  "openFileBytes refPlatform (sealFileBytes refPlatform [] (fileKey exampleVault) exampleIv)
     (fileKey exampleVault) = Inl FileTooSmall
   \<and> openFileBytes refPlatform (sealFileBytes refPlatform [] (fileKey exampleVault) exampleIv)
     (fileKey exampleVault) \<noteq> Inr []"
  by (simp add: open_sealed_empty_file[OF ref_tag_len ref_ct_len example_iv_len])

text \<open>
  Claim C4 (the header is authenticated), as the code has it. A sealed database
  envelope \<open>e\<close> is the header, the tag and the ciphertext, and the tag is made with the
  first 37 bytes of \<open>e\<close> (magic, version, \<open>N\<close>, \<open>r\<close>, \<open>p\<close>, salt) as associated data.
  Change one byte of the cost parameters or of the salt (offsets 9 to 36). Opening the
  changed envelope derives the key from the changed salt and parameters and fails with
  the key derivation's error when that refuses them; otherwise it hands the decipher
  the stored tag and ciphertext with the changed 37 bytes as associated data, which are
  not the ones the tag was made under, and fails with the authentication error when the
  decipher rejects them. It returns a plaintext only if the decipher itself accepts the
  tag under the changed associated data.
\<close>

theorem header_tamper_rejected:
  assumes "gcm_tag_len L"
    and "valid_key_material v" and "length iv = IV_LEN"
    and "sealDatabaseBytes L b (Some v) iv = Inr e"
    and "9 \<le> i" and "i < 37" and "x \<noteq> e ! i"
  shows "e = buildDbHeader (kdfParams v) (kdfSalt v) iv
             @ snd (gcmEncrypt L (dbKey v) iv (take 37 e) b)
             @ fst (gcmEncrypt L (dbKey v) iv (take 37 e) b)
     \<and> take 37 e = DB_MAGIC @ [of_nat DB_VERSION] @ u32 (kdfN (kdfParams v))
                      @ u32 (kdfR (kdfParams v)) @ u32 (kdfP (kdfParams v)) @ kdfSalt v
     \<and> take 37 (e[i := x]) \<noteq> take 37 e
     \<and> openVaultFromDatabaseEnvelope L (e[i := x]) passphrase =
         (case deriveKeysFromPassphrase L passphrase (subarray (e[i := x]) 21 37)
                 \<lparr>kdfN = the (readU32 (e[i := x]) 9), kdfR = the (readU32 (e[i := x]) 13),
                  kdfP = the (readU32 (e[i := x]) 17)\<rparr> of
            Inl err \<Rightarrow> Inl err
          | Inr v' \<Rightarrow>
              (case gcmDecrypt L (dbKey v') iv (take 37 (e[i := x]))
                      (snd (gcmEncrypt L (dbKey v) iv (take 37 e) b))
                      (fst (gcmEncrypt L (dbKey v) iv (take 37 e) b)) of
                 None \<Rightarrow> Inl AuthFailed
               | Some pt \<Rightarrow> Inr (pt, v')))"
proof -
  define e' where "e' = e[i := x]"
  define ps where "ps = kdfParams v"
  define salt where "salt = kdfSalt v"
  define aad where "aad = take 37 (buildDbHeader ps salt iv)"
  define ct where "ct = fst (gcmEncrypt L (dbKey v) iv aad b)"
  define tag where "tag = snd (gcmEncrypt L (dbKey v) iv aad b)"
  have ls: "length salt = 16"
    using assms(2) by (simp add: valid_key_material_def salt_def codec_consts)
  have liv: "length iv = 12" using assms(3) by (simp add: codec_consts)
  have lt: "length tag = 16" using assms(1) by (simp add: gcm_tag_len_def tag_def codec_consts)
  have e: "e = buildDbHeader ps salt iv @ tag @ ct"
    using assms(4) sealDatabaseBytes_layout[of v iv L b] ls liv
    by (simp add: tag_def ct_def aad_def salt_def ps_def)
  have lh: "length (buildDbHeader ps salt iv) = 49"
    by (simp add: length_buildDbHeader ls liv)
  have len: "65 \<le> length e'" by (simp add: e'_def e lh lt)
  have e_magic: "take 8 e = DB_MAGIC"
    using length_DB_MAGIC by (simp add: e buildDbHeader_def)
  have e_ver: "e ! 8 = 1"
    by (simp add: e buildDbHeader_def nth_append length_DB_MAGIC codec_consts)
  have magic: "take 8 e' = DB_MAGIC" using assms(5) e_magic by (simp add: e'_def)
  have ver: "e' ! 8 = 1" using assms(5) e_ver by (simp add: e'_def)
  have tail: "drop 37 e' = drop 37 e" using assms(6) by (simp add: e'_def)
  have d_iv: "take 12 (drop 37 e') = iv"
    unfolding tail by (simp add: e buildDbHeader_def length_DB_MAGIC length_u32 ls liv)
  have d_tag: "take 16 (drop 49 e') = tag"
  proof -
    have "drop 49 e' = drop 12 (drop 37 e')" by simp
    then show ?thesis unfolding tail by (simp add: e lh lt)
  qed
  have d_ct: "drop 65 e' = ct"
  proof -
    have "drop 65 e' = drop 28 (drop 37 e')" by simp
    then show ?thesis unfolding tail by (simp add: e lh lt)
  qed
  have a_old: "take 37 e = aad" by (simp add: e aad_def lh)
  have a_fields: "aad = DB_MAGIC @ [of_nat DB_VERSION] @ u32 (kdfN ps) @ u32 (kdfR ps)
                      @ u32 (kdfP ps) @ salt"
    by (simp add: aad_def buildDbHeader_def length_DB_MAGIC length_u32 ls)
  have "take 37 e' ! i = x" using assms(6) by (simp add: e'_def e lh)
  moreover have "take 37 e ! i = e ! i" using assms(6) by simp
  ultimately have neq: "take 37 e' \<noteq> take 37 e" using assms(7) by metis
  obtain n r p where n: "readU32 e' 9 = Some n" and r: "readU32 e' 13 = Some r"
    and p: "readU32 e' 17 = Some p"
    and op: "openVaultFromDatabaseEnvelope L e' passphrase =
       (case deriveKeysFromPassphrase L passphrase (take 16 (drop 21 e'))
               \<lparr>kdfN = n, kdfR = r, kdfP = p\<rparr> of
          Inl e \<Rightarrow> Inl e
        | Inr v \<Rightarrow>
            (case gcmDecrypt L (dbKey v) (take 12 (drop 37 e')) (take 37 e')
                    (take 16 (drop 49 e')) (drop 65 e') of
               None \<Rightarrow> Inl AuthFailed
             | Some pt \<Rightarrow> Inr (pt, v)))"
    using openVault_decode[OF len magic ver, of L passphrase] by blast
  have 1: "e = buildDbHeader (kdfParams v) (kdfSalt v) iv
             @ snd (gcmEncrypt L (dbKey v) iv (take 37 e) b)
             @ fst (gcmEncrypt L (dbKey v) iv (take 37 e) b)"
    unfolding a_old using e by (simp add: tag_def ct_def ps_def salt_def)
  have 2: "take 37 e = DB_MAGIC @ [of_nat DB_VERSION] @ u32 (kdfN (kdfParams v))
                      @ u32 (kdfR (kdfParams v)) @ u32 (kdfP (kdfParams v)) @ kdfSalt v"
    unfolding a_old a_fields by (simp add: ps_def salt_def)
  have 4: "openVaultFromDatabaseEnvelope L e' passphrase =
         (case deriveKeysFromPassphrase L passphrase (subarray e' 21 37)
                 \<lparr>kdfN = the (readU32 e' 9), kdfR = the (readU32 e' 13),
                  kdfP = the (readU32 e' 17)\<rparr> of
            Inl err \<Rightarrow> Inl err
          | Inr v' \<Rightarrow>
              (case gcmDecrypt L (dbKey v') iv (take 37 e')
                      (snd (gcmEncrypt L (dbKey v) iv (take 37 e) b))
                      (fst (gcmEncrypt L (dbKey v) iv (take 37 e) b)) of
                 None \<Rightarrow> Inl AuthFailed
               | Some pt \<Rightarrow> Inr (pt, v')))"
    unfolding a_old
    by (simp add: op n r p d_iv d_tag d_ct subarray_def tag_def[symmetric] ct_def[symmetric]
        split: sum.splits)
  show ?thesis using 1 2 neq 4 unfolding e'_def by blast
qed

theorem header_tamper_rejected_witness:
  "gcm_tag_len refPlatform \<and> valid_key_material exampleVault \<and> length exampleIv = IV_LEN
   \<and> sealDatabaseBytes refPlatform [1, 2, 3] (Some exampleVault) exampleIv
        = Inr (exampleEnvelope refPlatform)
   \<and> (9::nat) \<le> 21 \<and> (21::nat) < 37 \<and> 99 \<noteq> exampleEnvelope refPlatform ! 21
   \<and> take 37 ((exampleEnvelope refPlatform)[21 := 99]) \<noteq> take 37 (exampleEnvelope refPlatform)
   \<and> openVaultFromDatabaseEnvelope refPlatform ((exampleEnvelope refPlatform)[21 := 99])
        examplePassphrase = Inl AuthFailed"
proof -
  have s: "sealDatabaseBytes refPlatform [1, 2, 3] (Some exampleVault) exampleIv
             = Inr (exampleEnvelope refPlatform)"
    by (simp add: exampleEnvelope_def sealDatabaseBytes_def Let_def split_beta)
  have x: "99 \<noteq> exampleEnvelope refPlatform ! 21" by (simp add: example_envelope_bytes)
  have i1: "(9::nat) \<le> 21" and i2: "(21::nat) < 37" by simp_all
  note t = header_tamper_rejected[OF ref_tag_len example_valid example_iv_len s i1 i2 x,
      of examplePassphrase]
  define e' where "e' = (exampleEnvelope refPlatform)[21 := 99]"
  have rd: "readU32 e' 9 = Some 32768" "readU32 e' 13 = Some 8" "readU32 e' 17 = Some 1"
    "subarray e' 21 37 = [99, 2, 3, 4, 5, 6, 7, 8, 9, 10, 11, 12, 13, 14, 15, 16]"
    by (simp_all add: readU32_def e'_def example_envelope_bytes subarray_def)
  have d: "deriveKeysFromPassphrase refPlatform examplePassphrase (subarray e' 21 37)
             \<lparr>kdfN = the (readU32 e' 9), kdfR = the (readU32 e' 13),
              kdfP = the (readU32 e' 17)\<rparr>
           = Inr \<lparr>masterKey = replicate 32 116, dbKey = replicate 32 32,
                  fileKey = replicate 32 109,
                  kdfSalt = [99, 2, 3, 4, 5, 6, 7, 8, 9, 10, 11, 12, 13, 14, 15, 16],
                  kdfParams = DEFAULT_SCRYPT_PARAMS\<rparr>"
    using tampered_salt_derive by (simp add: rd DEFAULT_SCRYPT_PARAMS_def)
  have o: "openVaultFromDatabaseEnvelope refPlatform ((exampleEnvelope refPlatform)[21 := 99])
          examplePassphrase = Inl AuthFailed"
    using t d tampered_salt_rejected unfolding e'_def by simp
  have n: "take 37 ((exampleEnvelope refPlatform)[21 := 99])
             \<noteq> take 37 (exampleEnvelope refPlatform)"
    using t by blast
  show ?thesis
    using ref_tag_len example_valid example_iv_len s i1 i2 x n o by blast
qed

text \<open>
  Claim C4 as stated fails where it names the error: with the lowest byte of \<open>N\<close>
  changed from 0 to 1 the cost is 32769, which the key derivation refuses, and the open
  fails with that error before any data is authenticated.
\<close>

theorem header_tamper_kdf_error_counterexample:
  "sealDatabaseBytes refPlatform [1, 2, 3] (Some exampleVault) exampleIv
     = Inr (exampleEnvelope refPlatform)
   \<and> exampleEnvelope refPlatform ! 12 = 0
   \<and> openVaultFromDatabaseEnvelope refPlatform ((exampleEnvelope refPlatform)[12 := 1])
        examplePassphrase = Inl KdfFailed"
proof -
  have s: "sealDatabaseBytes refPlatform [1, 2, 3] (Some exampleVault) exampleIv
             = Inr (exampleEnvelope refPlatform)"
    by (simp add: exampleEnvelope_def sealDatabaseBytes_def Let_def split_beta)
  have env: "exampleEnvelope refPlatform =
      DB_MAGIC @ [1, 0, 0, 128, 0, 0, 0, 0, 8, 0, 0, 0, 1] @ exampleSalt @ exampleIv
        @ snd (refGcmEncrypt (dbKey exampleVault) exampleIv
                 (DB_MAGIC @ [1, 0, 0, 128, 0, 0, 0, 0, 8, 0, 0, 0, 1] @ exampleSalt) [1, 2, 3])
        @ fst (refGcmEncrypt (dbKey exampleVault) exampleIv
                 (DB_MAGIC @ [1, 0, 0, 128, 0, 0, 0, 0, 8, 0, 0, 0, 1] @ exampleSalt) [1, 2, 3])"
    by (simp add: exampleEnvelope_def sealDatabaseBytes_def Let_def split_beta
        aesGcmEncrypt_def refPlatform_def buildDbHeader_def u32_def
        exampleVault_def DEFAULT_SCRYPT_PARAMS_def subarray_def alloc_def codec_consts
        length_DB_MAGIC exampleSalt_def)
  define e' where "e' = (exampleEnvelope refPlatform)[12 := 1]"
  have e': "e' = DB_MAGIC @ [1, 0, 0, 128, 1, 0, 0, 0, 8, 0, 0, 0, 1] @ exampleSalt @ exampleIv
        @ snd (refGcmEncrypt (dbKey exampleVault) exampleIv
                 (DB_MAGIC @ [1, 0, 0, 128, 0, 0, 0, 0, 8, 0, 0, 0, 1] @ exampleSalt) [1, 2, 3])
        @ fst (refGcmEncrypt (dbKey exampleVault) exampleIv
                 (DB_MAGIC @ [1, 0, 0, 128, 0, 0, 0, 0, 8, 0, 0, 0, 1] @ exampleSalt) [1, 2, 3])"
    by (simp add: e'_def env DB_MAGIC_def ascii_def)
  have len: "65 \<le> length e'"
    by (simp add: e' length_DB_MAGIC exampleSalt_def exampleIv_def refGcmEncrypt_def Let_def)
  have magic: "take 8 e' = DB_MAGIC" using length_DB_MAGIC by (simp add: e')
  have ver: "e' ! 8 = 1" by (simp add: e' nth_append length_DB_MAGIC)
  have n: "readU32 e' 9 = Some 32769"
    using len by (simp add: readU32_def) (simp add: e' nth_append length_DB_MAGIC)
  have nopow: "\<not> list_ex (\<lambda>k. (32769::nat) = 2 ^ k) [1 ..< 32]"
  proof
    assume "list_ex (\<lambda>k. (32769::nat) = 2 ^ k) [1 ..< 32]"
    then obtain k :: nat where k: "(32769::nat) = 2 ^ k" and "1 \<le> k"
      unfolding list_ex_iff by auto
    then obtain j where "k = Suc j" by (cases k) auto
    with k have "(32769::nat) = 2 * 2 ^ j" by simp
    then have "even (32769::nat)" by (metis dvd_triv_left)
    then show False by simp
  qed
  have kdf: "deriveKeysFromPassphrase refPlatform examplePassphrase salt
               \<lparr>kdfN = 32769, kdfR = r, kdfP = p\<rparr> = Inl KdfFailed" for salt r p
    using nopow
    by (simp add: deriveKeysFromPassphrase_def refPlatform_def refScryptSync_def Let_def)
  have "openVaultFromDatabaseEnvelope refPlatform e' examplePassphrase = Inl KdfFailed"
    using openVault_decode[OF len magic ver, of refPlatform examplePassphrase]
    by (auto simp: n kdf)
  moreover have "exampleEnvelope refPlatform ! 12 = 0"
    by (simp add: env nth_append length_DB_MAGIC)
  ultimately show ?thesis using s by (simp add: e'_def)
qed

text \<open>
  Claim C9 (passphrase normalisation), as the code has it. The passphrase is normalised
  with the form NFKC, compatibility composition, before key stretching. Two passphrases
  with the same NFKC form derive the same key material for the same salt and cost
  parameters; canonically equivalent passphrases (those with the same canonical
  decomposition NFD) are among them, since NFKC does not tell apart a string from its
  canonical decomposition.
\<close>

theorem passphrase_normalized_nfkc:
  "normalizePassphrase L (JsString s) = normalize L NFKC s
   \<and> (normalize L NFKC s1 = normalize L NFKC s2 \<longrightarrow>
        deriveKeysFromPassphrase L (JsString s1) salt params
          = deriveKeysFromPassphrase L (JsString s2) salt params)
   \<and> ((\<forall>t. normalize L NFKC (normalize L NFD t) = normalize L NFKC t) \<longrightarrow>
        normalize L NFD s1 = normalize L NFD s2 \<longrightarrow>
        deriveKeysFromPassphrase L (JsString s1) salt params
          = deriveKeysFromPassphrase L (JsString s2) salt params)"
proof (intro conjI impI)
  show "normalizePassphrase L (JsString s) = normalize L NFKC s"
    by (simp add: normalizePassphrase_def)
  show "deriveKeysFromPassphrase L (JsString s1) salt params
          = deriveKeysFromPassphrase L (JsString s2) salt params"
    if "normalize L NFKC s1 = normalize L NFKC s2"
    using that by (simp add: deriveKeysFromPassphrase_def normalizePassphrase_def)
  show "deriveKeysFromPassphrase L (JsString s1) salt params
          = deriveKeysFromPassphrase L (JsString s2) salt params"
    if law: "\<forall>t. normalize L NFKC (normalize L NFD t) = normalize L NFKC t"
      and eq: "normalize L NFD s1 = normalize L NFD s2"
  proof -
    have "normalize L NFKC s1 = normalize L NFKC (normalize L NFD s1)" using law by simp
    also have "\<dots> = normalize L NFKC s2" using law eq by simp
    finally show ?thesis
      by (simp add: deriveKeysFromPassphrase_def normalizePassphrase_def)
  qed
qed

theorem passphrase_normalized_nfkc_witness:
  "(\<forall>t. normalize refPlatform NFKC (normalize refPlatform NFD t) = normalize refPlatform NFKC t)
   \<and> normalize refPlatform NFD [0xE9] = normalize refPlatform NFD [0x65, 0x301]
   \<and> normalize refPlatform NFKC [0xE9] = normalize refPlatform NFKC [0x65, 0x301]
   \<and> deriveKeysFromPassphrase refPlatform (JsString [0xE9]) exampleSalt DEFAULT_SCRYPT_PARAMS
       = deriveKeysFromPassphrase refPlatform (JsString [0x65, 0x301]) exampleSalt
           DEFAULT_SCRYPT_PARAMS"
proof -
  have law: "\<forall>t. normalize refPlatform NFKC (normalize refPlatform NFD t)
                 = normalize refPlatform NFKC t"
    using ref_nfkc_of_nfd by blast
  have nfd: "normalize refPlatform NFD [0xE9] = normalize refPlatform NFD [0x65, 0x301]"
    by (simp add: refPlatform_def refNormalize_def decomposeFrag_def)
  have nfkc: "normalize refPlatform NFKC [0xE9] = normalize refPlatform NFKC [0x65, 0x301]"
    by (simp add: refPlatform_def refNormalize_def decomposeFrag_def compatFrag_def)
  show ?thesis
    using passphrase_normalized_nfkc[of refPlatform "[0xE9]" "[0xE9]" "[0x65, 0x301]"
        exampleSalt DEFAULT_SCRYPT_PARAMS] law nfd nfkc
    by blast
qed

text \<open>
  Claim C9 as stated fails where it names the form: the normalisation applied is not
  canonical composition. The ligature U+FB01 is its own canonical composition, and the
  code turns it into the two letters \<open>f\<close>, \<open>i\<close>.
\<close>

theorem passphrase_not_nfc_counterexample:
  "normalizePassphrase refPlatform (JsString [0xFB01]) = [0x66, 0x69]
   \<and> normalize refPlatform NFC [0xFB01] = [0xFB01]
   \<and> normalizePassphrase refPlatform (JsString [0xFB01]) \<noteq> normalize refPlatform NFC [0xFB01]"
  by (simp add: normalizePassphrase_def refPlatform_def refNormalize_def compatFrag_def
      decomposeFrag_def)


section \<open>The claims about the store\<close>

text \<open>
  Claim C5 (attachment envelope layout) holds for the store's streaming writer and not
  for the codec's \<^verbatim>\<open>sealFileBytes\<close>. Sealing the two bytes 5, 6 with the same key and the
  same nonce, the cipher gives the ciphertext 50, 51 and a tag ending in 187. The
  store's \<^verbatim>\<open>encryptAttachmentFile\<close> writes magic, version, nonce, ciphertext, tag;
  \<^verbatim>\<open>sealFileBytes\<close> returns magic, version, nonce, tag, ciphertext: its tag sits right
  after the header and its last 16 bytes are not the tag.
\<close>

theorem sealFileBytes_tag_follows_header:
  "gcmEncrypt refPlatform (fileKey exampleVault) (replicate 12 0) (FILE_MAGIC @ [1]) [5, 6]
     = ([50, 51], replicate 15 0 @ [187])
   \<and> map_of (files (snd (encryptAttachmentFile refPlatform ''/src/a.txt''
                          ''/userData/attachments/p/a.enc'' (fileKey exampleVault) sourceWorld)))
        ''/userData/attachments/p/a.enc''
       = Some (FILE_MAGIC @ [1] @ replicate 12 0 @ [50, 51] @ (replicate 15 0 @ [187]))
   \<and> sealFileBytes refPlatform [5, 6] (fileKey exampleVault) (replicate 12 0)
       = FILE_MAGIC @ [1] @ replicate 12 0 @ (replicate 15 0 @ [187]) @ [50, 51]
   \<and> drop (length (sealFileBytes refPlatform [5, 6] (fileKey exampleVault) (replicate 12 0)) - 16)
        (sealFileBytes refPlatform [5, 6] (fileKey exampleVault) (replicate 12 0))
       \<noteq> replicate 15 0 @ [187]"
proof -
  have g: "gcmEncrypt refPlatform (fileKey exampleVault) (replicate 12 0) (FILE_MAGIC @ [1]) [5, 6]
             = ([50, 51], replicate 15 0 @ [187])"
    by (simp add: ref_sel refGcmEncrypt_def Let_def exampleVault_def bsum_def FILE_MAGIC_def
        ascii_def keyByte_replicate sum_list_replicate)
  have s: "sealFileBytes refPlatform [5, 6] (fileKey exampleVault) (replicate 12 0)
             = FILE_MAGIC @ [1] @ replicate 12 0 @ (replicate 15 0 @ [187]) @ [50, 51]"
    using g by (simp add: sealFileBytes_layout FILE_VERSION_def)
  have e: "map_of (files (snd (encryptAttachmentFile refPlatform ''/src/a.txt''
                          ''/userData/attachments/p/a.enc'' (fileKey exampleVault) sourceWorld)))
        ''/userData/attachments/p/a.enc''
       = Some (FILE_MAGIC @ [1] @ replicate 12 0 @ [50, 51] @ (replicate 15 0 @ [187]))"
    using g
    by (simp add: encryptAttachmentFile_def Let_def sourceWorld_def unlockedWorld_def
        writeFileSync_def readFileSync_def renameSync_def map_of_fsWrite map_of_fsRemove
        ref_sel(2) codec_consts split_beta)
  have "drop (length (sealFileBytes refPlatform [5, 6] (fileKey exampleVault) (replicate 12 0)) - 16)
        (sealFileBytes refPlatform [5, 6] (fileKey exampleVault) (replicate 12 0))
       \<noteq> replicate 15 0 @ [187]"
    unfolding s by (simp add: length_FILE_MAGIC)
  with g s e show ?thesis by blast
qed




text \<open>
  Claim C10 (sources the attachment handler skips). A round of the handler's loop on a
  skipped source (an element that is no string or is empty, a path that is no regular
  file, a file over 1 GiB) raises nothing, pushes nothing and leaves the state as it
  was: no envelope, no row. And on an unlocked vault, with a valid project id and
  between 1 and 100 paths, none of them inside the project's own attachment directory,
  the handler returns normally, with the rows and the final state of the call with the
  skipped sources struck from the list.
\<close>

theorem attachmentsAdd_skips_sources:
  assumes "assertUnlocked w = Inr ()" and "isValidProjectId pid"
    and "ps \<noteq> []" and "length ps \<le> 100"
    and "\<And>p. Some p \<in> set ps \<Longrightarrow> \<not> isUnder (pathJoin attachmentsRoot pid) p"
  shows "(skippedSource w' sp \<longrightarrow> addOne L pid' dir' sp w' = ([], w'))
   \<and> (\<exists>dir. getSafeProjectAttachmentDir pid = Some dir \<and>
        attachmentsAdd L pid (Some ps) w =
          (case addLoop L pid dir (filter (\<lambda>sp. \<not> skippedSource w sp) ps) w of
             (inserted, w1) \<Rightarrow> (Inr inserted, persistDb L w1)))"
  using assms addLoop_filter[of ps "pathJoin attachmentsRoot pid" L pid w]
  by (simp add: attachmentsAdd_def assertUuid_def safeDir_valid addOne_skipped)

theorem attachmentsAdd_skips_sources_witness:
  "assertUnlocked sourceWorld = Inr () \<and> isValidProjectId exampleProjectId
   \<and> samplePaths \<noteq> [] \<and> length samplePaths \<le> 100
   \<and> list_all (\<lambda>sp. sp \<in> {None, Some []} \<or> startsWith (the sp) ''/src/'') samplePaths
   \<and> skippedSource sourceWorld (Some ''/src/big'')
   \<and> addOne refPlatform exampleProjectId (pathJoin attachmentsRoot exampleProjectId)
         (Some ''/src/big'') sourceWorld = ([], sourceWorld)
   \<and> fst (attachmentsAdd refPlatform exampleProjectId (Some samplePaths) sourceWorld)
       = Inr [Some \<lparr>attId = ''00000000-0000-4000-8000-000000000002'',
                     attProjectId = exampleProjectId, originalFileName = ''a.txt'',
                     storedFileName = ''00000000-0000-4000-8000-000000000000.txt.enc'',
                     storedRelativePath =
                       pathJoin exampleProjectId
                         ''00000000-0000-4000-8000-000000000000.txt.enc'',
                     sizeBytes = 2, addedAt = ''2026-01-01T00:00:03''\<rparr>]"
proof -
  have u: "assertUnlocked sourceWorld = Inr ()"
    by (simp add: assertUnlocked_def sourceWorld_def unlockedWorld_def)
  have n: "samplePaths \<noteq> []" and l: "length samplePaths \<le> 100"
    by (simp_all add: samplePaths_def)
  have big: "skippedSource sourceWorld (Some ''/src/big'')"
    by (simp add: skippedSource_def sourceWorld_def unlockedWorld_def length_bigFile)
  note t = attachmentsAdd_skips_sources[OF u valid_example_pid n l sample_outside,
      where L = refPlatform and w' = sourceWorld and sp = "Some ''/src/big''"
        and pid' = exampleProjectId and dir' = "pathJoin attachmentsRoot exampleProjectId"]
  have one: "addOne refPlatform exampleProjectId (pathJoin attachmentsRoot exampleProjectId)
         (Some ''/src/big'') sourceWorld = ([], sourceWorld)"
    using t big by blast
  obtain dir where d: "getSafeProjectAttachmentDir exampleProjectId = Some dir"
    and a: "attachmentsAdd refPlatform exampleProjectId (Some samplePaths) sourceWorld =
       (case addLoop refPlatform exampleProjectId dir
               (filter (\<lambda>sp. \<not> skippedSource sourceWorld sp) samplePaths) sourceWorld of
          (inserted, w1) \<Rightarrow> (Inr inserted, persistDb refPlatform w1))"
    using t by blast
  have dir: "dir = pathJoin attachmentsRoot exampleProjectId"
    using d safeDir_valid[OF valid_example_pid] by simp
  have "fst (attachmentsAdd refPlatform exampleProjectId (Some samplePaths) sourceWorld)
          = Inr (fst (addLoop refPlatform exampleProjectId
                         (pathJoin attachmentsRoot exampleProjectId)
                         [Some ''/src/a.txt''] sourceWorld))"
    by (simp add: a dir sample_filter split: prod.splits)
  then have "fst (attachmentsAdd refPlatform exampleProjectId (Some samplePaths) sourceWorld)
       = Inr [Some \<lparr>attId = ''00000000-0000-4000-8000-000000000002'',
                     attProjectId = exampleProjectId, originalFileName = ''a.txt'',
                     storedFileName = ''00000000-0000-4000-8000-000000000000.txt.enc'',
                     storedRelativePath =
                       pathJoin exampleProjectId
                         ''00000000-0000-4000-8000-000000000000.txt.enc'',
                     sizeBytes = 2, addedAt = ''2026-01-01T00:00:03''\<rparr>]"
    by (simp only: sample_loop)
  moreover have "list_all (\<lambda>sp. sp \<in> {None, Some []} \<or> startsWith (the sp) ''/src/'')
                   samplePaths"
    by (simp add: samplePaths_def startsWith_def)
  ultimately show ?thesis using u valid_example_pid n l big one by blast
qed


section \<open>The claims about persisting and unlocking\<close>

text \<open>
  Claim C2 (a halt during persist loses no envelope), as the code has it. Let persist
  start on an unlocked vault whose valid envelope is at the envelope path, on a file
  system that refuses no operation. The persist goes through six states. In each of the
  first five the old envelope is at the envelope path or at the backup path, and in all
  six the choice of source of a later unlock with the passphrase succeeds: it opens the
  envelope path first and falls back to the backup path. The last state is the one the
  complete persist ends in.
\<close>

theorem persist_crash_safe:
  assumes "gcm_roundtrip L" and "gcm_tag_len L"
    and "\<forall>k n. length (randomBytes L k n) = n"
    and "db w = Some d" and "\<not> locked w" and "vault w = Some v"
    and "valid_key_material v"
    and "deriveKeysFromPassphrase L pass (kdfSalt v) (kdfParams v) = Inr v"
    and "\<forall>p. \<not> denied w p"
    and "map_of (files w) dbEncPath = Some e"
    and "openVaultFromDatabaseEnvelope L e pass = Inr (b, v0)"
  shows "length (persistCrashStates L w) = 6
   \<and> (\<forall>k<5. map_of (files (persistCrashStates L w ! k)) dbEncPath = Some e
            \<or> map_of (files (persistCrashStates L w ! k)) bakPath = Some e)
   \<and> (\<forall>w' \<in> set (persistCrashStates L w).
         \<exists>r w''. unlockSelectSource L pass w' = (Inr r, w''))
   \<and> snd (persistDbInternal L w) = last (persistCrashStates L w)"
proof -
  obtain env w0 w1 w2 w3 w4 w5 where
      st: "persistCrashStates L w = [w0, w1, w2, w3, w4, w5]"
    and pi: "persistDbInternal L w = (Inr (), w5)"
    and op: "openVaultFromDatabaseEnvelope L env pass = Inr (sqlExport L d, v)"
    and m0: "map_of (files w0) dbEncPath = Some e"
    and m1: "map_of (files w1) dbEncPath = Some e"
    and m2: "map_of (files w2) dbEncPath = Some e"
    and m3: "map_of (files w3) dbEncPath = None" "map_of (files w3) bakPath = Some e"
    and m4: "map_of (files w4) dbEncPath = Some env" "map_of (files w4) bakPath = Some e"
    and m5: "map_of (files w5) dbEncPath = Some env" "map_of (files w5) bakPath = None"
    using persist_crash_states[OF assms(1-10)] by blast
  have k: "k < 5 \<Longrightarrow> k = 0 \<or> k = 1 \<or> k = 2 \<or> k = 3 \<or> k = 4" for k :: nat by arith
  have old: "\<forall>k<5. map_of (files (persistCrashStates L w ! k)) dbEncPath = Some e
            \<or> map_of (files (persistCrashStates L w ! k)) bakPath = Some e"
  proof (intro allI impI)
    fix k :: nat assume "k < 5"
    then consider "k = 0" | "k = 1" | "k = 2" | "k = 3" | "k = 4" using k by blast
    then show "map_of (files (persistCrashStates L w ! k)) dbEncPath = Some e
            \<or> map_of (files (persistCrashStates L w ! k)) bakPath = Some e"
      using m0 m1 m2 m3 m4 by cases (simp_all add: st)
  qed
  have u: "\<exists>r w''. unlockSelectSource L pass w' = (Inr r, w'')"
    if "w' \<in> set [w0, w1, w2, w3, w4, w5]" for w'
    using that unlock_from_enc[OF m0 assms(11)] unlock_from_enc[OF m1 assms(11)]
      unlock_from_enc[OF m2 assms(11)] unlock_from_bak[OF m3 assms(11)]
      unlock_from_enc[OF m4(1) op] unlock_from_enc[OF m5(1) op]
    by auto
  show ?thesis using old u by (simp add: st pi)
qed


theorem persist_crash_safe_witness:
  "gcm_roundtrip refPlatform \<and> gcm_tag_len refPlatform
   \<and> (\<forall>k n. length (randomBytes refPlatform k n) = n)
   \<and> db encWorld = Some emptyDatabase \<and> \<not> locked encWorld \<and> vault encWorld = Some exampleVault
   \<and> valid_key_material exampleVault
   \<and> deriveKeysFromPassphrase refPlatform examplePassphrase (kdfSalt exampleVault)
        (kdfParams exampleVault) = Inr exampleVault
   \<and> (\<forall>p. \<not> denied encWorld p)
   \<and> map_of (files encWorld) dbEncPath = Some (exampleEnvelope refPlatform)
   \<and> openVaultFromDatabaseEnvelope refPlatform (exampleEnvelope refPlatform) examplePassphrase
        = Inr ([1, 2, 3], exampleVault)
   \<and> length (persistCrashStates refPlatform encWorld) = 6
   \<and> (map_of (files (persistCrashStates refPlatform encWorld ! 3)) dbEncPath
          = Some (exampleEnvelope refPlatform)
        \<or> map_of (files (persistCrashStates refPlatform encWorld ! 3)) bakPath
          = Some (exampleEnvelope refPlatform))
   \<and> (\<exists>r w''. unlockSelectSource refPlatform examplePassphrase
                   (persistCrashStates refPlatform encWorld ! 3) = (Inr r, w''))"
proof -
  have h: "db encWorld = Some emptyDatabase" "\<not> locked encWorld"
    "vault encWorld = Some exampleVault" "\<forall>p. \<not> denied encWorld p"
    "map_of (files encWorld) dbEncPath = Some (exampleEnvelope refPlatform)"
    by (simp_all add: encWorld_def unlockedWorld_def)
  note t = persist_crash_safe[OF ref_roundtrip ref_tag_len ref_random_len h(1-3) example_valid
        example_derive_ref' h(4,5) example_envelope_opens(2)]
  have l: "length (persistCrashStates refPlatform encWorld) = 6" using t by blast
  then have i: "persistCrashStates refPlatform encWorld ! 3
                  \<in> set (persistCrashStates refPlatform encWorld)"
    by simp
  have k: "(3::nat) < 5" by simp
  have o: "map_of (files (persistCrashStates refPlatform encWorld ! 3)) dbEncPath
          = Some (exampleEnvelope refPlatform)
        \<or> map_of (files (persistCrashStates refPlatform encWorld ! 3)) bakPath
          = Some (exampleEnvelope refPlatform)"
    using t k by blast
  have u: "\<exists>r w''. unlockSelectSource refPlatform examplePassphrase
                   (persistCrashStates refPlatform encWorld ! 3) = (Inr r, w'')"
    using t i by blast
  show ?thesis
    using l o u ref_roundtrip ref_tag_len ref_random_len h example_valid example_derive_ref'
      example_envelope_opens(2)
    by blast
qed


text \<open>
  Claim C2 as stated fails in two starting states. When the valid envelope is at the
  backup path only (what a halt between the move aside and the final rename leaves, and
  what the recovery rule then unlocks from), the persist removes the backup before the
  new envelope is in place: after its second step neither path holds an envelope. And
  when the move aside is refused, the fallback unlinks the envelope: after the third
  step neither path holds one.
\<close>

theorem persist_crash_loses_envelope_counterexample:
  "openVaultFromDatabaseEnvelope refPlatform (exampleEnvelope refPlatform) examplePassphrase
     = Inr ([1, 2, 3], exampleVault)
   \<and> map_of (files bakOnlyWorld) bakPath = Some (exampleEnvelope refPlatform)
   \<and> listEncryptedDbCandidates (persistCrashStates refPlatform bakOnlyWorld ! 2) = []
   \<and> map_of (files moveAsideDeniedWorld) dbEncPath = Some (exampleEnvelope refPlatform)
   \<and> listEncryptedDbCandidates (persistCrashStates refPlatform moveAsideDeniedWorld ! 3) = []"
proof -
  obtain env where s: "sealDatabaseBytes refPlatform (sqlExport refPlatform emptyDatabase)
      (Some exampleVault) (randomBytes refPlatform 0 IV_LEN) = Inr env"
    using ref_seal_some by blast
  have b: "listEncryptedDbCandidates (persistCrashStates refPlatform bakOnlyWorld ! 2) = []"
    using s
    by (simp add: persistCrashStates_def bakOnlyWorld_def unlockedWorld_def Let_def
        writeFileSync_def tryUnlink_def existsSync_def unlinkSync_def fsWrite_def fsRemove_def
        moveAside_def renameSync_def fsTree_def isUnder_def startsWith_def path_strings
        candidates_eq)
  have m: "listEncryptedDbCandidates (persistCrashStates refPlatform moveAsideDeniedWorld ! 3) = []"
    using s
    by (simp add: persistCrashStates_def moveAsideDeniedWorld_def encWorld_def
        unlockedWorld_def Let_def writeFileSync_def tryUnlink_def existsSync_def unlinkSync_def
        fsWrite_def fsRemove_def moveAside_def renameSync_def fsTree_def isUnder_def
        startsWith_def path_strings candidates_eq)
  have f: "map_of (files bakOnlyWorld) bakPath = Some (exampleEnvelope refPlatform)"
    "map_of (files moveAsideDeniedWorld) dbEncPath = Some (exampleEnvelope refPlatform)"
    by (simp_all add: bakOnlyWorld_def moveAsideDeniedWorld_def encWorld_def unlockedWorld_def)
  show ?thesis using example_envelope_opens(2) b m f by simp
qed




text \<open>
  Claim C6 (a failed unlock does not tell its cause). Take a sealed envelope, alone at
  the envelope path. An unlock with another passphrase of the minimum length, whose
  derived key the decipher rejects, and an unlock with the right passphrase after a
  byte of the tag or of the ciphertext was overwritten, which the decipher rejects as
  well, throw one and the same error.
\<close>

theorem unlock_failure_indistinguishable:
  assumes "gcm_tag_len L" and "valid_key_material v" and "length iv = IV_LEN"
    and "sealDatabaseBytes L b (Some v) iv = Inr e"
    and "MIN_PASSPHRASE_LEN \<le> length s'"
    and "deriveKeysFromPassphrase L (JsString s') (kdfSalt v) (kdfParams v) = Inr v'"
    and "gcmDecrypt L (dbKey v') iv (take 37 e) (take 16 (drop 49 e)) (drop 65 e) = None"
    and "map_of (files w1) dbEncPath = Some e" and "\<not> existsSync w1 bakPath"
    and "MIN_PASSPHRASE_LEN \<le> length s"
    and "deriveKeysFromPassphrase L (JsString s) (kdfSalt v) (kdfParams v) = Inr v"
    and "49 \<le> i" and "i < length e"
    and "gcmDecrypt L (dbKey v) iv (take 37 e) (take 16 (drop 49 (e[i := x])))
           (drop 65 (e[i := x])) = None"
    and "map_of (files w2) dbEncPath = Some (e[i := x])" and "\<not> existsSync w2 bakPath"
  shows "fst (unlockVault L (JsString s') w1) = Inl UnlockFailed
       \<and> fst (unlockVault L (JsString s) w2) = Inl UnlockFailed
       \<and> fst (unlockVault L (JsString s') w1) = fst (unlockVault L (JsString s) w2)"
proof -
  have o1: "openVaultFromDatabaseEnvelope L e (JsString s') = Inl AuthFailed"
    using open_same_header[OF assms(1-4) refl refl, of "JsString s'"] assms(6,7) by simp
  have h: "take 49 (e[i := x]) = take 49 e" using assms(12) by simp
  have o2: "openVaultFromDatabaseEnvelope L (e[i := x]) (JsString s) = Inl AuthFailed"
    using open_same_header[OF assms(1-4) h, of "JsString s"] assms(11,14) by simp
  show ?thesis
    using unlock_auth_failed[OF assms(8,9) o1 assms(5)]
      unlock_auth_failed[OF assms(15,16) o2 assms(10)]
    by simp
qed


theorem unlock_failure_indistinguishable_witness:
  "gcm_tag_len refPlatform \<and> valid_key_material exampleVault \<and> length exampleIv = IV_LEN
   \<and> sealDatabaseBytes refPlatform [1, 2, 3] (Some exampleVault) exampleIv
        = Inr (exampleEnvelope refPlatform)
   \<and> MIN_PASSPHRASE_LEN \<le> length wrongPassphrase
   \<and> deriveKeysFromPassphrase refPlatform (JsString wrongPassphrase) (kdfSalt exampleVault)
        (kdfParams exampleVault) = Inr wrongVault
   \<and> map_of (files encWorld) dbEncPath = Some (exampleEnvelope refPlatform)
   \<and> \<not> existsSync encWorld bakPath
   \<and> (49::nat) \<le> 66 \<and> 66 < length (exampleEnvelope refPlatform)
   \<and> map_of (files corruptWorld) dbEncPath = Some ((exampleEnvelope refPlatform)[66 := 0])
   \<and> \<not> existsSync corruptWorld bakPath
   \<and> fst (unlockVault refPlatform (JsString wrongPassphrase) encWorld) = Inl UnlockFailed
   \<and> fst (unlockVault refPlatform examplePassphrase corruptWorld) = Inl UnlockFailed"
proof -
  have f1: "map_of (files encWorld) dbEncPath = Some (exampleEnvelope refPlatform)"
    by (simp add: encWorld_def unlockedWorld_def)
  have f2: "map_of (files corruptWorld) dbEncPath = Some ((exampleEnvelope refPlatform)[66 := 0])"
    by (simp add: corruptWorld_def unlockedWorld_def)
  have i1: "(49::nat) \<le> 66" by simp
  have i2: "66 < length (exampleEnvelope refPlatform)" by (simp add: example_envelope_bytes)
  note t = unlock_failure_indistinguishable[OF ref_tag_len example_valid example_iv_len
      example_envelope_opens(1) wrong_len wrong_derive wrong_rejected f1 no_bak(1)
      pass_len example_derive_ref'[unfolded examplePassphrase_def] i1 i2 corrupt_rejected
      f2 no_bak(2)]
  show ?thesis
    using t ref_tag_len example_valid example_iv_len example_envelope_opens(1) wrong_len
      wrong_derive f1 no_bak i1 i2 f2
    by (simp add: examplePassphrase_def)
qed



section \<open>The claim about restoring\<close>

text \<open>
  Claim C7 (the safety snapshot of a restore), as the code has it. A restore from a
  folder with no database file changes nothing and answers that it failed. Otherwise it
  first calls \<^verbatim>\<open>createLocalSnapshot\<close> on the state it starts in, with the reason
  \<^verbatim>\<open>pre-restore:<reason>\<close>. When that call returns, the snapshot carries this reason, its
  manifest is written, no later step of the restore touches a file under the snapshot
  directory (other than a decrypted temporary file registered there), and a restore that
  completes reports the id of the snapshot. When that call fails, the restore goes on
  all the same, and a restore that completes reports no snapshot id.
\<close>

theorem restore_snapshot_first:
  "(resolveBackupDatabaseSource w backupDir = None \<longrightarrow>
      restoreFromBackupFolder L backupDir why w
        = (Inr \<lparr>ok = False, restoredAttachments = 0, preRestoreSnapshotId = None\<rparr>, w))
   \<and> (resolveBackupDatabaseSource w backupDir \<noteq> None \<longrightarrow>
        (\<forall>m w1. createLocalSnapshot L (''pre-restore:'' @ why) w = (Inr m, w1) \<longrightarrow>
            reason m = ''pre-restore:'' @ why
          \<and> map_of (files w1) (manifestPath m) = Some (jsonManifest L m)
          \<and> (\<forall>q. isUnder snapshotsRoot q \<and> q \<notin> set (tempOpenFiles w) \<longrightarrow>
                map_of (files (snd (restoreFromBackupFolder L backupDir why w))) q
                  = map_of (files w1) q)
          \<and> (\<forall>r w'. restoreFromBackupFolder L backupDir why w = (Inr r, w') \<longrightarrow>
                ok r \<and> preRestoreSnapshotId r = Some (snapshotId m)))
      \<and> (\<forall>e w1. createLocalSnapshot L (''pre-restore:'' @ why) w = (Inl e, w1) \<longrightarrow>
            (\<forall>r w'. restoreFromBackupFolder L backupDir why w = (Inr r, w') \<longrightarrow>
                ok r \<and> preRestoreSnapshotId r = None)))"
proof -
  have a: "resolveBackupDatabaseSource w backupDir = None \<Longrightarrow>
      restoreFromBackupFolder L backupDir why w
        = (Inr \<lparr>ok = False, restoredAttachments = 0, preRestoreSnapshotId = None\<rparr>, w)"
    by (simp add: restoreFromBackupFolder_def)
  have b: "reason m = ''pre-restore:'' @ why
          \<and> map_of (files w1) (manifestPath m) = Some (jsonManifest L m)
          \<and> (\<forall>q. isUnder snapshotsRoot q \<and> q \<notin> set (tempOpenFiles w) \<longrightarrow>
                map_of (files (snd (restoreFromBackupFolder L backupDir why w))) q
                  = map_of (files w1) q)
          \<and> (\<forall>r w'. restoreFromBackupFolder L backupDir why w = (Inr r, w') \<longrightarrow>
                ok r \<and> preRestoreSnapshotId r = Some (snapshotId m))"
    if src: "resolveBackupDatabaseSource w backupDir = Some source"
      and c: "createLocalSnapshot L (''pre-restore:'' @ why) w = (Inr m, w1)"
    for source m w1
  proof -
    have 1: "reason m = ''pre-restore:'' @ why"
      using createLocalSnapshot_result(2)[OF c refl] by simp
    have 2: "map_of (files w1) (manifestPath m) = Some (jsonManifest L m)"
      using createLocalSnapshot_result(2)[OF c refl] by simp
    have 3: "\<forall>q. isUnder snapshotsRoot q \<and> q \<notin> set (tempOpenFiles w) \<longrightarrow>
                map_of (files (snd (restoreFromBackupFolder L backupDir why w))) q
                  = map_of (files w1) q"
      using restore_snapshot_props[OF src c] by blast
    have 4: "\<forall>r w'. restoreFromBackupFolder L backupDir why w = (Inr r, w') \<longrightarrow>
                ok r \<and> preRestoreSnapshotId r = Some (snapshotId m)"
      using restore_snapshot_props[OF src c manifestPath_under[of m]] by simp
    show ?thesis using 1 2 3 4 by blast
  qed
  have c: "\<forall>r w'. restoreFromBackupFolder L backupDir why w = (Inr r, w') \<longrightarrow>
                ok r \<and> preRestoreSnapshotId r = None"
    if src: "resolveBackupDatabaseSource w backupDir = Some source"
      and c: "createLocalSnapshot L (''pre-restore:'' @ why) w = (Inl e, w1)"
    for source e w1
    using restore_snapshot_props[OF src c manifestPath_under] by simp
  show ?thesis
  proof (cases "resolveBackupDatabaseSource w backupDir")
    case None
    then show ?thesis using a by simp
  next
    case (Some source)
    have "resolveBackupDatabaseSource w backupDir \<noteq> None" using Some by simp
    then show ?thesis using b[OF Some] c[OF Some] by blast
  qed
qed

theorem restore_snapshot_first_witness:
  "resolveBackupDatabaseSource restoreWorld ''/backup'' \<noteq> None
   \<and> createLocalSnapshot refPlatform (''pre-restore:'' @ ''backup'') restoreWorld
       = (Inr exampleManifest, snapWorld)
   \<and> reason exampleManifest = ''pre-restore:'' @ ''backup''
   \<and> isUnder snapshotsRoot (manifestPath exampleManifest)
   \<and> manifestPath exampleManifest \<notin> set (tempOpenFiles restoreWorld)
   \<and> map_of (files (snd (restoreFromBackupFolder refPlatform ''/backup'' ''backup'' restoreWorld)))
         (manifestPath exampleManifest) = Some (jsonManifest refPlatform exampleManifest)
   \<and> (\<exists>r w'. restoreFromBackupFolder refPlatform ''/backup'' ''backup'' restoreWorld = (Inr r, w')
         \<and> ok r \<and> preRestoreSnapshotId r = Some (snapshotId exampleManifest))
   \<and> resolveBackupDatabaseSource restoreWorld ''/elsewhere'' = None
   \<and> restoreFromBackupFolder refPlatform ''/elsewhere'' ''backup'' restoreWorld
       = (Inr \<lparr>ok = False, restoredAttachments = 0, preRestoreSnapshotId = None\<rparr>, restoreWorld)
   \<and> resolveBackupDatabaseSource noSnapshotWorld ''/backup'' \<noteq> None
   \<and> createLocalSnapshot refPlatform (''pre-restore:'' @ ''backup'') noSnapshotWorld
       = (Inl IOFailure, noSnapshotWorld\<lparr>draws := 2\<rparr>)
   \<and> (\<exists>r w'. restoreFromBackupFolder refPlatform ''/backup'' ''backup'' noSnapshotWorld = (Inr r, w')
         \<and> ok r \<and> preRestoreSnapshotId r = None)"
proof -
  have s: "resolveBackupDatabaseSource restoreWorld ''/backup'' \<noteq> None"
    by (simp add: restore_example_src)
  have c: "createLocalSnapshot refPlatform (''pre-restore:'' @ ''backup'') restoreWorld
       = (Inr exampleManifest, snapWorld)"
    using restore_example_snap by simp
  have u: "isUnder snapshotsRoot (manifestPath exampleManifest)" by (rule manifestPath_under)
  have t: "manifestPath exampleManifest \<notin> set (tempOpenFiles restoreWorld)"
    by (simp add: restoreWorld_def)
  obtain r w' where run: "restoreFromBackupFolder refPlatform ''/backup'' ''backup'' restoreWorld
      = (Inr r, w')"
    using restore_example_run by blast
  note main = restore_snapshot_first[of restoreWorld "''/backup''" refPlatform "''backup''"]
  have m1: "reason exampleManifest = ''pre-restore:'' @ ''backup''"
    using main s c by blast
  have m2: "map_of (files (snd (restoreFromBackupFolder refPlatform ''/backup'' ''backup''
        restoreWorld))) (manifestPath exampleManifest)
      = Some (jsonManifest refPlatform exampleManifest)"
    using main s c u t by metis
  have m3: "ok r \<and> preRestoreSnapshotId r = Some (snapshotId exampleManifest)"
    using main s c run by blast
  have e: "resolveBackupDatabaseSource restoreWorld ''/elsewhere'' = None"
    by (rule elsewhere_example)
  have e1: "restoreFromBackupFolder refPlatform ''/elsewhere'' ''backup'' restoreWorld
       = (Inr \<lparr>ok = False, restoredAttachments = 0, preRestoreSnapshotId = None\<rparr>, restoreWorld)"
    using restore_snapshot_first[of restoreWorld "''/elsewhere''" refPlatform "''backup''"] e
    by blast
  have n: "resolveBackupDatabaseSource noSnapshotWorld ''/backup'' \<noteq> None"
    by (simp add: no_snapshot_src)
  have nc: "createLocalSnapshot refPlatform (''pre-restore:'' @ ''backup'') noSnapshotWorld
       = (Inl IOFailure, noSnapshotWorld\<lparr>draws := 2\<rparr>)"
    using no_snapshot_snap by simp
  obtain r2 w2 where run2: "restoreFromBackupFolder refPlatform ''/backup'' ''backup''
      noSnapshotWorld = (Inr r2, w2)"
    using no_snapshot_run by blast
  have n3: "ok r2 \<and> preRestoreSnapshotId r2 = None"
    using restore_snapshot_first[of noSnapshotWorld "''/backup''" refPlatform "''backup''"]
      n nc run2 by blast
  show ?thesis using s c m1 u t m2 m3 run e e1 n nc n3 run2 by blast
qed

text \<open>
  Claim C7 as stated fails when the snapshot cannot be created. With the snapshot
  directory not writable, \<^verbatim>\<open>createLocalSnapshot\<close> fails, the restore catches the failure
  and completes: the envelope is overwritten by the one of the backup, the attachment is
  deleted, no file exists under the snapshot directory, and the result reports success
  without a snapshot id.
\<close>

theorem restore_without_snapshot_counterexample:
  "resolveBackupDatabaseSource noSnapshotWorld ''/backup'' \<noteq> None
   \<and> map_of (files noSnapshotWorld) ''/userData/attachments/p/a.txt'' = Some [5]
   \<and> map_of (files noSnapshotWorld) dbEncPath = Some (exampleEnvelope refPlatform)
   \<and> fst (createLocalSnapshot refPlatform ''pre-restore:backup'' noSnapshotWorld) = Inl IOFailure
   \<and> fst (restoreFromBackupFolder refPlatform ''/backup'' ''backup'' noSnapshotWorld)
        = Inr \<lparr>ok = True, restoredAttachments = 0, preRestoreSnapshotId = None\<rparr>
   \<and> map_of (files (snd (restoreFromBackupFolder refPlatform ''/backup'' ''backup''
          noSnapshotWorld))) ''/userData/attachments/p/a.txt'' = None
   \<and> map_of (files (snd (restoreFromBackupFolder refPlatform ''/backup'' ''backup''
          noSnapshotWorld))) dbEncPath = Some [9]
   \<and> fsTree (files (snd (restoreFromBackupFolder refPlatform ''/backup'' ''backup''
          noSnapshotWorld))) snapshotsRoot = []"
  by (simp add: no_snapshot_src no_snapshot_snap no_snapshot_run)
    (simp add: noSnapshotWorld_def restoreWorld_def fs_eval)

end
